theory Spec2Isabelle
  imports Main
begin

section \<open>The iSCSI target-topology plugin (middlewared/plugins/iscsi.py)\<close>

text \<open>
  The plugin keeps six entities in a relational store: portals with their listen
  addresses, authorized accesses, initiator lists, targets with their groups, extents and
  target-to-extent associations. Every service method is embedded as a function from the
  store to a result and the store afterwards; a raised exception is the \<open>Inl\<close> branch of
  the result. Python integers are \<open>int\<close>, Python strings are \<open>string\<close> (lists of 8-bit
  characters), \<open>None\<close> is the \<open>None\<close> of an option type.
\<close>

subsection \<open>Strings\<close>

text \<open>\<open>str(n)\<close> for an integer, as the f-strings of the plugin format it.\<close>

fun str_nat :: "nat \<Rightarrow> string" where
  "str_nat n =
     (if n < 10 then [char_of (48 + n)]
      else str_nat (n div 10) @ [char_of (48 + n mod 10)])"

declare str_nat.simps [simp del]

definition str_int :: "int \<Rightarrow> string" where
  "str_int i = (if i < 0 then CHR ''-'' # str_nat (nat (- i)) else str_nat (nat i))"

text \<open>\<open>sep.join(xs)\<close>.\<close>

fun join :: "string \<Rightarrow> string list \<Rightarrow> string" where
  "join sep [] = []"
| "join sep [x] = x"
| "join sep (x # y # ys) = x @ sep @ join sep (y # ys)"

text \<open>
  \<open>c.isspace()\<close> on the code points below 256: the ASCII white space
  (9 to 13, 28 to 32), NEL (133) and the no-break space (160).
\<close>

definition isspace :: "char \<Rightarrow> bool" where
  "isspace c =
     (let n = (of_char c :: nat)
      in (9 \<le> n \<and> n \<le> 13) \<or> (28 \<le> n \<and> n \<le> 32) \<or> n = 133 \<or> n = 160)"

text \<open>
  \<open>s.split()\<close> with no argument: the maximal runs of characters that are not white
  space, in order; \<open>cur\<close> is the run being read.
\<close>

fun split_run :: "string \<Rightarrow> string \<Rightarrow> string list" where
  "split_run cur [] = (if cur = [] then [] else [cur])"
| "split_run cur (c # cs) =
     (if isspace c then (if cur = [] then split_run [] cs else cur # split_run [] cs)
      else split_run (cur @ [c]) cs)"

definition split :: "string \<Rightarrow> string list" where
  "split s = split_run [] s"

subsection \<open>Initiators: the stored form and the form read back\<close>

text \<open>
  The dictionary that \<open>iSCSITargetAuthorizedInitiator.compress\<close> receives (lists) and the
  row it becomes (newline-joined text, \<open>ALL\<close> for an empty list); \<open>extend\<close> is applied
  to every row read from the table.
\<close>

record initiator =
  init_id :: int
  initiators :: "string list"
  auth_network :: "string list"
  init_comment :: string

record initiator_row =
  ir_id :: int
  ir_initiators :: string
  ir_auth_network :: string
  ir_comment :: string

definition initiator_compress :: "initiator \<Rightarrow> initiator_row" where
  "initiator_compress d =
     \<lparr> ir_id = init_id d,
       ir_initiators = (if initiators d = [] then ''ALL'' else join [CHR 10] (initiators d)),
       ir_auth_network = (if auth_network d = [] then ''ALL'' else join [CHR 10] (auth_network d)),
       ir_comment = init_comment d \<rparr>"

definition initiator_extend :: "initiator_row \<Rightarrow> initiator" where
  "initiator_extend r =
     \<lparr> init_id = ir_id r,
       initiators = (if ir_initiators r = ''ALL'' then [] else split (ir_initiators r)),
       auth_network = (if ir_auth_network r = ''ALL'' then [] else split (ir_auth_network r)),
       init_comment = ir_comment r \<rparr>"

text \<open>A name that \<open>split\<close> gives back as it is: not empty and free of white space.\<close>

definition plain_name :: "string \<Rightarrow> bool" where
  "plain_name x = (x \<noteq> [] \<and> list_all (\<lambda>c. \<not> isspace c) x)"

subsection \<open>Errors, rows and the store\<close>

text \<open>
  A validation error is what \<open>ValidationErrors.add(attribute, message, errno)\<close> records;
  the error number defaults to \<open>EINVAL\<close>.
\<close>

type_synonym verror = "string \<times> string \<times> nat"

definition EINVAL :: nat where "EINVAL = 22"
definition ENOENT :: nat where "ENOENT = 2"

datatype error =
    ValidationErrors "verror list"
  | CallError string
  | InstanceNotFound
  | TypeError
  | DatastoreError
  | ProcessError

text \<open>The rows of the eight tables (column prefixes dropped), and the dictionaries of the API.\<close>

record portal_row =
  portal_id :: int
  portal_tag :: int
  portal_comment :: string
  portal_discoveryauthmethod :: string
  portal_discoveryauthgroup :: "int option"

record portalip_row =
  portalip_id :: int
  portalip_portal :: int
  portalip_ip :: string
  portalip_port :: int

record listen =
  l_ip :: string
  l_port :: int

record portal =
  p_id :: int
  p_tag :: int
  p_comment :: string
  p_discovery_authmethod :: "string option"
  p_discovery_authgroup :: "int option"
  p_listen :: "listen list"

record auth_row =
  auth_id :: int
  auth_tag :: int
  auth_user :: string
  auth_secret :: string
  auth_peeruser :: string
  auth_peersecret :: string

record target_row =
  target_id :: int
  target_name :: string
  target_alias :: "string option"
  target_mode :: string

record group_row =
  group_id :: int
  group_target :: int
  group_portalgroup :: int
  group_initiatorgroup :: "int option"
  group_authtype :: string
  group_authgroup :: "int option"

record group =
  g_portal :: int
  g_initiator :: "int option"
  g_authmethod :: string
  g_auth :: "int option"

record target =
  t_id :: int
  t_name :: string
  t_alias :: "string option"
  t_mode :: string
  t_groups :: "group list"

text \<open>
  The option columns of an extent that no method of the plugin reads are kept
  together.
\<close>

record extent_options =
  pblocksize :: bool
  avail_threshold :: "int option"
  insecure_tpc :: bool
  xen :: bool
  rpm :: string
  ro :: bool
  enabled :: bool

record extent_row =
  extent_id :: int
  extent_name :: string
  extent_row_serial :: string
  extent_type :: "string option"
  extent_path :: "string option"
  extent_filesize :: int
  extent_blocksize :: int
  extent_comment :: string
  extent_row_naa :: string
  extent_vendor :: "string option"
  extent_opts :: extent_options

record extent =
  e_name :: string
  e_type :: "string option"
  e_disk :: "string option"
  e_serial :: "string option"
  e_path :: "string option"
  e_filesize :: int
  e_blocksize :: int
  e_comment :: string
  e_naa :: "string option"
  e_opts :: extent_options

record assoc_row =
  te_id :: int
  te_target :: int
  te_extent :: int
  te_lunid :: int

record targetextent =
  a_target :: int
  a_lunid :: "int option"
  a_extent :: int

text \<open>
  One write to the datastore, as logged by the store: the table and the row id, or
  the table alone for a delete by filter.
\<close>

datatype ds_event =
    Insert string int
  | Delete string int
  | DeleteWhere string
  | Update string int

text \<open>
  The store: the tables, every \<open>_service_change(service, action)\<close> made so far and
  every datastore write made so far, oldest first.
\<close>

record store =
  portals :: "portal_row list"
  portalips :: "portalip_row list"
  auths :: "auth_row list"
  initiator_rows :: "initiator_row list"
  targets :: "target_row list"
  groups :: "group_row list"
  extents :: "extent_row list"
  assocs :: "assoc_row list"
  service_calls :: "(string \<times> string) list"
  ds_log :: "ds_event list"

text \<open>
  What the plugin reads from its collaborators during one call: the addresses of
  \<open>listen_ip_choices\<close>, the successive values of \<open>secrets.token_hex()\<close>, the SHA-256
  hex digest of the fresh UUID, the Fibre Channel feature flag, the targets of the live
  sessions, the global base name, whether the service runs, the file system and dataset
  queries of the extent checks, and which inserts of child rows the datastore refuses.
\<close>

record env =
  listen_ip_choices :: "string list"
  token_hex :: "nat \<Rightarrow> string"
  uuid_sha256 :: string
  fibrechannel :: bool
  sessions :: "string list"
  basename :: string
  service_started :: bool
  path_exists :: "string \<Rightarrow> bool"
  path_isfile :: "string \<Rightarrow> bool"
  dataset_exists :: "string \<Rightarrow> bool"
  zvol_path_to_name :: "string \<Rightarrow> string"
  path_volume_errors :: "string \<Rightarrow> string \<Rightarrow> verror list"
  mkdir_error :: "string \<Rightarrow> string option"
  truncate_fails :: "string \<Rightarrow> bool"
  unlink_fails :: "string \<Rightarrow> bool"
  portalip_insert_fails :: "int \<Rightarrow> listen \<Rightarrow> bool"
  group_insert_fails :: "int \<Rightarrow> group \<Rightarrow> bool"

subsection \<open>The storage and notifier collaborators\<close>

text \<open>
  Modelled from the spec: the storage collaborator (\<open>datastore.insert\<close>,
  \<open>datastore.delete\<close>, \<open>datastore.update\<close>) is not part of the plugin. An insert
  appends the row under an id above every id of the table and returns the id; a delete
  by id removes the row with that id; each write is logged.
\<close>

definition fresh_id :: "int list \<Rightarrow> int" where
  "fresh_id ids = fold max ids 0 + 1"

definition service_change :: "string \<Rightarrow> string \<Rightarrow> store \<Rightarrow> store" where
  "service_change svc action s = s\<lparr>service_calls := service_calls s @ [(svc, action)]\<rparr>"

definition logged :: "ds_event \<Rightarrow> store \<Rightarrow> store" where
  "logged ev s = s\<lparr>ds_log := ds_log s @ [ev]\<rparr>"

definition insert_portal :: "portal_row \<Rightarrow> store \<Rightarrow> int \<times> store" where
  "insert_portal r s =
     (let pk = fresh_id (map portal_id (portals s))
      in (pk, logged (Insert ''services.iscsitargetportal'' pk)
                (s\<lparr>portals := portals s @ [r\<lparr>portal_id := pk\<rparr>]\<rparr>)))"

definition delete_portal :: "int \<Rightarrow> store \<Rightarrow> store" where
  "delete_portal pk s =
     logged (Delete ''services.iscsitargetportal'' pk)
       (s\<lparr>portals := filter (\<lambda>r. portal_id r \<noteq> pk) (portals s)\<rparr>)"

definition update_portal_tag :: "int \<Rightarrow> int \<Rightarrow> store \<Rightarrow> store" where
  "update_portal_tag pk t s =
     logged (Update ''services.iscsitargetportal'' pk)
       (s\<lparr>portals := map (\<lambda>r. if portal_id r = pk then r\<lparr>portal_tag := t\<rparr> else r) (portals s)\<rparr>)"

definition insert_portalip :: "int \<Rightarrow> listen \<Rightarrow> store \<Rightarrow> int \<times> store" where
  "insert_portalip pk i s =
     (let k = fresh_id (map portalip_id (portalips s))
      in (k, logged (Insert ''services.iscsitargetportalip'' k)
               (s\<lparr>portalips := portalips s @
                   [\<lparr>portalip_id = k, portalip_portal = pk, portalip_ip = l_ip i,
                     portalip_port = l_port i\<rparr>]\<rparr>)))"

definition delete_portalip :: "int \<Rightarrow> store \<Rightarrow> store" where
  "delete_portalip k s =
     logged (Delete ''services.iscsitargetportalip'' k)
       (s\<lparr>portalips := filter (\<lambda>r. portalip_id r \<noteq> k) (portalips s)\<rparr>)"

text \<open>
  A Python set of dictionaries' item tuples is a list without repetitions here; the
  difference of two sets is read in the order of the first.
\<close>

definition set_diff :: "'a list \<Rightarrow> 'a list \<Rightarrow> 'a list" where
  "set_diff xs ys = filter (\<lambda>x. x \<notin> set ys) (remdups xs)"

text \<open>The bidirectional map \<open>AUTHMETHOD_LEGACY_MAP\<close>: \<open>get\<close> and \<open>inv.get\<close> with a default.\<close>

definition legacy_get :: "string \<Rightarrow> string option" where
  "legacy_get k =
     (if k = ''None'' then Some ''NONE''
      else if k = ''CHAP'' then Some ''CHAP''
      else if k = ''CHAP Mutual'' then Some ''CHAP_MUTUAL''
      else None)"

definition legacy_inv_get :: "string option \<Rightarrow> string \<Rightarrow> string" where
  "legacy_inv_get k dflt =
     (if k = Some ''NONE'' then ''None''
      else if k = Some ''CHAP'' then ''CHAP''
      else if k = Some ''CHAP_MUTUAL'' then ''CHAP Mutual''
      else dflt)"

subsection \<open>Portals (\<open>ISCSIPortalService\<close>)\<close>

text \<open>
  \<open>config_extend\<close>: the row with its listen pairs and the method under its new name.
\<close>

definition portal_config_extend :: "store \<Rightarrow> portal_row \<Rightarrow> portal" where
  "portal_config_extend s r =
     \<lparr> p_id = portal_id r, p_tag = portal_tag r, p_comment = portal_comment r,
       p_discovery_authmethod = legacy_get (portal_discoveryauthmethod r),
       p_discovery_authgroup = portal_discoveryauthgroup r,
       p_listen = map (\<lambda>i. \<lparr>l_ip = portalip_ip i, l_port = portalip_port i\<rparr>)
                    (filter (\<lambda>i. portalip_portal i = portal_id r) (portalips s)) \<rparr>"

definition portal_get_instance :: "store \<Rightarrow> int \<Rightarrow> error + portal" where
  "portal_get_instance s pk =
     (case filter (\<lambda>r. portal_id r = pk) (portals s) of
        [] \<Rightarrow> Inl InstanceNotFound
      | r # _ \<Rightarrow> Inr (portal_config_extend s r))"

text \<open>
  \<open>__validate\<close>. The key \<open>id\<close> of \<open>data\<close> is read on the update path only; an integer
  is true when it is neither \<open>None\<close> nor 0.
\<close>

definition listen_errors ::
  "env \<Rightarrow> store \<Rightarrow> portal \<Rightarrow> string \<Rightarrow> string list \<Rightarrow> listen \<Rightarrow> verror list" where
  "listen_errors e s d schema new_ips i =
     (if filter (\<lambda>r. portalip_ip r = l_ip i \<and> portalip_port r = l_port i \<and>
                      (if schema = ''iscsiportal_update'' then portalip_portal r \<noteq> p_id d else True))
           (portalips s) \<noteq> []
      then [(schema @ ''.listen'', l_ip i @ '':'' @ str_int (l_port i) @ '' already in use.'', EINVAL)]
      else [])
     @ (if (l_ip i \<in> set new_ips \<or> new_ips = []) \<and> l_ip i \<notin> set (listen_ip_choices e)
        then [(schema @ ''.listen'', ''IP '' @ l_ip i @ '' not configured on this system.'', EINVAL)]
        else [])"

definition truthy :: "int option \<Rightarrow> bool" where
  "truthy v = (case v of None \<Rightarrow> False | Some n \<Rightarrow> n \<noteq> 0)"

definition portal_validate ::
  "env \<Rightarrow> store \<Rightarrow> portal \<Rightarrow> string \<Rightarrow> portal option \<Rightarrow> verror list" where
  "portal_validate e s d schema old =
     (if p_listen d = []
      then [(schema @ ''.listen'', ''At least one listen entry is required.'', EINVAL)]
      else
        (let new_ips = (case old of
                          None \<Rightarrow> []
                        | Some od \<Rightarrow> set_diff (map l_ip (p_listen d)) (map l_ip (p_listen od)))
         in concat (map (listen_errors e s d schema new_ips) (p_listen d))))
     @ (if truthy (p_discovery_authgroup d)
        then (if filter (\<lambda>a. Some (auth_tag a) = p_discovery_authgroup d) (auths s) = []
              then [(schema @ ''.discovery_authgroup'',
                     ''Auth Group '' @ [CHR 0x22] @ str_int (the (p_discovery_authgroup d)) @ [CHR 0x22]
                       @ '' not found.'', ENOENT)]
              else [])
        else if p_discovery_authmethod d = Some ''CHAP'' \<or> p_discovery_authmethod d = Some ''CHAP_MUTUAL''
        then [(schema @ ''.discovery_authgroup'',
               ''This field is required if discovery method is set to CHAP or CHAP Mutual.'', EINVAL)]
        else [])"

text \<open>
  \<open>__save_listen\<close>: first the loop over \<open>new - old\<close> that inserts, then the loop over
  \<open>old - new\<close> that looks the row up and deletes it when found. An insert that the
  datastore refuses raises and ends the call.
\<close>

fun insert_listens :: "env \<Rightarrow> int \<Rightarrow> listen list \<Rightarrow> store \<Rightarrow> (error + unit) \<times> store" where
  "insert_listens e pk [] s = (Inr (), s)"
| "insert_listens e pk (i # is) s =
     (if portalip_insert_fails e pk i then (Inl DatastoreError, s)
      else insert_listens e pk is (snd (insert_portalip pk i s)))"

fun delete_listens :: "int \<Rightarrow> listen list \<Rightarrow> store \<Rightarrow> store" where
  "delete_listens pk [] s = s"
| "delete_listens pk (i # is) s =
     (case filter (\<lambda>r. portalip_portal r = pk \<and> portalip_ip r = l_ip i \<and> portalip_port r = l_port i)
             (portalips s) of
        [] \<Rightarrow> delete_listens pk is s
      | r # _ \<Rightarrow> delete_listens pk is (delete_portalip (portalip_id r) s))"

definition save_listen ::
  "env \<Rightarrow> int \<Rightarrow> listen list \<Rightarrow> listen list option \<Rightarrow> store \<Rightarrow> (error + unit) \<times> store" where
  "save_listen e pk new old s =
     (let new_listen_set = remdups new;
          old_listen_set = (case old of None \<Rightarrow> [] | Some ol \<Rightarrow> remdups ol)
      in case insert_listens e pk (set_diff new_listen_set old_listen_set) s of
           (Inl err, s1) \<Rightarrow> (Inl err, s1)
         | (Inr _, s1) \<Rightarrow> (Inr (), delete_listens pk (set_diff old_listen_set new_listen_set) s1))"

text \<open>
  \<open>do_create\<close>. The row handed to \<open>datastore.insert\<close> has the number of portal
  rows plus one as its tag; when \<open>__save_listen\<close> raises, the row just inserted is
  deleted and the exception raised again. The method returns the refreshed view of the row
  \<open>pk\<close>; the model returns \<open>pk\<close>.
\<close>

definition portal_insert_data :: "store \<Rightarrow> portal \<Rightarrow> portal_row" where
  "portal_insert_data s d =
     \<lparr> portal_id = 0, portal_tag = int (length (portals s)) + 1, portal_comment = p_comment d,
       portal_discoveryauthmethod = legacy_inv_get (p_discovery_authmethod d) ''None'',
       portal_discoveryauthgroup = p_discovery_authgroup d \<rparr>"

definition portal_do_create :: "env \<Rightarrow> portal \<Rightarrow> store \<Rightarrow> (error + int) \<times> store" where
  "portal_do_create e d s =
     (let verrors = portal_validate e s d ''iscsiportal_create'' None
      in if verrors \<noteq> [] then (Inl (ValidationErrors verrors), s)
         else
           (let (pk, s1) = insert_portal (portal_insert_data s d) s
            in case save_listen e pk (p_listen d) None s1 of
                 (Inl err, s2) \<Rightarrow> (Inl err, delete_portal pk s2)
               | (Inr _, s2) \<Rightarrow> (Inr pk, service_change ''iscsitarget'' ''reload'' s2)))"

text \<open>
  \<open>do_delete\<close>: the groups and the listen pairs of the portal go, then the row, then
  every remaining portal, read in the order of its tag, is given its position as tag.
\<close>

fun renumber :: "nat \<Rightarrow> portal list \<Rightarrow> store \<Rightarrow> store" where
  "renumber i [] s = s"
| "renumber i (p # ps) s = renumber (Suc i) ps (update_portal_tag (p_id p) (int i + 1) s)"

definition portal_query_by_tag :: "store \<Rightarrow> portal list" where
  "portal_query_by_tag s = sort_key p_tag (map (portal_config_extend s) (portals s))"

definition portal_do_delete :: "int \<Rightarrow> store \<Rightarrow> (error + unit) \<times> store" where
  "portal_do_delete pk s =
     (case portal_get_instance s pk of
        Inl err \<Rightarrow> (Inl err, s)
      | Inr _ \<Rightarrow>
          (let s1 = logged (DeleteWhere ''services.iscsitargetgroups'')
                      (s\<lparr>groups := filter (\<lambda>g. group_portalgroup g \<noteq> pk) (groups s)\<rparr>);
               s2 = logged (DeleteWhere ''services.iscsitargetportalip'')
                      (s1\<lparr>portalips := filter (\<lambda>i. portalip_portal i \<noteq> pk) (portalips s1)\<rparr>);
               s3 = delete_portal pk s2;
               s4 = renumber 0 (portal_query_by_tag s3) s3
           in (Inr (), service_change ''iscsitarget'' ''reload'' s4)))"

text \<open>A sequence of portal calls, each with what its collaborators answer.\<close>

datatype portal_call = Create env portal | Remove int

fun portal_step :: "store \<Rightarrow> portal_call \<Rightarrow> store" where
  "portal_step s (Create e d) = snd (portal_do_create e d s)"
| "portal_step s (Remove pk) = snd (portal_do_delete pk s)"

definition portal_run :: "store \<Rightarrow> portal_call list \<Rightarrow> store" where
  "portal_run s cs = foldl portal_step s cs"

subsection \<open>A small installation for the examples\<close>

definition store0 :: store where
  "store0 = \<lparr> portals = [], portalips = [], auths = [], initiator_rows = [], targets = [],
     groups = [], extents = [], assocs = [], service_calls = [], ds_log = [] \<rparr>"

definition env0 :: env where
  "env0 = \<lparr> listen_ip_choices = [''0.0.0.0'', ''::'', ''10.0.0.1''],
     token_hex = (\<lambda>n. ''0123456789abcdef0123456789abcdef0123456789abcdef0123456789abcdef''),
     uuid_sha256 = ''e3b0c44298fc1c149afbf4c8996fb92427ae41e4649b934ca495991b7852b855'',
     fibrechannel = False, sessions = [], basename = ''iqn.2005-10.org.freenas.ctl'',
     service_started = False, path_exists = (\<lambda>p. True), path_isfile = (\<lambda>p. True),
     dataset_exists = (\<lambda>p. True), zvol_path_to_name = drop 10,
     path_volume_errors = (\<lambda>n p. []), mkdir_error = (\<lambda>p. None), truncate_fails = (\<lambda>p. False),
     unlink_fails = (\<lambda>p. False), portalip_insert_fails = (\<lambda>pk i. False),
     group_insert_fails = (\<lambda>pk g. False) \<rparr>"

definition portal0 :: "string \<Rightarrow> portal" where
  "portal0 a = \<lparr> p_id = 0, p_tag = 0, p_comment = '''', p_discovery_authmethod = Some ''NONE'',
     p_discovery_authgroup = None, p_listen = [\<lparr>l_ip = a, l_port = 3260\<rparr>] \<rparr>"

text \<open>
  The invariant of the portal table: the ids are distinct and the tags, in the order of
  the rows, are 1, 2, ..., N.
\<close>

definition portal_inv :: "store \<Rightarrow> bool" where
  "portal_inv s = (distinct (map portal_id (portals s)) \<and>
     map portal_tag (portals s) = map int [1..<Suc (length (portals s))])"

subsection \<open>Targets (\<open>iSCSITargetService\<close>)\<close>

text \<open>
  \<open>RE_TARGET_NAME.search(name)\<close> for the pattern \<open>^[-a-z0-9\.:]+$\<close>: one character
  of the class or more, then the end of the string or one last newline.
\<close>

definition target_name_char :: "char \<Rightarrow> bool" where
  "target_name_char c =
     (let n = (of_char c :: nat)
      in c = CHR ''-'' \<or> (97 \<le> n \<and> n \<le> 122) \<or> (48 \<le> n \<and> n \<le> 57) \<or> c = CHR ''.'' \<or> c = CHR '':'')"

definition re_target_name_search :: "string \<Rightarrow> bool" where
  "re_target_name_search name =
     (let body = (if name \<noteq> [] \<and> last name = CHR 10 then butlast name else name)
      in body \<noteq> [] \<and> list_all target_name_char body)"

text \<open>\<open>s.lower()\<close> and \<open>s.startswith(p)\<close> on 8-bit characters.\<close>

definition lower_char :: "char \<Rightarrow> char" where
  "lower_char c =
     (let n = (of_char c :: nat)
      in if (65 \<le> n \<and> n \<le> 90) \<or> (192 \<le> n \<and> n \<le> 222 \<and> n \<noteq> 215) then char_of (n + 32) else c)"

definition lower :: "string \<Rightarrow> string" where
  "lower s = map lower_char s"

definition startswith :: "string \<Rightarrow> string \<Rightarrow> bool" where
  "startswith s p = (take (length p) s = p)"

text \<open>The check of one group's \<open>auth\<close> in \<open>__validate\<close>, for the group at index \<open>i\<close>.\<close>

definition group_auth_errors :: "store \<Rightarrow> string \<Rightarrow> nat \<Rightarrow> group \<Rightarrow> verror list" where
  "group_auth_errors s schema i g =
     (if \<not> truthy (g_auth g) \<and> (g_authmethod g = ''CHAP'' \<or> g_authmethod g = ''CHAP_MUTUAL'')
      then [(schema @ ''.groups.'' @ str_nat i @ ''.auth'',
             ''Authentication group is required for CHAP and CHAP Mutual'', EINVAL)]
      else if truthy (g_auth g) \<and> g_authmethod g = ''CHAP_MUTUAL''
      then (case filter (\<lambda>a. Some (auth_tag a) = g_auth g) (auths s) of
              [] \<Rightarrow> [(schema @ ''.groups.'' @ str_nat i @ ''.auth'',
                     ''Authentication group not found'', ENOENT)]
            | a # _ \<Rightarrow>
                (if auth_peeruser a = []
                 then [(schema @ ''.groups.'' @ str_nat i @ ''.auth'',
                        ''Authentication group '' @ str_int (the (g_auth g))
                          @ '' does not support CHAP Mutual'', EINVAL)]
                 else []))
      else [])"

text \<open>
  The loop over the groups of \<open>__validate\<close>: \<open>i\<close> is the index of the group and
  \<open>seen\<close> the list \<open>portals\<close> of the portals accepted so far.
\<close>

fun group_errors ::
  "store \<Rightarrow> string \<Rightarrow> int list \<Rightarrow> int list \<Rightarrow> nat \<Rightarrow> int list \<Rightarrow> group list \<Rightarrow> verror list" where
  "group_errors s schema db_portals db_initiators i seen [] = []"
| "group_errors s schema db_portals db_initiators i seen (g # gs) =
     (if g_portal g \<in> set seen
      then [(schema @ ''.groups.'' @ str_nat i @ ''.portal'',
             ''Portal '' @ str_int (g_portal g) @ '' cannot be duplicated on a target'', EINVAL)]
      else if g_portal g \<notin> set db_portals
      then [(schema @ ''.groups.'' @ str_nat i @ ''.portal'',
             str_int (g_portal g) @ '' Portal not found in database'', EINVAL)]
      else [])
     @ (if truthy (g_initiator g) \<and> the (g_initiator g) \<notin> set db_initiators
        then [(schema @ ''.groups.'' @ str_nat i @ ''.initiator'',
               str_int (the (g_initiator g)) @ '' Initiator not found in database'', EINVAL)]
        else [])
     @ group_auth_errors s schema i g
     @ group_errors s schema db_portals db_initiators (Suc i)
         (if g_portal g \<in> set seen \<or> g_portal g \<notin> set db_portals then seen else seen @ [g_portal g]) gs"

definition target_validate ::
  "env \<Rightarrow> store \<Rightarrow> target \<Rightarrow> string \<Rightarrow> target option \<Rightarrow> verror list" where
  "target_validate e s d schema_name old =
     (if \<not> re_target_name_search (t_name d)
      then [(schema_name @ ''.name'',
             ''Lowercase alphanumeric characters plus dot (.), dash (-), and colon (:) are allowed.'',
             EINVAL)]
      else if filter (\<lambda>t. target_name t = t_name d \<and>
                          (case old of None \<Rightarrow> True | Some od \<Rightarrow> target_id t \<noteq> t_id od)) (targets s) \<noteq> []
      then [(schema_name @ ''.name'', ''Target name already exists'', EINVAL)]
      else [])
     @ (case t_alias d of
          None \<Rightarrow> []
        | Some a \<Rightarrow>
            (if CHR 0x22 \<in> set a then [(schema_name @ ''.alias'', ''Double quotes are not allowed'', EINVAL)]
             else if a = ''target'' then [(schema_name @ ''.alias'', ''target is a reserved word'', EINVAL)]
             else if filter (\<lambda>t. target_alias t = Some a \<and>
                          (case old of None \<Rightarrow> True | Some od \<Rightarrow> target_id t \<noteq> t_id od)) (targets s) \<noteq> []
             then [(schema_name @ ''.alias'', ''Alias already exists'', EINVAL)]
             else []))
     @ (if t_mode d \<noteq> ''ISCSI'' \<and> \<not> fibrechannel e
        then [(schema_name @ ''.mode'', ''Fibre Channel not enabled'', EINVAL)] else [])
     @ (let db_portals = map portal_id
              (filter (\<lambda>p. portal_id p \<in> set (map g_portal (t_groups d))) (portals s));
            db_initiators = map ir_id
              (filter (\<lambda>i. Some (ir_id i) \<in> set (map g_initiator (t_groups d))) (initiator_rows s))
        in group_errors s schema_name db_portals db_initiators 0 [] (t_groups d))"

text \<open>\<open>compress\<close>: the mode in lower case, every group's method under its legacy name.\<close>

definition target_compress :: "target \<Rightarrow> target" where
  "target_compress d =
     d\<lparr> t_mode := lower (t_mode d),
        t_groups := map (\<lambda>g. g\<lparr>g_authmethod := legacy_inv_get (Some (g_authmethod g)) ''NONE''\<rparr>)
                      (t_groups d) \<rparr>"

definition insert_target :: "target_row \<Rightarrow> store \<Rightarrow> int \<times> store" where
  "insert_target r s =
     (let pk = fresh_id (map target_id (targets s))
      in (pk, logged (Insert ''services.iscsitarget'' pk)
                (s\<lparr>targets := targets s @ [r\<lparr>target_id := pk\<rparr>]\<rparr>)))"

definition delete_target :: "int \<Rightarrow> store \<Rightarrow> store" where
  "delete_target pk s =
     logged (Delete ''services.iscsitarget'' pk)
       (s\<lparr>targets := filter (\<lambda>r. target_id r \<noteq> pk) (targets s)\<rparr>)"

definition insert_group :: "int \<Rightarrow> group \<Rightarrow> store \<Rightarrow> int \<times> store" where
  "insert_group pk i s =
     (let k = fresh_id (map group_id (groups s))
      in (k, logged (Insert ''services.iscsitargetgroups'' k)
               (s\<lparr>groups := groups s @
                   [\<lparr>group_id = k, group_target = pk, group_portalgroup = g_portal i,
                     group_initiatorgroup = g_initiator i, group_authtype = g_authmethod i,
                     group_authgroup = g_auth i\<rparr>]\<rparr>)))"

definition delete_group :: "int \<Rightarrow> store \<Rightarrow> store" where
  "delete_group k s =
     logged (Delete ''services.iscsitargetgroups'' k)
       (s\<lparr>groups := filter (\<lambda>r. group_id r \<noteq> k) (groups s)\<rparr>)"

text \<open>
  \<open>__save_groups\<close>: first the loop over \<open>old - new\<close> that looks the row up and deletes
  it when found, then the loop over \<open>new - old\<close> that inserts.
\<close>

fun delete_groups :: "int \<Rightarrow> group list \<Rightarrow> store \<Rightarrow> store" where
  "delete_groups pk [] s = s"
| "delete_groups pk (i # is) s =
     (case filter (\<lambda>r. group_target r = pk \<and> group_portalgroup r = g_portal i \<and>
                       group_initiatorgroup r = g_initiator i \<and> group_authtype r = g_authmethod i \<and>
                       group_authgroup r = g_auth i) (groups s) of
        [] \<Rightarrow> delete_groups pk is s
      | r # _ \<Rightarrow> delete_groups pk is (delete_group (group_id r) s))"

fun insert_groups :: "env \<Rightarrow> int \<Rightarrow> group list \<Rightarrow> store \<Rightarrow> (error + unit) \<times> store" where
  "insert_groups e pk [] s = (Inr (), s)"
| "insert_groups e pk (i # is) s =
     (if group_insert_fails e pk i then (Inl DatastoreError, s)
      else insert_groups e pk is (snd (insert_group pk i s)))"

definition save_groups ::
  "env \<Rightarrow> int \<Rightarrow> group list \<Rightarrow> group list option \<Rightarrow> store \<Rightarrow> (error + unit) \<times> store" where
  "save_groups e pk new old s =
     (let new_set = remdups new;
          old_set = (case old of None \<Rightarrow> [] | Some ol \<Rightarrow> remdups ol)
      in insert_groups e pk (set_diff new_set old_set)
           (delete_groups pk (set_diff old_set new_set) s))"

text \<open>
  \<open>do_create\<close>. When \<open>__save_groups\<close> raises, the row just inserted is deleted and the
  exception raised again. The method returns the refreshed view of the row \<open>pk\<close>; the
  model returns \<open>pk\<close>.
\<close>

definition target_insert_data :: "target \<Rightarrow> target_row" where
  "target_insert_data c =
     \<lparr> target_id = 0, target_name = t_name c, target_alias = t_alias c, target_mode = t_mode c \<rparr>"

definition target_do_create :: "env \<Rightarrow> target \<Rightarrow> store \<Rightarrow> (error + int) \<times> store" where
  "target_do_create e d s =
     (let verrors = target_validate e s d ''iscsi_target_create'' None
      in if verrors \<noteq> [] then (Inl (ValidationErrors verrors), s)
         else
           (let c = target_compress d;
                (pk, s1) = insert_target (target_insert_data c) s
            in case save_groups e pk (t_groups c) None s1 of
                 (Inl err, s2) \<Rightarrow> (Inl err, delete_target pk s2)
               | (Inr _, s2) \<Rightarrow> (Inr pk, service_change ''iscsitarget'' ''reload'' s2)))"

text \<open>
  \<open>active_sessions_for_targets\<close>: the targets of the live sessions that carry the
  qualified name of one of the given targets.
\<close>

definition active_sessions_for_targets :: "env \<Rightarrow> store \<Rightarrow> int list \<Rightarrow> string list" where
  "active_sessions_for_targets e s target_id_list =
     (let check_targets =
            map (\<lambda>t. if startswith (target_name t) ''iqn.'' \<or> startswith (target_name t) ''naa.''
                        \<or> startswith (target_name t) ''eui.''
                      then target_name t else basename e @ '':'' @ target_name t)
              (filter (\<lambda>t. target_id t \<in> set target_id_list) (targets s))
      in filter (\<lambda>x. x \<in> set check_targets) (sessions e))"

subsection \<open>Associations (\<open>iSCSITargetToExtentService\<close>)\<close>

text \<open>
  The LUN that \<open>validate\<close> allocates from the LUNs in use, which the query returns in
  ascending order: 0 for none; otherwise the least number of \<open>[0, lunids[-1]]\<close> not in
  use, or the maximum plus one when there is no such number.
\<close>

definition alloc_lunid :: "int list \<Rightarrow> int" where
  "alloc_lunid lunids =
     (if lunids = [] then 0
      else (let diff = filter (\<lambda>k. k \<notin> set lunids) [0..last lunids]
            in if diff \<noteq> [] then hd diff else fold max (tl lunids) (hd lunids) + 1))"

definition used_lunids :: "store \<Rightarrow> int \<Rightarrow> int list" where
  "used_lunids s tgt = map te_lunid (sort_key te_lunid (filter (\<lambda>r. te_target r = tgt) (assocs s)))"

text \<open>
  \<open>validate\<close>: the data with its LUN filled in, and the errors. \<open>old\<close> is the
  association being updated, if any.
\<close>

definition targetextent_validate ::
  "store \<Rightarrow> targetextent \<Rightarrow> string \<Rightarrow> assoc_row option \<Rightarrow> targetextent \<times> verror list" where
  "targetextent_validate s d schema_name old =
     (let old_lunid = map_option te_lunid old;
          old_target = map_option te_target old;
          lunid = (case a_lunid d of None \<Rightarrow> alloc_lunid (used_lunids s (a_target d)) | Some l \<Rightarrow> l);
          lun_map_size = 16383
      in (d\<lparr>a_lunid := Some lunid\<rparr>,
          (if lunid < 0 \<or> lunid > lun_map_size - 1
           then [(schema_name @ ''.lunid'',
                  ''LUN ID must be a positive integer and lower than '' @ str_int (lun_map_size - 1), EINVAL)]
           else [])
          @ (if old_lunid \<noteq> Some lunid \<and>
                filter (\<lambda>r. te_lunid r = lunid \<and> te_target r = a_target d) (assocs s) \<noteq> []
             then [(schema_name @ ''.lunid'', ''LUN ID is already being used for this target.'', EINVAL)]
             else [])
          @ (if old_target \<noteq> Some (a_target d) \<and>
                filter (\<lambda>r. te_target r = a_target d \<and> te_extent r = a_extent d) (assocs s) \<noteq> []
             then [(schema_name @ ''.target'', ''Extent is already in this target.'', EINVAL)]
             else [])))"

definition insert_assoc :: "assoc_row \<Rightarrow> store \<Rightarrow> int \<times> store" where
  "insert_assoc r s =
     (let pk = fresh_id (map te_id (assocs s))
      in (pk, logged (Insert ''services.iscsitargettoextent'' pk)
                (s\<lparr>assocs := assocs s @ [r\<lparr>te_id := pk\<rparr>]\<rparr>)))"

definition delete_assoc :: "int \<Rightarrow> store \<Rightarrow> store" where
  "delete_assoc pk s =
     logged (Delete ''services.iscsitargettoextent'' pk)
       (s\<lparr>assocs := filter (\<lambda>r. te_id r \<noteq> pk) (assocs s)\<rparr>)"

definition targetextent_do_create :: "targetextent \<Rightarrow> store \<Rightarrow> (error + int) \<times> store" where
  "targetextent_do_create d s =
     (case targetextent_validate s d ''iscsi_targetextent_create'' None of
        (d', verrors) \<Rightarrow>
          if verrors \<noteq> [] then (Inl (ValidationErrors verrors), s)
          else
            (let (pk, s1) = insert_assoc
                    \<lparr> te_id = 0, te_target = a_target d', te_extent = a_extent d',
                      te_lunid = the (a_lunid d') \<rparr> s
             in (Inr pk, service_change ''iscsitarget'' ''reload'' s1)))"

definition targetextent_do_delete :: "env \<Rightarrow> int \<Rightarrow> bool \<Rightarrow> store \<Rightarrow> (error + unit) \<times> store" where
  "targetextent_do_delete e pk force s =
     (case filter (\<lambda>r. te_id r = pk) (assocs s) of
        [] \<Rightarrow> (Inl InstanceNotFound, s)
      | associated_target # _ \<Rightarrow>
          (let active_sessions = active_sessions_for_targets e s [te_target associated_target]
           in if active_sessions \<noteq> [] \<and> \<not> force
              then (Inl (CallError (''Associated target '' @ hd active_sessions @ '' is in use.'')), s)
              else (Inr (), service_change ''iscsitarget'' ''reload'' (delete_assoc pk s))))"

text \<open>A loop of \<open>iscsi.targetextent.delete\<close> calls; the first that raises ends it.\<close>

fun delete_targetextents :: "env \<Rightarrow> bool \<Rightarrow> int list \<Rightarrow> store \<Rightarrow> (error + unit) \<times> store" where
  "delete_targetextents e force [] s = (Inr (), s)"
| "delete_targetextents e force (k # ks) s =
     (case targetextent_do_delete e k force s of
        (Inl err, s1) \<Rightarrow> (Inl err, s1)
      | (Inr _, s1) \<Rightarrow> delete_targetextents e force ks s1)"

text \<open>
  \<open>iSCSITargetService.do_delete\<close>. The call of \<open>scstadmin\<close> when the service runs
  and the messages written to the log leave the store as it is.
\<close>

definition target_do_delete :: "env \<Rightarrow> int \<Rightarrow> bool \<Rightarrow> store \<Rightarrow> (error + unit) \<times> store" where
  "target_do_delete e pk force s =
     (case filter (\<lambda>r. target_id r = pk) (targets s) of
        [] \<Rightarrow> (Inl InstanceNotFound, s)
      | tgt # _ \<Rightarrow>
          if active_sessions_for_targets e s [target_id tgt] \<noteq> [] \<and> \<not> force
          then (Inl (CallError (''Target '' @ target_name tgt @ '' is in use.'')), s)
          else
            (case delete_targetextents e force
                    (map te_id (filter (\<lambda>r. te_target r = pk) (assocs s))) s of
               (Inl err, s1) \<Rightarrow> (Inl err, s1)
             | (Inr _, s1) \<Rightarrow>
                 (let s2 = logged (DeleteWhere ''services.iscsitargetgroups'')
                             (s1\<lparr>groups := filter (\<lambda>g. group_target g \<noteq> pk) (groups s1)\<rparr>);
                      s3 = delete_target pk s2
                  in (Inr (), service_change ''iscsitarget'' ''reload'' s3))))"

text \<open>A target with the LUNs 0, 1 and 3 in use, and a request that leaves the LUN open.\<close>

definition store013 :: store where
  "store013 = store0\<lparr> assocs :=
     [\<lparr>te_id = 1, te_target = 1, te_extent = 1, te_lunid = 0\<rparr>,
      \<lparr>te_id = 2, te_target = 1, te_extent = 2, te_lunid = 3\<rparr>,
      \<lparr>te_id = 3, te_target = 1, te_extent = 3, te_lunid = 1\<rparr>,
      \<lparr>te_id = 4, te_target = 2, te_extent = 1, te_lunid = 2\<rparr>] \<rparr>"

definition assoc_request :: targetextent where
  "assoc_request = \<lparr> a_target = 1, a_lunid = None, a_extent = 4 \<rparr>"

text \<open>
  One portal listening on 0.0.0.0:3260, a target request with one group on it, and
  collaborators whose datastore refuses every insert of a child row.
\<close>

definition store_portal :: store where
  "store_portal = store0\<lparr>
     portals := [\<lparr>portal_id = 1, portal_tag = 1, portal_comment = '''',
                  portal_discoveryauthmethod = ''None'', portal_discoveryauthgroup = None\<rparr>],
     portalips := [\<lparr>portalip_id = 1, portalip_portal = 1, portalip_ip = ''0.0.0.0'',
                    portalip_port = 3260\<rparr>] \<rparr>"

definition target0 :: target where
  "target0 = \<lparr> t_id = 0, t_name = ''disk1'', t_alias = None, t_mode = ''ISCSI'',
     t_groups = [\<lparr>g_portal = 1, g_initiator = None, g_authmethod = ''NONE'', g_auth = None\<rparr>] \<rparr>"

definition env_refusing :: env where
  "env_refusing = env0\<lparr> portalip_insert_fails := (\<lambda>pk i. True),
                         group_insert_fails := (\<lambda>pk g. True) \<rparr>"

subsection \<open>The order of the datastore writes of one call\<close>

text \<open>
  The writes a call added to the log, the kind of a write, and the shape of a sequence
  of writes in which every write of kind \<open>P\<close> comes before every write not of kind \<open>P\<close>.
\<close>

definition new_events :: "store \<Rightarrow> store \<Rightarrow> ds_event list" where
  "new_events s s' = drop (length (ds_log s)) (ds_log s')"

fun is_insert_into :: "string \<Rightarrow> ds_event \<Rightarrow> bool" where
  "is_insert_into tbl (Insert t k) = (t = tbl)"
| "is_insert_into tbl ev = False"

fun is_delete_from :: "string \<Rightarrow> ds_event \<Rightarrow> bool" where
  "is_delete_from tbl (Delete t k) = (t = tbl)"
| "is_delete_from tbl ev = False"

fun is_delete :: "ds_event \<Rightarrow> bool" where
  "is_delete (Delete t k) = True"
| "is_delete ev = False"

fun is_insert :: "ds_event \<Rightarrow> bool" where
  "is_insert (Insert t k) = True"
| "is_insert ev = False"

fun phase :: "(ds_event \<Rightarrow> bool) \<Rightarrow> ds_event list \<Rightarrow> bool" where
  "phase P [] = True"
| "phase P (ev # evs) = (if P ev then phase P evs else list_all (\<lambda>x. \<not> P x) evs)"

text \<open>
  The portal of \<open>store_portal\<close> is updated to listen on 10.0.0.1:3260 instead of
  0.0.0.0:3260; a target with one group on portal 1 gets a group on portal 2 instead.
\<close>

definition store_group :: store where
  "store_group = store_portal\<lparr>
     targets := [\<lparr>target_id = 1, target_name = ''disk1'', target_alias = None, target_mode = ''iscsi''\<rparr>],
     groups := [\<lparr>group_id = 1, group_target = 1, group_portalgroup = 1, group_initiatorgroup = None,
                 group_authtype = ''None'', group_authgroup = None\<rparr>] \<rparr>"

definition group_on :: "int \<Rightarrow> group" where
  "group_on p = \<lparr>g_portal = p, g_initiator = None, g_authmethod = ''None'', g_auth = None\<rparr>"

text \<open>
  Two credentials, the second with a peer user, and a target request whose groups ask for
  CHAP without a credential, for mutual CHAP with the first and for mutual CHAP with the
  second.
\<close>

definition store_auth :: store where
  "store_auth = store_portal\<lparr> auths :=
     [\<lparr>auth_id = 1, auth_tag = 1, auth_user = ''alice'', auth_secret = ''secretsecret'',
       auth_peeruser = '''', auth_peersecret = ''''\<rparr>,
      \<lparr>auth_id = 2, auth_tag = 2, auth_user = ''bob'', auth_secret = ''secretsecret'',
       auth_peeruser = ''carol'', auth_peersecret = ''othersecret12''\<rparr>] \<rparr>"

definition target_chap :: target where
  "target_chap = \<lparr> t_id = 0, t_name = ''disk2'', t_alias = None, t_mode = ''ISCSI'',
     t_groups = [\<lparr>g_portal = 1, g_initiator = None, g_authmethod = ''CHAP'', g_auth = None\<rparr>,
                 \<lparr>g_portal = 1, g_initiator = None, g_authmethod = ''CHAP_MUTUAL'', g_auth = Some 1\<rparr>,
                 \<lparr>g_portal = 1, g_initiator = None, g_authmethod = ''CHAP_MUTUAL'', g_auth = Some 2\<rparr>] \<rparr>"

subsection \<open>Authorized accesses (\<open>iSCSITargetAuthCredentialService\<close>)\<close>

definition auth_get_instance :: "store \<Rightarrow> int \<Rightarrow> error + auth_row" where
  "auth_get_instance s pk =
     (case filter (\<lambda>r. auth_id r = pk) (auths s) of
        [] \<Rightarrow> Inl InstanceNotFound
      | r # _ \<Rightarrow> Inr r)"

text \<open>\<open>validate\<close>: the checks of the secrets.\<close>

definition auth_validate :: "auth_row \<Rightarrow> string \<Rightarrow> verror list" where
  "auth_validate d schema_name =
     (let secret = auth_secret d; peer_secret = auth_peersecret d; peer_user = auth_peeruser d
      in (if peer_user = [] \<and> peer_secret \<noteq> []
          then [(schema_name @ ''.peersecret'', ''The peer user is required if you set a peer secret.'', EINVAL)]
          else [])
         @ (if length secret < 12 \<or> length secret > 16
            then [(schema_name @ ''.secret'', ''Secret must be between 12 and 16 characters.'', EINVAL)]
            else [])
         @ (if peer_user = [] then []
            else if peer_secret = []
            then [(schema_name @ ''.peersecret'', ''The peer secret is required if you set a peer user.'', EINVAL)]
            else if peer_secret = secret
            then [(schema_name @ ''.peersecret'', ''The peer secret cannot be the same as user secret.'', EINVAL)]
            else if length peer_secret < 12 \<or> length peer_secret > 16
            then [(schema_name @ ''.peersecret'', ''Peer Secret must be between 12 and 16 characters.'', EINVAL)]
            else []))"

text \<open>
  The three queries of the usage guard: the other credentials with the tag of \<open>r\<close>, the
  portals whose discovery group is a tag, the target groups whose auth group is a tag.
\<close>

definition others_with_tag :: "store \<Rightarrow> auth_row \<Rightarrow> auth_row list" where
  "others_with_tag s r = filter (\<lambda>c. auth_tag c = auth_tag r \<and> auth_id c \<noteq> auth_id r) (auths s)"

definition portals_using :: "store \<Rightarrow> int \<Rightarrow> portal list" where
  "portals_using s tag =
     filter (\<lambda>p. p_discovery_authgroup p = Some tag) (map (portal_config_extend s) (portals s))"

definition groups_using :: "store \<Rightarrow> int \<Rightarrow> group_row list" where
  "groups_using s tag = filter (\<lambda>g. group_authgroup g = Some tag) (groups s)"

text \<open>
  \<open>is_in_use_by_portals_targets\<close>. With a portal in use the message is built by
  \<open>", ".join(p["id"] for p in portals)\<close> over integers, which raises \<open>TypeError\<close>; for
  the groups the ids are converted with \<open>str\<close> first.
\<close>

definition is_in_use_by_portals_targets :: "store \<Rightarrow> int \<Rightarrow> error + (bool \<times> string)" where
  "is_in_use_by_portals_targets s pk =
     (case auth_get_instance s pk of
        Inl err \<Rightarrow> Inl err
      | Inr config \<Rightarrow>
          if portals_using s (auth_tag config) \<noteq> [] then Inl TypeError
          else
            (let gs = groups_using s (auth_tag config);
                 usages = (if gs \<noteq> []
                           then [''Authorized access of '' @ str_int pk
                                   @ '' is being used by following target(s): ''
                                   @ join '', '' (map (\<lambda>g. str_int (group_target g)) gs)]
                           else [])
             in Inr (usages \<noteq> [], join [CHR 10] usages)))"

definition delete_auth :: "int \<Rightarrow> store \<Rightarrow> store" where
  "delete_auth pk s =
     logged (Delete ''services.iscsitargetauthcredential'' pk)
       (s\<lparr>auths := filter (\<lambda>r. auth_id r \<noteq> pk) (auths s)\<rparr>)"

definition update_auth :: "int \<Rightarrow> auth_row \<Rightarrow> store \<Rightarrow> store" where
  "update_auth pk new s =
     logged (Update ''services.iscsitargetauthcredential'' pk)
       (s\<lparr>auths := map (\<lambda>r. if auth_id r = pk then new else r) (auths s)\<rparr>)"

definition insert_auth :: "auth_row \<Rightarrow> store \<Rightarrow> int \<times> store" where
  "insert_auth r s =
     (let pk = fresh_id (map auth_id (auths s))
      in (pk, logged (Insert ''services.iscsitargetauthcredential'' pk)
                (s\<lparr>auths := auths s @ [r\<lparr>auth_id := pk\<rparr>]\<rparr>)))"

text \<open>\<open>do_create\<close>; the method returns the refreshed row, the model its id.\<close>

definition auth_do_create :: "auth_row \<Rightarrow> store \<Rightarrow> (error + int) \<times> store" where
  "auth_do_create d s =
     (let verrors = auth_validate d ''iscsi_auth_create''
      in if verrors \<noteq> [] then (Inl (ValidationErrors verrors), s)
         else (let (pk, s1) = insert_auth d s
               in (Inr pk, service_change ''iscsitarget'' ''reload'' s1)))"

text \<open>
  \<open>do_delete\<close>: when no other credential has the tag, the credential must not be in
  use. The method ends with the delete; it makes no call of \<open>_service_change\<close>.
\<close>

definition auth_do_delete :: "int \<Rightarrow> store \<Rightarrow> (error + unit) \<times> store" where
  "auth_do_delete pk s =
     (case auth_get_instance s pk of
        Inl err \<Rightarrow> (Inl err, s)
      | Inr config \<Rightarrow>
          if others_with_tag s config = []
          then (case is_in_use_by_portals_targets s pk of
                  Inl err \<Rightarrow> (Inl err, s)
                | Inr (in_use, usages) \<Rightarrow>
                    if in_use then (Inl (CallError usages), s)
                    else (Inr (), delete_auth pk s))
          else (Inr (), delete_auth pk s))"

text \<open>
  The attributes an update may give, and \<open>new = old.copy(); new.update(data)\<close>.
\<close>

record auth_patch =
  ap_tag :: "int option"
  ap_user :: "string option"
  ap_secret :: "string option"
  ap_peeruser :: "string option"
  ap_peersecret :: "string option"

definition auth_merge :: "auth_row \<Rightarrow> auth_patch \<Rightarrow> auth_row" where
  "auth_merge old data =
     \<lparr> auth_id = auth_id old,
       auth_tag = (case ap_tag data of None \<Rightarrow> auth_tag old | Some v \<Rightarrow> v),
       auth_user = (case ap_user data of None \<Rightarrow> auth_user old | Some v \<Rightarrow> v),
       auth_secret = (case ap_secret data of None \<Rightarrow> auth_secret old | Some v \<Rightarrow> v),
       auth_peeruser = (case ap_peeruser data of None \<Rightarrow> auth_peeruser old | Some v \<Rightarrow> v),
       auth_peersecret = (case ap_peersecret data of None \<Rightarrow> auth_peersecret old | Some v \<Rightarrow> v) \<rparr>"

text \<open>
  \<open>do_update\<close>: a change of the tag, when no other credential has the old tag, adds
  the usages as an error on \<open>tag\<close>.
\<close>

definition auth_do_update :: "int \<Rightarrow> auth_patch \<Rightarrow> store \<Rightarrow> (error + int) \<times> store" where
  "auth_do_update pk data s =
     (case auth_get_instance s pk of
        Inl err \<Rightarrow> (Inl err, s)
      | Inr old \<Rightarrow>
          (let new = auth_merge old data;
               verrors = auth_validate new ''iscsi_auth_update''
           in case (if auth_tag new \<noteq> auth_tag old \<and> others_with_tag s old = []
                    then (case is_in_use_by_portals_targets s pk of
                            Inl err \<Rightarrow> Inl err
                          | Inr (in_use, usages) \<Rightarrow>
                              Inr (verrors @ (if in_use then [(''iscsi_auth_update.tag'', usages, EINVAL)]
                                              else [])))
                    else Inr verrors) of
                Inl err \<Rightarrow> (Inl err, s)
              | Inr verrors' \<Rightarrow>
                  if verrors' \<noteq> [] then (Inl (ValidationErrors verrors'), s)
                  else (Inr pk, service_change ''iscsitarget'' ''reload'' (update_auth pk new s))))"

text \<open>
  Two credentials with the tag 1, one with the tag 2 and one with the tag 3; a target
  group uses the tag 1, another the tag 2, none the tag 3.
\<close>

definition store_creds :: store where
  "store_creds = store_group\<lparr>
     auths :=
       [\<lparr>auth_id = 1, auth_tag = 1, auth_user = ''alice'', auth_secret = ''secretsecret'',
         auth_peeruser = '''', auth_peersecret = ''''\<rparr>,
        \<lparr>auth_id = 2, auth_tag = 1, auth_user = ''bob'', auth_secret = ''secretsecret'',
         auth_peeruser = '''', auth_peersecret = ''''\<rparr>,
        \<lparr>auth_id = 3, auth_tag = 2, auth_user = ''carol'', auth_secret = ''secretsecret'',
         auth_peeruser = '''', auth_peersecret = ''''\<rparr>,
        \<lparr>auth_id = 4, auth_tag = 3, auth_user = ''dave'', auth_secret = ''secretsecret'',
         auth_peeruser = '''', auth_peersecret = ''''\<rparr>],
     groups :=
       [\<lparr>group_id = 1, group_target = 1, group_portalgroup = 1, group_initiatorgroup = None,
         group_authtype = ''CHAP'', group_authgroup = Some 1\<rparr>,
        \<lparr>group_id = 2, group_target = 2, group_portalgroup = 1, group_initiatorgroup = None,
         group_authtype = ''CHAP'', group_authgroup = Some 2\<rparr>] \<rparr>"

subsection \<open>Extents (\<open>iSCSITargetExtentService\<close>)\<close>

text \<open>
  \<open>extent_serial\<close>: the loop \<open>for i in range(tries)\<close> over the indices still to try;
  \<open>rnd i\<close> is what the \<open>i\<close>-th call of \<open>secrets.token_hex()\<close> returns and \<open>serial\<close>
  the value of the variable when the loop is entered.
\<close>

fun serial_loop ::
  "(nat \<Rightarrow> string) \<Rightarrow> string list \<Rightarrow> nat \<Rightarrow> nat list \<Rightarrow> string option \<Rightarrow> error + string option" where
  "serial_loop rnd used_serials tries [] serial = Inr serial"
| "serial_loop rnd used_serials tries (i # is) serial =
     (let serial' = take 15 (rnd i)
      in if serial' \<notin> set used_serials then Inr (Some serial')
         else if i < tries - 1 then serial_loop rnd used_serials tries is (Some serial')
         else Inl (CallError ''Failed to generate a random extent serial''))"

definition extent_serial :: "env \<Rightarrow> store \<Rightarrow> string option \<Rightarrow> error + string option" where
  "extent_serial e s serial =
     (case serial of
        None \<Rightarrow> serial_loop (token_hex e) (map extent_row_serial (extents s)) 5 [0..<5] None
      | Some x \<Rightarrow> Inr (Some x))"

definition extent_naa :: "env \<Rightarrow> string option \<Rightarrow> string" where
  "extent_naa e naa =
     (case naa of None \<Rightarrow> ''0x6589cfc000000'' @ take 19 (uuid_sha256 e) | Some n \<Rightarrow> n)"

definition extent_validate :: "env \<Rightarrow> store \<Rightarrow> extent \<Rightarrow> error + extent" where
  "extent_validate e s d =
     (case extent_serial e s (e_serial d) of
        Inl err \<Rightarrow> Inl err
      | Inr serial \<Rightarrow> Inr (d\<lparr>e_serial := serial, e_naa := Some (extent_naa e (e_naa d))\<rparr>))"

text \<open>A string is true when it is neither \<open>None\<close> nor empty.\<close>

definition truthy_str :: "string option \<Rightarrow> bool" where
  "truthy_str v = (case v of None \<Rightarrow> False | Some x \<Rightarrow> x \<noteq> [])"

text \<open>
  \<open>repr\<close> of a string of 8-bit characters: between double quotes when the string has
  an apostrophe and no double quote, between apostrophes otherwise; the enclosing quote
  and the backslash are escaped, tab, newline and carriage return are written
  \<open>\t\<close>, \<open>\n\<close>, \<open>\r\<close>, and every other character that is not printable (below 32,
  127 to 160, 173) is written \<open>\xNN\<close>.
\<close>

definition hex_digit :: "nat \<Rightarrow> char" where
  "hex_digit n = ''0123456789abcdef'' ! (n mod 16)"

definition repr_char :: "char \<Rightarrow> char \<Rightarrow> string" where
  "repr_char q c =
     (let n = (of_char c :: nat)
      in if c = q \<or> c = CHR 0x5C then [CHR 0x5C, c]
         else if n = 9 then [CHR 0x5C, CHR ''t'']
         else if n = 10 then [CHR 0x5C, CHR ''n'']
         else if n = 13 then [CHR 0x5C, CHR ''r'']
         else if n < 32 \<or> (127 \<le> n \<and> n \<le> 160) \<or> n = 173
         then [CHR 0x5C, CHR ''x'', hex_digit (n div 16), hex_digit (n mod 16)]
         else [c])"

definition repr :: "string \<Rightarrow> string" where
  "repr x =
     (let q = (if CHR 39 \<in> set x \<and> CHR 0x22 \<notin> set x then CHR 0x22 else CHR 39)
      in [q] @ concat (map (repr_char q) x) @ [q])"

text \<open>
  \<open>float(n)\<close> for an integer below \<open>2 ^ 1024\<close> in absolute value: the nearest
  number with 53 significant bits, a tie going to the even one. \<open>excess_bits n\<close> is
  the number of low bits that do not fit.
\<close>

function excess_bits :: "nat \<Rightarrow> nat" where
  "excess_bits n = (if n < 2 ^ 53 then 0 else Suc (excess_bits (n div 2)))"
  by pat_completeness auto
termination
  by (relation "measure id") auto

declare excess_bits.simps [simp del]

definition float_of_nat :: "nat \<Rightarrow> nat" where
  "float_of_nat n =
     (let k = excess_bits n
      in if k = 0 then n
         else (let q = n div 2 ^ k; r = n mod 2 ^ k; half = 2 ^ (k - 1)
               in (if r > half \<or> (r = half \<and> odd q) then q + 1 else q) * 2 ^ k))"

definition float_of_int :: "int \<Rightarrow> int" where
  "float_of_int i = (if i < 0 then - int (float_of_nat (nat (- i))) else int (float_of_nat (nat i)))"

text \<open>
  \<open>clean_name\<close>, \<open>clean_type_and_path\<close> (which raises the errors collected so far at
  once when the disk or the path is missing) and \<open>clean_size\<close>, where
  \<open>float(size) % blocksize\<close> is not zero exactly when the remainder of the two
  floats, which are whole numbers, is not (the block size is one of 512, 1024, 2048,
  4096).
\<close>

definition clean_name :: "store \<Rightarrow> extent \<Rightarrow> string \<Rightarrow> string \<Rightarrow> string option \<Rightarrow> verror list" where
  "clean_name s d serial schema_name old =
     (if CHR 0x22 \<in> set (e_name d)
      then [(schema_name @ ''.name'', ''Double quotes are not allowed'', EINVAL)] else [])
     @ (if CHR 0x22 \<in> set serial
        then [(schema_name @ ''.serial'', ''Double quotes are not allowed'', EINVAL)] else [])
     @ (if length serial > 20
        then [(schema_name @ ''.serial'', ''Extent serial can not exceed 20 characters'', EINVAL)] else [])
     @ (if Some (e_name d) \<noteq> old \<and> filter (\<lambda>r. extent_name r = e_name d) (extents s) \<noteq> []
        then [(schema_name @ ''.name'', ''Extent name must be unique'', EINVAL)] else [])"

definition clean_type_and_path :: "env \<Rightarrow> extent \<Rightarrow> string \<Rightarrow> verror list \<Rightarrow> error + verror list" where
  "clean_type_and_path e d schema_name verrors =
     (if e_type d = None then Inr verrors
      else if e_type d = Some ''DISK'' then
        (if \<not> truthy_str (e_disk d)
         then Inl (ValidationErrors (verrors @ [(schema_name @ ''.disk'', ''This field is required'', EINVAL)]))
         else if \<not> startswith (the (e_disk d)) ''zvol/''
         then Inl (ValidationErrors (verrors @
                [(schema_name @ ''.disk'', ''Disk name must start with '' @ [CHR 0x22] @ ''zvol/'' @ [CHR 0x22],
                  EINVAL)]))
         else
           (let device = ''/dev/'' @ the (e_disk d);
                zvol_name = zvol_path_to_name e device
            in Inr (verrors
                 @ (if \<not> dataset_exists e zvol_name
                    then [(schema_name @ ''.disk'', ''Volume '' @ repr zvol_name @ '' does not exist'', EINVAL)]
                    else [])
                 @ (if \<not> path_exists e device
                    then [(schema_name @ ''.disk'',
                           ''Device '' @ repr device @ '' for volume '' @ repr zvol_name @ '' does not exist'',
                           EINVAL)]
                    else []))))
      else if e_type d = Some ''FILE'' then
        (if \<not> truthy_str (e_path d)
         then Inl (ValidationErrors (verrors @ [(schema_name @ ''.path'', ''This field is required'', EINVAL)]))
         else
           (let path = the (e_path d)
            in Inr (verrors
                 @ (if path_exists e path \<and> (\<not> path_isfile e path \<or> last path = CHR ''/'')
                    then [(schema_name @ ''.path'', ''You need to specify a filepath not a directory'', EINVAL)]
                    else [])
                 @ path_volume_errors e (schema_name @ ''.path'') path)))
      else Inr verrors)"

definition clean_size :: "env \<Rightarrow> extent \<Rightarrow> string \<Rightarrow> verror list" where
  "clean_size e d schema_name =
     (if e_type d \<noteq> Some ''FILE'' then []
      else if \<not> truthy_str (e_path d)
      then [(schema_name @ ''.path'', ''This field is required'', EINVAL)]
      else if e_filesize d = 0
      then (if \<not> path_exists e (the (e_path d)) \<or> \<not> path_isfile e (the (e_path d))
            then [(schema_name @ ''.path'',
                   ''The file must exist if the extent size is set to auto (0)'', EINVAL)]
            else [])
      else if float_of_int (e_filesize d) mod float_of_int (e_blocksize d) \<noteq> 0
      then [(schema_name @ ''.filesize'',
             ''File size ('' @ str_int (e_filesize d) @ '') must be a multiple of block size (''
               @ str_int (e_blocksize d) @ '')'', EINVAL)]
      else [])"

definition extent_clean ::
  "env \<Rightarrow> store \<Rightarrow> extent \<Rightarrow> string \<Rightarrow> string \<Rightarrow> string option \<Rightarrow> error + verror list" where
  "extent_clean e s d serial schema_name old =
     (case clean_type_and_path e d schema_name (clean_name s d serial schema_name old) of
        Inl err \<Rightarrow> Inl err
      | Inr verrors \<Rightarrow> Inr (verrors @ clean_size e d schema_name))"

text \<open>
  \<open>save\<close>: for a file the directories and the file are made, which may fail; otherwise
  the disk becomes the path. \<open>dirs\<close> is the path up to its last slash. A file extent
  without a path does not get here (\<open>clean_type_and_path\<close> has raised); \<open>path.split\<close>
  would raise on it.
\<close>

definition dirs_of :: "string \<Rightarrow> string" where
  "dirs_of path = rev (tl (dropWhile (\<lambda>c. c \<noteq> CHR ''/'') (rev path)))"

definition extent_save :: "env \<Rightarrow> extent \<Rightarrow> error + extent" where
  "extent_save e d =
     (if e_type d = Some ''FILE'' then
        (case e_path d of
           None \<Rightarrow> Inl TypeError
         | Some path \<Rightarrow>
             (case mkdir_error e (dirs_of path) of
                Some msg \<Rightarrow> Inl (CallError (''Failed to create '' @ dirs_of path @ '' with error: '' @ msg))
              | None \<Rightarrow>
                  if \<not> path_exists e path \<and> truncate_fails e path then Inl ProcessError
                  else Inr (d\<lparr>e_disk := None\<rparr>)))
      else Inr (d\<lparr>e_path := e_disk d, e_disk := None\<rparr>))"

definition insert_extent :: "extent_row \<Rightarrow> store \<Rightarrow> int \<times> store" where
  "insert_extent r s =
     (let pk = fresh_id (map extent_id (extents s))
      in (pk, logged (Insert ''services.iscsitargetextent'' pk)
                (s\<lparr>extents := extents s @ [r\<lparr>extent_id := pk\<rparr>]\<rparr>)))"

definition delete_extent :: "int \<Rightarrow> store \<Rightarrow> store" where
  "delete_extent pk s =
     logged (Delete ''services.iscsitargetextent'' pk)
       (s\<lparr>extents := filter (\<lambda>r. extent_id r \<noteq> pk) (extents s)\<rparr>)"

definition update_extent :: "int \<Rightarrow> extent_row \<Rightarrow> store \<Rightarrow> store" where
  "update_extent pk new s =
     logged (Update ''services.iscsitargetextent'' pk)
       (s\<lparr>extents := map (\<lambda>r. if extent_id r = pk then new else r) (extents s)\<rparr>)"

text \<open>The columns written for the data after \<open>save\<close>; \<open>vendor\<close> is the stored vendor.\<close>

definition extent_columns :: "extent \<Rightarrow> string \<Rightarrow> string option \<Rightarrow> extent_row" where
  "extent_columns d serial vendor =
     \<lparr> extent_id = 0, extent_name = e_name d, extent_row_serial = serial, extent_type = e_type d,
       extent_path = e_path d, extent_filesize = e_filesize d, extent_blocksize = e_blocksize d,
       extent_comment = e_comment d, extent_row_naa = (case e_naa d of None \<Rightarrow> [] | Some n \<Rightarrow> n), extent_vendor = vendor,
       extent_opts = e_opts d \<rparr>"

text \<open>
  \<open>do_create\<close>: \<open>validate\<close>, \<open>clean\<close>, \<open>verrors.check()\<close>, \<open>save\<close>, then the
  insert with the vendor \<open>TrueNAS\<close>, and the return of the refreshed row (the model
  returns its id). The method makes no call of \<open>_service_change\<close>. A serial that is
  still \<open>None\<close> after \<open>validate\<close> (the loop never leaves it so) would raise in
  \<open>clean_name\<close>.
\<close>

definition extent_do_create :: "env \<Rightarrow> extent \<Rightarrow> store \<Rightarrow> (error + int) \<times> store" where
  "extent_do_create e d s =
     (case extent_validate e s d of
        Inl err \<Rightarrow> (Inl err, s)
      | Inr d1 \<Rightarrow>
          (case e_serial d1 of
             None \<Rightarrow> (Inl TypeError, s)
           | Some serial \<Rightarrow>
               (case extent_clean e s d1 serial ''iscsi_extent_create'' None of
                  Inl err \<Rightarrow> (Inl err, s)
                | Inr verrors \<Rightarrow>
                    if verrors \<noteq> [] then (Inl (ValidationErrors verrors), s)
                    else
                      (case extent_save e d1 of
                         Inl err \<Rightarrow> (Inl err, s)
                       | Inr d2 \<Rightarrow>
                           (let (pk, s1) = insert_extent (extent_columns d2 serial (Some ''TrueNAS'')) s
                            in (Inr pk, s1))))))"

text \<open>
  \<open>extend\<close>, applied to a row that is read: a disk extent shows its path as \<open>disk\<close>.
  The attributes an update may give (\<open>None\<close> for an attribute that is not given), and
  \<open>new = old.copy(); new.update(data)\<close>.
\<close>

definition extent_extend :: "extent_row \<Rightarrow> extent" where
  "extent_extend r =
     \<lparr> e_name = extent_name r, e_type = extent_type r,
       e_disk = (if extent_type r = Some ''DISK'' then extent_path r else None),
       e_serial = Some (extent_row_serial r), e_path = extent_path r, e_filesize = extent_filesize r,
       e_blocksize = extent_blocksize r, e_comment = extent_comment r, e_naa = Some (extent_row_naa r),
       e_opts = extent_opts r \<rparr>"

record extent_patch =
  xp_name :: "string option"
  xp_type :: "string option"
  xp_disk :: "string option option"
  xp_serial :: "string option option"
  xp_path :: "string option option"
  xp_filesize :: "int option"
  xp_blocksize :: "int option"
  xp_comment :: "string option"
  xp_opts :: "extent_options option"

definition extent_merge :: "extent \<Rightarrow> extent_patch \<Rightarrow> extent" where
  "extent_merge old data =
     \<lparr> e_name = (case xp_name data of None \<Rightarrow> e_name old | Some v \<Rightarrow> v),
       e_type = (case xp_type data of None \<Rightarrow> e_type old | Some v \<Rightarrow> Some v),
       e_disk = (case xp_disk data of None \<Rightarrow> e_disk old | Some v \<Rightarrow> v),
       e_serial = (case xp_serial data of None \<Rightarrow> e_serial old | Some v \<Rightarrow> v),
       e_path = (case xp_path data of None \<Rightarrow> e_path old | Some v \<Rightarrow> v),
       e_filesize = (case xp_filesize data of None \<Rightarrow> e_filesize old | Some v \<Rightarrow> v),
       e_blocksize = (case xp_blocksize data of None \<Rightarrow> e_blocksize old | Some v \<Rightarrow> v),
       e_comment = (case xp_comment data of None \<Rightarrow> e_comment old | Some v \<Rightarrow> v),
       e_naa = e_naa old,
       e_opts = (case xp_opts data of None \<Rightarrow> e_opts old | Some v \<Rightarrow> v) \<rparr>"

text \<open>\<open>do_update\<close>, which ends with \<open>_service_change\<close>.\<close>

definition extent_do_update :: "env \<Rightarrow> int \<Rightarrow> extent_patch \<Rightarrow> store \<Rightarrow> (error + int) \<times> store" where
  "extent_do_update e pk data s =
     (case filter (\<lambda>r. extent_id r = pk) (extents s) of
        [] \<Rightarrow> (Inl InstanceNotFound, s)
      | r # _ \<Rightarrow>
          (let old = extent_extend r; new = extent_merge old data
           in case extent_validate e s new of
                Inl err \<Rightarrow> (Inl err, s)
              | Inr d1 \<Rightarrow>
                  (case e_serial d1 of
                     None \<Rightarrow> (Inl TypeError, s)
                   | Some serial \<Rightarrow>
                       (case extent_clean e s d1 serial ''iscsi_extent_update'' (Some (e_name old)) of
                          Inl err \<Rightarrow> (Inl err, s)
                        | Inr verrors \<Rightarrow>
                            if verrors \<noteq> [] then (Inl (ValidationErrors verrors), s)
                            else
                              (case extent_save e d1 of
                                 Inl err \<Rightarrow> (Inl err, s)
                               | Inr d2 \<Rightarrow>
                                   (Inr pk, service_change ''iscsitarget'' ''reload''
                                      (update_extent pk
                                         ((extent_columns d2 serial (extent_vendor r))\<lparr>extent_id := pk\<rparr>)
                                         s)))))))"

text \<open>
  \<open>do_delete\<close>: refused when a target of the extent has a live session, unless forced;
  then the file is removed if asked for (\<open>remove_extent_file\<close> returns the exception
  of a failed \<open>os.unlink\<close>, also of one without a path, and the call is then refused),
  every association of the extent is deleted through \<open>iscsi.targetextent.delete\<close>, the
  row is deleted and the service told. No target is touched.
\<close>

definition extent_do_delete ::
  "env \<Rightarrow> int \<Rightarrow> bool \<Rightarrow> bool \<Rightarrow> store \<Rightarrow> (error + unit) \<times> store" where
  "extent_do_delete e pk remove force s =
     (case filter (\<lambda>r. extent_id r = pk) (extents s) of
        [] \<Rightarrow> (Inl InstanceNotFound, s)
      | r # _ \<Rightarrow>
          (let target_to_extents = filter (\<lambda>t. te_extent t = pk) (assocs s);
               active_sessions = active_sessions_for_targets e s (map te_target target_to_extents)
           in if active_sessions \<noteq> [] \<and> \<not> force
              then (Inl (CallError (''Associated target(s) '' @ join '','' active_sessions @ '' ''
                      @ (if length active_sessions = 1 then ''is'' else ''are'') @ '' in use.'')), s)
              else if remove \<and> extent_type r = Some ''FILE''
                      \<and> (case extent_path r of None \<Rightarrow> True | Some path \<Rightarrow> unlink_fails e path)
              then (Inl (CallError ''Failed to remove extent file''), s)
              else
                (case delete_targetextents e force (map te_id target_to_extents) s of
                   (Inl err, s1) \<Rightarrow> (Inl err, s1)
                 | (Inr _, s1) \<Rightarrow>
                     (Inr (), service_change ''iscsitarget'' ''reload'' (delete_extent pk s1)))))"

subsection \<open>The attachment delegate (\<open>ISCSIFSAttachmentDelegate.delete\<close>)\<close>

text \<open>
  For every attached extent its associations are deleted, their targets remembered, and
  the extent deleted. The remembered targets that have no association left are then
  deleted with \<open>force\<close>, and the service is told. The set of remembered targets is a
  list without repetitions.
\<close>

fun detach :: "extent_row list \<Rightarrow> int list \<Rightarrow> store \<Rightarrow> int list \<times> store" where
  "detach [] orphan_targets_ids s = (orphan_targets_ids, s)"
| "detach (attachment # attachments) orphan_targets_ids s =
     (let tes = filter (\<lambda>t. te_extent t = extent_id attachment) (assocs s);
          s1 = fold (\<lambda>t. delete_assoc (te_id t)) tes s
      in detach attachments (fold (\<lambda>t. List.insert (te_target t)) tes orphan_targets_ids)
           (delete_extent (extent_id attachment) s1))"

fun delete_targets :: "env \<Rightarrow> int list \<Rightarrow> store \<Rightarrow> (error + unit) \<times> store" where
  "delete_targets e [] s = (Inr (), s)"
| "delete_targets e (t # ts) s =
     (case target_do_delete e t True s of
        (Inl err, s1) \<Rightarrow> (Inl err, s1)
      | (Inr _, s1) \<Rightarrow> delete_targets e ts s1)"

definition delegate_delete :: "env \<Rightarrow> extent_row list \<Rightarrow> store \<Rightarrow> (error + unit) \<times> store" where
  "delegate_delete e attachments s =
     (case detach attachments [] s of
        (orphan_targets_ids, s1) \<Rightarrow>
          (let still_used = map te_target (filter (\<lambda>t. te_target t \<in> set orphan_targets_ids) (assocs s1))
           in case delete_targets e (filter (\<lambda>t. t \<notin> set still_used) orphan_targets_ids) s1 of
                (Inl err, s2) \<Rightarrow> (Inl err, s2)
              | (Inr _, s2) \<Rightarrow> (Inr (), service_change ''iscsitarget'' ''reload'' s2)))"

text \<open>A hexadecimal digit as \<open>secrets.token_hex\<close> writes it.\<close>

definition is_hex :: "char \<Rightarrow> bool" where
  "is_hex c = (c \<in> set ''0123456789abcdef'')"

text \<open>
  A disk extent request without a serial, and a store with one extent whose serial is the
  one that every call of \<open>token_hex\<close> of \<open>env0\<close> leads to.
\<close>

definition extent0 :: extent where
  "extent0 = \<lparr> e_name = ''vol1'', e_type = Some ''DISK'', e_disk = Some ''zvol/tank/vol1'',
     e_serial = None, e_path = None, e_filesize = 0, e_blocksize = 512, e_comment = '''',
     e_naa = None,
     e_opts = \<lparr>pblocksize = False, avail_threshold = None, insecure_tpc = True, xen = False,
               rpm = ''SSD'', ro = False, enabled = True\<rparr> \<rparr>"

definition store_extent :: store where
  "store_extent = store_group\<lparr>
     extents := [\<lparr>extent_id = 1, extent_name = ''vol0'', extent_row_serial = ''0123456789abcde'',
                  extent_type = Some ''DISK'', extent_path = Some ''zvol/tank/vol0'',
                  extent_filesize = 0, extent_blocksize = 512, extent_comment = '''',
                  extent_row_naa = ''0x6589cfc000000e3b0c44298fc1c149afb'',
                  extent_vendor = Some ''TrueNAS'', extent_opts = e_opts extent0\<rparr>],
     assocs := [\<lparr>te_id = 1, te_target = 1, te_extent = 1, te_lunid = 0\<rparr>] \<rparr>"

definition env_fifth :: env where
  "env_fifth = env0\<lparr> token_hex :=
     (\<lambda>n. if n = 4 then ''fedcba9876543210fedcba9876543210fedcba9876543210fedcba9876543210''
           else ''0123456789abcdef0123456789abcdef0123456789abcdef0123456789abcdef'') \<rparr>"

text \<open>An update that sends the serial as null, and one that does not send a serial.\<close>

definition serial_null :: extent_patch where
  "serial_null = \<lparr>xp_name = None, xp_type = None, xp_disk = None, xp_serial = Some None,
     xp_path = None, xp_filesize = None, xp_blocksize = None, xp_comment = None, xp_opts = None\<rparr>"

definition serial_absent :: extent_patch where
  "serial_absent = \<lparr>xp_name = None, xp_type = None, xp_disk = None, xp_serial = None,
     xp_path = None, xp_filesize = None, xp_blocksize = None, xp_comment = None, xp_opts = None\<rparr>"

subsection \<open>Initiators (\<open>iSCSITargetAuthorizedInitiator\<close>): create, update, delete\<close>

definition insert_initiator :: "initiator_row \<Rightarrow> store \<Rightarrow> int \<times> store" where
  "insert_initiator r s =
     (let pk = fresh_id (map ir_id (initiator_rows s))
      in (pk, logged (Insert ''services.iscsitargetauthorizedinitiator'' pk)
                (s\<lparr>initiator_rows := initiator_rows s @ [r\<lparr>ir_id := pk\<rparr>]\<rparr>)))"

definition initiator_do_create :: "initiator \<Rightarrow> store \<Rightarrow> (error + int) \<times> store" where
  "initiator_do_create d s =
     (let (pk, s1) = insert_initiator (initiator_compress d) s
      in (Inr pk, service_change ''iscsitarget'' ''reload'' s1))"

record initiator_patch =
  ip_initiators :: "string list option"
  ip_auth_network :: "string list option"
  ip_comment :: "string option"

definition initiator_merge :: "initiator \<Rightarrow> initiator_patch \<Rightarrow> initiator" where
  "initiator_merge old data =
     \<lparr> init_id = init_id old,
       initiators = (case ip_initiators data of None \<Rightarrow> initiators old | Some v \<Rightarrow> v),
       auth_network = (case ip_auth_network data of None \<Rightarrow> auth_network old | Some v \<Rightarrow> v),
       init_comment = (case ip_comment data of None \<Rightarrow> init_comment old | Some v \<Rightarrow> v) \<rparr>"

definition initiator_do_update :: "int \<Rightarrow> initiator_patch \<Rightarrow> store \<Rightarrow> (error + int) \<times> store" where
  "initiator_do_update pk data s =
     (case filter (\<lambda>r. ir_id r = pk) (initiator_rows s) of
        [] \<Rightarrow> (Inl InstanceNotFound, s)
      | r # _ \<Rightarrow>
          (let new = initiator_compress (initiator_merge (initiator_extend r) data)
           in (Inr pk, service_change ''iscsitarget'' ''reload''
                 (logged (Update ''services.iscsitargetauthorizedinitiator'' pk)
                    (s\<lparr>initiator_rows :=
                         map (\<lambda>x. if ir_id x = pk then new else x) (initiator_rows s)\<rparr>)))))"

definition initiator_do_delete :: "int \<Rightarrow> store \<Rightarrow> (error + unit) \<times> store" where
  "initiator_do_delete pk s =
     (case filter (\<lambda>r. ir_id r = pk) (initiator_rows s) of
        [] \<Rightarrow> (Inl InstanceNotFound, s)
      | r # _ \<Rightarrow>
          (Inr (), service_change ''iscsitarget'' ''reload''
             (logged (Delete ''services.iscsitargetauthorizedinitiator'' pk)
                (s\<lparr>initiator_rows := filter (\<lambda>x. ir_id x \<noteq> pk) (initiator_rows s)\<rparr>))))"

text \<open>The last thing a call did was to tell the service to reload.\<close>

definition ends_with_reload :: "store \<Rightarrow> bool" where
  "ends_with_reload s =
     (service_calls s \<noteq> [] \<and> last (service_calls s) = (''iscsitarget'', ''reload''))"

section \<open>Properties\<close>

subsection \<open>Joining and splitting names\<close>

lemma split_run_word:
  "list_all (\<lambda>c. \<not> isspace c) w \<Longrightarrow> split_run cur (w @ r) = split_run (cur @ w) r"
  by (induction w arbitrary: cur) auto

lemma isspace_newline: "isspace (CHR 10)"
  by (simp add: isspace_def)

lemma split_run_join_Cons:
  "plain_name x \<Longrightarrow> list_all plain_name xs \<Longrightarrow>
   split_run [] (join [CHR 10] (x # xs)) = x # xs"
proof (induction xs arbitrary: x)
  case Nil
  then have "split_run [] (x @ []) = split_run ([] @ x) []"
    by (intro split_run_word) (simp add: plain_name_def)
  with Nil show ?case by (simp add: plain_name_def)
next
  case (Cons y ys)
  then have w: "list_all (\<lambda>c. \<not> isspace c) x" and ne: "x \<noteq> []"
    by (simp_all add: plain_name_def)
  have "split_run [] (x @ CHR 10 # join [CHR 10] (y # ys))
        = split_run ([] @ x) (CHR 10 # join [CHR 10] (y # ys))"
    using w by (rule split_run_word)
  also have "\<dots> = x # split_run [] (join [CHR 10] (y # ys))"
    using ne by (simp add: isspace_newline)
  also have "\<dots> = x # y # ys"
    using Cons by simp
  finally show ?case by simp
qed

lemma split_run_join:
  "list_all plain_name xs \<Longrightarrow> xs \<noteq> [] \<Longrightarrow> split_run [] (join [CHR 10] xs) = xs"
  by (cases xs) (simp_all add: split_run_join_Cons)

lemma join_plain_no_ALL:
  assumes "list_all plain_name xs" "xs \<noteq> []" "xs \<noteq> [''ALL'']"
  shows "join [CHR 10] xs \<noteq> ''ALL''"
proof (cases xs)
  case Nil
  with assms show ?thesis by simp
next
  case (Cons x ys)
  show ?thesis
  proof (cases ys)
    case Nil
    with Cons assms show ?thesis by simp
  next
    case (Cons y zs)
    with \<open>xs = x # ys\<close> have "CHR 10 \<in> set (join [CHR 10] xs)" by simp
    moreover have "CHR 10 \<notin> set ''ALL''" by simp
    ultimately show ?thesis by metis
  qed
qed

lemma roundtrip_field:
  assumes "list_all plain_name xs" "xs \<noteq> [''ALL'']"
  shows "(let s = (if xs = [] then ''ALL'' else join [CHR 10] xs)
          in if s = ''ALL'' then [] else split s) = xs"
proof (cases "xs = []")
  case True
  then show ?thesis by simp
next
  case False
  with assms have "join [CHR 10] xs \<noteq> ''ALL''" by (intro join_plain_no_ALL)
  moreover from assms False have "split (join [CHR 10] xs) = xs"
    by (simp add: split_def split_run_join)
  ultimately show ?thesis using False by simp
qed

text \<open>
  C10. Reading back what \<open>compress\<close> stored gives the input again whenever both lists hold
  only names that are not empty and have no white space, and neither list is \<open>['ALL']\<close>;
  two empty lists are stored as \<open>ALL\<close> and read back empty. The list \<open>['ALL']\<close> is read
  back as the empty list, and a name with a blank in it is read back as two names.
\<close>

theorem initiator_roundtrip:
  "(list_all plain_name (initiators d) \<and> initiators d \<noteq> [''ALL''] \<and>
    list_all plain_name (auth_network d) \<and> auth_network d \<noteq> [''ALL'']
      \<longrightarrow> initiator_extend (initiator_compress d) = d)
   \<and> ir_initiators (initiator_compress (d\<lparr>initiators := [], auth_network := []\<rparr>)) = ''ALL''
   \<and> ir_auth_network (initiator_compress (d\<lparr>initiators := [], auth_network := []\<rparr>)) = ''ALL''
   \<and> initiator_extend (initiator_compress (d\<lparr>initiators := [], auth_network := []\<rparr>))
        = d\<lparr>initiators := [], auth_network := []\<rparr>
   \<and> initiators (initiator_extend (initiator_compress (d\<lparr>initiators := [''ALL'']\<rparr>))) = []
   \<and> initiators (initiator_extend (initiator_compress (d\<lparr>initiators := [''iqn a'']\<rparr>)))
        = [''iqn'', ''a'']"
proof (intro conjI impI)
  assume a: "list_all plain_name (initiators d) \<and> initiators d \<noteq> [''ALL''] \<and>
    list_all plain_name (auth_network d) \<and> auth_network d \<noteq> [''ALL'']"
  have i: "(if (if initiators d = [] then ''ALL'' else join [CHR 10] (initiators d)) = ''ALL''
            then [] else split (if initiators d = [] then ''ALL'' else join [CHR 10] (initiators d)))
           = initiators d"
    using roundtrip_field [of "initiators d"] a by (simp add: Let_def)
  have n: "(if (if auth_network d = [] then ''ALL'' else join [CHR 10] (auth_network d)) = ''ALL''
            then [] else split (if auth_network d = [] then ''ALL'' else join [CHR 10] (auth_network d)))
           = auth_network d"
    using roundtrip_field [of "auth_network d"] a by (simp add: Let_def)
  show "initiator_extend (initiator_compress d) = d"
    unfolding initiator_extend_def initiator_compress_def
    by (simp only: initiator_row.simps i n) simp
next
  show "initiators (initiator_extend (initiator_compress (d\<lparr>initiators := [''iqn a'']\<rparr>)))
        = [''iqn'', ''a'']"
    by (simp add: initiator_extend_def initiator_compress_def split_def isspace_def)
qed (simp_all add: initiator_extend_def initiator_compress_def)

theorem initiator_roundtrip_witness:
  "list_all plain_name [''iqn.2005-10.org.host:a'', ''iqn.2005-10.org.host:b'']
   \<and> initiator_extend (initiator_compress
        \<lparr> init_id = 1, initiators = [''iqn.2005-10.org.host:a'', ''iqn.2005-10.org.host:b''],
          auth_network = [''10.0.0.0/8''], init_comment = ''lab'' \<rparr>)
      = \<lparr> init_id = 1, initiators = [''iqn.2005-10.org.host:a'', ''iqn.2005-10.org.host:b''],
          auth_network = [''10.0.0.0/8''], init_comment = ''lab'' \<rparr>"
  using initiator_roundtrip [of
        "\<lparr> init_id = 1, initiators = [''iqn.2005-10.org.host:a'', ''iqn.2005-10.org.host:b''],
           auth_network = [''10.0.0.0/8''], init_comment = ''lab'' \<rparr>"]
  by (simp add: plain_name_def isspace_def)

subsection \<open>Fresh ids and the frame of the listen reconciliation\<close>

lemma fold_max_ge_init: "(a::int) \<le> fold max ids a"
proof (induction ids arbitrary: a)
  case Nil
  then show ?case by simp
next
  case (Cons y ys)
  have "a \<le> max y a" by simp
  also have "\<dots> \<le> fold max ys (max y a)" by (rule Cons.IH)
  finally show ?case by simp
qed

lemma fold_max_ge_elem: "x \<in> set ids \<Longrightarrow> (x::int) \<le> fold max ids a"
proof (induction ids arbitrary: a)
  case Nil
  then show ?case by simp
next
  case (Cons y ys)
  show ?case
  proof (cases "x = y")
    case True
    have "max y a \<le> fold max ys (max y a)" by (rule fold_max_ge_init)
    with True show ?thesis by simp
  next
    case False
    with Cons show ?thesis by simp
  qed
qed

lemma fresh_id_notin: "fresh_id ids \<notin> set ids"
proof
  assume "fresh_id ids \<in> set ids"
  then have "fresh_id ids \<le> fold max ids 0" by (rule fold_max_ge_elem)
  then show False by (simp add: fresh_id_def)
qed

lemma filter_fresh_snoc:
  "pk \<notin> set (map portal_id rows) \<Longrightarrow>
   filter (\<lambda>r. portal_id r \<noteq> pk) (rows @ [r\<lparr>portal_id := pk\<rparr>]) = rows"
  by (induction rows) auto

lemma portals_logged [simp]: "portals (logged ev s) = portals s"
  by (simp add: logged_def)

lemma portals_service_change [simp]: "portals (service_change a b s) = portals s"
  by (simp add: service_change_def)

lemma portals_insert_portalip [simp]: "portals (snd (insert_portalip pk i s)) = portals s"
  by (simp add: insert_portalip_def Let_def)

lemma portals_delete_portalip [simp]: "portals (delete_portalip k s) = portals s"
  by (simp add: delete_portalip_def)

lemma portals_insert_listens [simp]: "portals (snd (insert_listens e pk is s)) = portals s"
  by (induction "is" arbitrary: s) auto

lemma portals_delete_listens [simp]: "portals (delete_listens pk is s) = portals s"
  by (induction "is" arbitrary: s) (auto split: list.splits)

lemma portals_save_listen [simp]: "portals (snd (save_listen e pk new old s)) = portals s"
proof -
  have "\<And>xs ys. portals (snd (case insert_listens e pk xs s of
           (Inl err, s1) \<Rightarrow> (Inl err, s1)
         | (Inr _, s1) \<Rightarrow> (Inr (), delete_listens pk ys s1))) = portals s"
  proof -
    fix xs ys
    obtain r s1 where eq: "insert_listens e pk xs s = (r, s1)" by (cases "insert_listens e pk xs s")
    then have "portals s1 = portals s" using portals_insert_listens[of e pk xs s] by simp
    with eq show "portals (snd (case insert_listens e pk xs s of
           (Inl err, s1) \<Rightarrow> (Inl err, s1)
         | (Inr _, s1) \<Rightarrow> (Inr (), delete_listens pk ys s1))) = portals s"
      by (cases r) simp_all
  qed
  then show ?thesis by (simp add: save_listen_def Let_def)
qed

subsection \<open>Portal tags\<close>

lemma update_tag_split:
  assumes "distinct (map portal_id (pre @ r # rs))"
  shows "map (\<lambda>x. if portal_id x = portal_id r then x\<lparr>portal_tag := t\<rparr> else x) (pre @ r # rs)
         = pre @ r\<lparr>portal_tag := t\<rparr> # rs"
proof -
  have "portal_id r \<notin> portal_id ` set pre" "portal_id r \<notin> portal_id ` set rs"
    using assms by auto
  then have "\<forall>x\<in>set pre. portal_id x \<noteq> portal_id r" "\<forall>x\<in>set rs. portal_id x \<noteq> portal_id r"
    by (metis imageI)+
  then show ?thesis by (simp add: map_idI)
qed

lemma renumber_portals:
  "distinct (map portal_id (pre @ rows)) \<Longrightarrow> portals s = pre @ rows \<Longrightarrow>
   map p_id vs = map portal_id rows \<Longrightarrow>
   portals (renumber i vs s)
     = pre @ map (\<lambda>(r, k). r\<lparr>portal_tag := int k + 1\<rparr>) (zip rows [i..<i + length rows])"
proof (induction rows arbitrary: pre vs i s)
  case Nil
  then show ?case by simp
next
  case (Cons r rs)
  from Cons.prems(3) obtain v vs' where vs: "vs = v # vs'" "p_id v = portal_id r"
    "map p_id vs' = map portal_id rs" by (cases vs) auto
  let ?r' = "r\<lparr>portal_tag := int i + 1\<rparr>"
  let ?s' = "update_portal_tag (p_id v) (int i + 1) s"
  have p': "portals ?s' = (pre @ [?r']) @ rs"
    using update_tag_split[OF Cons.prems(1), of "int i + 1"] Cons.prems(2) vs
    by (simp add: update_portal_tag_def)
  have d': "distinct (map portal_id ((pre @ [?r']) @ rs))" using Cons.prems(1) by simp
  have "portals (renumber (Suc i) vs' ?s')
     = (pre @ [?r']) @ map (\<lambda>(r, k). r\<lparr>portal_tag := int k + 1\<rparr>) (zip rs [Suc i..<Suc i + length rs])"
    by (rule Cons.IH[OF d' p' vs(3)])
  moreover have "[i..<i + length (r # rs)] = i # [Suc i..<Suc i + length rs]"
    by (simp add: upt_rec)
  ultimately show ?case using vs by simp
qed

lemma renumber_tags:
  assumes "distinct (map portal_id (portals s))" "map p_id vs = map portal_id (portals s)"
  shows "map portal_tag (portals (renumber 0 vs s)) = map int [1..<Suc (length (portals s))]"
    and "map portal_id (portals (renumber 0 vs s)) = map portal_id (portals s)"
proof -
  have eq: "portals (renumber 0 vs s)
     = map (\<lambda>(r, k). r\<lparr>portal_tag := int k + 1\<rparr>) (zip (portals s) [0..<length (portals s)])"
    using renumber_portals[of "[]" "portals s" s vs 0] assms by simp
  have "map portal_tag (map (\<lambda>(r, k). r\<lparr>portal_tag := int k + 1\<rparr>) (zip xs [0..<length xs]))
      = map (\<lambda>k. int k + 1) [0..<length xs]" for xs :: "portal_row list"
    by (rule nth_equalityI) simp_all
  moreover have "map (\<lambda>k. int k + 1) [0..<n] = map int [1..<Suc n]" for n
  proof -
    have "[1..<Suc n] = map Suc [0..<n]" by (simp add: map_Suc_upt del: upt_Suc)
    then show ?thesis by (simp del: upt_Suc)
  qed
  ultimately show "map portal_tag (portals (renumber 0 vs s)) = map int [1..<Suc (length (portals s))]"
    using eq by simp
  have "map portal_id (map (\<lambda>(r, k). r\<lparr>portal_tag := int k + 1\<rparr>) (zip xs [0..<length xs]))
      = map portal_id xs" for xs :: "portal_row list"
    by (rule nth_equalityI) simp_all
  then show "map portal_id (portals (renumber 0 vs s)) = map portal_id (portals s)"
    using eq by simp
qed

lemma sorted_tags_filter:
  assumes "map portal_tag rows = map int [1..<Suc (length rows)]"
  shows "sorted (map portal_tag (filter P rows))"
proof -
  have "sorted (map portal_tag rows)" unfolding assms by (simp add: sorted_map del: upt_Suc)
  then show ?thesis by (simp add: sorted_map sorted_wrt_filter flip: filter_map)
qed


lemma portal_do_create_cases:
  "(\<exists>err. portal_do_create e d s = (Inl err, snd (portal_do_create e d s))
          \<and> portals (snd (portal_do_create e d s)) = portals s)
   \<or> (\<exists>pk. portal_do_create e d s = (Inr pk, snd (portal_do_create e d s))
          \<and> pk = fresh_id (map portal_id (portals s))
          \<and> portals (snd (portal_do_create e d s))
             = portals s @ [(portal_insert_data s d)\<lparr>portal_id := pk\<rparr>])"
proof (cases "portal_validate e s d ''iscsiportal_create'' None = []")
  case False
  then show ?thesis by (simp add: portal_do_create_def)
next
  case True
  let ?row = "portal_insert_data s d"
  obtain pk s1 where ins: "insert_portal ?row s = (pk, s1)" by (cases "insert_portal ?row s")
  then have pk: "pk = fresh_id (map portal_id (portals s))"
    and p1: "portals s1 = portals s @ [?row\<lparr>portal_id := pk\<rparr>]"
    by (auto simp: insert_portal_def Let_def)
  obtain r s2 where sl: "save_listen e pk (p_listen d) None s1 = (r, s2)"
    by (cases "save_listen e pk (p_listen d) None s1")
  then have p2: "portals s2 = portals s1" using portals_save_listen[of e pk "p_listen d" None s1] by simp
  show ?thesis
  proof (cases r)
    case (Inl err)
    have "portals (delete_portal pk s2) = portals s"
      using p2 p1 pk filter_fresh_snoc[of pk "portals s" ?row] fresh_id_notin[of "map portal_id (portals s)"]
      by (simp add: delete_portal_def)
    with True ins sl Inl show ?thesis by (simp add: portal_do_create_def Let_def)
  next
    case (Inr u)
    with True ins sl p1 p2 pk show ?thesis by (simp add: portal_do_create_def Let_def)
  qed
qed

lemma portal_inv_create: "portal_inv s \<Longrightarrow> portal_inv (snd (portal_do_create e d s))"
  using portal_do_create_cases[of e d s] fresh_id_notin[of "map portal_id (portals s)"]
  by (auto simp: portal_inv_def portal_insert_data_def)

lemma p_tag_extend [simp]: "p_tag (portal_config_extend s r) = portal_tag r"
  and p_id_extend [simp]: "p_id (portal_config_extend s r) = portal_id r"
  by (simp_all add: portal_config_extend_def)

lemma query_by_tag_sorted:
  "sorted (map portal_tag (portals s)) \<Longrightarrow>
   portal_query_by_tag s = map (portal_config_extend s) (portals s)"
  unfolding portal_query_by_tag_def
  by (rule sort_key_id_if_sorted) (simp add: comp_def)

lemma portal_do_delete_cases:
  assumes "portal_inv s"
  shows "(\<exists>err. portal_do_delete pk s = (Inl err, s) \<and> pk \<notin> set (map portal_id (portals s)))
   \<or> (portal_do_delete pk s = (Inr (), snd (portal_do_delete pk s))
       \<and> pk \<in> set (map portal_id (portals s))
       \<and> map portal_id (portals (snd (portal_do_delete pk s)))
            = filter (\<lambda>i. i \<noteq> pk) (map portal_id (portals s))
       \<and> map portal_tag (portals (snd (portal_do_delete pk s)))
            = map int [1..<Suc (length (portals (snd (portal_do_delete pk s))))])"
proof (cases "filter (\<lambda>r. portal_id r = pk) (portals s)")
  case Nil
  then have "pk \<notin> set (map portal_id (portals s))" by (auto simp: filter_empty_conv)
  with Nil show ?thesis by (simp add: portal_do_delete_def portal_get_instance_def)
next
  case (Cons r rs)
  then have mem: "pk \<in> set (map portal_id (portals s))"
    by (metis (mono_tags, lifting) filter_eq_ConsD image_eqI list.set_intros(1) list.set_map
        mem_Collect_eq set_filter)
  let ?s1 = "logged (DeleteWhere ''services.iscsitargetgroups'')
                      (s\<lparr>groups := filter (\<lambda>g. group_portalgroup g \<noteq> pk) (groups s)\<rparr>)"
  let ?s2 = "logged (DeleteWhere ''services.iscsitargetportalip'')
                      (?s1\<lparr>portalips := filter (\<lambda>i. portalip_portal i \<noteq> pk) (portalips ?s1)\<rparr>)"
  let ?s3 = "delete_portal pk ?s2"
  let ?s4 = "renumber 0 (portal_query_by_tag ?s3) ?s3"
  have res: "portal_do_delete pk s = (Inr (), service_change ''iscsitarget'' ''reload'' ?s4)"
    using Cons by (simp add: portal_do_delete_def portal_get_instance_def Let_def)
  have p3: "portals ?s3 = filter (\<lambda>r. portal_id r \<noteq> pk) (portals s)"
    by (simp add: delete_portal_def)
  have d3: "distinct (map portal_id (portals ?s3))"
    using assms unfolding p3 by (simp add: portal_inv_def distinct_map_filter)
  have "sorted (map portal_tag (portals ?s3))"
    unfolding p3 using assms by (intro sorted_tags_filter) (simp add: portal_inv_def)
  then have q: "portal_query_by_tag ?s3 = map (portal_config_extend ?s3) (portals ?s3)"
    by (rule query_by_tag_sorted)
  have ids: "map p_id (portal_query_by_tag ?s3) = map portal_id (portals ?s3)"
    unfolding q by (simp add: comp_def)
  have t4: "map portal_tag (portals ?s4) = map int [1..<Suc (length (portals ?s3))]"
    and i4: "map portal_id (portals ?s4) = map portal_id (portals ?s3)"
    using renumber_tags[OF d3 ids] by simp_all
  from i4 have len: "length (portals ?s4) = length (portals ?s3)" by (metis length_map)
  have "map portal_id (portals ?s3) = filter (\<lambda>i. i \<noteq> pk) (map portal_id (portals s))"
    unfolding p3 by (simp add: filter_map comp_def)
  with res mem t4 i4 len show ?thesis by simp
qed

lemma portal_inv_delete: "portal_inv s \<Longrightarrow> portal_inv (snd (portal_do_delete pk s))"
  using portal_do_delete_cases[of s pk]
  by (auto simp: portal_inv_def distinct_map_filter)

lemma portal_inv_step: "portal_inv s \<Longrightarrow> portal_inv (portal_step s c)"
  by (cases c) (simp_all add: portal_inv_create portal_inv_delete)

lemma portal_inv_run: "portal_inv s \<Longrightarrow> portal_inv (portal_run s cs)"
  unfolding portal_run_def
  by (induction cs arbitrary: s) (simp_all add: portal_inv_step)

lemma portal_inv_empty: "portals s = [] \<Longrightarrow> portal_inv s"
  by (simp add: portal_inv_def)

lemmas portal_eval = portal_run_def store0_def env0_def portal0_def portal_do_create_def portal_validate_def
    portal_insert_data_def
    listen_errors_def truthy_def insert_portal_def fresh_id_def logged_def save_listen_def set_diff_def
    insert_portalip_def delete_portal_def service_change_def portal_do_delete_def portal_get_instance_def
    portal_config_extend_def portal_query_by_tag_def update_portal_tag_def legacy_inv_get_def legacy_get_def Let_def

text \<open>
  C5. Run any sequence of portal creates and deletes from an empty portal table. In the
  state reached the tags of the rows are 1, 2, ..., N in the order of the rows; a delete
  that succeeds there leaves the remaining portals with the tags 1, ..., N - 1, listed by
  tag in the order they had by tag before; a create that succeeds there appends a row whose
  tag is the number of rows before it plus one.
\<close>

theorem portal_tags_dense:
  assumes "portals s0 = []"
  shows "(let s = portal_run s0 cs in
      map portal_tag (portals s) = map int [1..<Suc (length (portals s))]
    \<and> (\<forall>pk s'. portal_do_delete pk s = (Inr (), s') \<longrightarrow>
          map portal_tag (sort_key portal_tag (portals s')) = map int [1..<Suc (length (portals s'))]
        \<and> map portal_id (sort_key portal_tag (portals s'))
            = filter (\<lambda>i. i \<noteq> pk) (map portal_id (sort_key portal_tag (portals s))))
    \<and> (\<forall>e d pk s'. portal_do_create e d s = (Inr pk, s') \<longrightarrow>
          (\<exists>r. portals s' = portals s @ [r] \<and> portal_id r = pk
              \<and> portal_tag r = int (length (portals s)) + 1)))"
proof -
  define s where "s = portal_run s0 cs"
  have inv: "portal_inv s" unfolding s_def using assms by (intro portal_inv_run portal_inv_empty)
  have sorted_inv: "sort_key portal_tag (portals t) = portals t" if "portal_inv t" for t
  proof -
    have "sorted (map portal_tag (portals t))"
      using that by (simp add: portal_inv_def sorted_map del: upt_Suc)
    then show ?thesis by (rule sort_key_id_if_sorted)
  qed
  have a: "map portal_tag (portals s) = map int [1..<Suc (length (portals s))]"
    using inv by (simp add: portal_inv_def)
  have b: "map portal_tag (sort_key portal_tag (portals s')) = map int [1..<Suc (length (portals s'))]
        \<and> map portal_id (sort_key portal_tag (portals s'))
            = filter (\<lambda>i. i \<noteq> pk) (map portal_id (sort_key portal_tag (portals s)))"
    if del: "portal_do_delete pk s = (Inr (), s')" for pk s'
  proof -
    have inv': "portal_inv s'" using portal_inv_delete[OF inv, of pk] del by simp
    have "map portal_id (portals s') = filter (\<lambda>i. i \<noteq> pk) (map portal_id (portals s))"
      using portal_do_delete_cases[OF inv, of pk] del by simp
    moreover have "map portal_tag (portals s') = map int [1..<Suc (length (portals s'))]"
      using inv' by (simp add: portal_inv_def)
    ultimately show ?thesis by (simp add: sorted_inv[OF inv] sorted_inv[OF inv'])
  qed
  have c: "\<exists>r. portals s' = portals s @ [r] \<and> portal_id r = pk
              \<and> portal_tag r = int (length (portals s)) + 1"
    if cr: "portal_do_create e d s = (Inr pk, s')" for e d pk s'
    using portal_do_create_cases[of e d s] cr by (auto simp: portal_insert_data_def)
  from a b c show ?thesis unfolding s_def[symmetric] Let_def by blast
qed


theorem portal_tags_dense_witness:
  "portals store0 = []
   \<and> portal_do_delete 1 (portal_run store0 [Create env0 (portal0 ''0.0.0.0''), Create env0 (portal0 ''10.0.0.1'')])
       = (Inr (), snd (portal_do_delete 1
            (portal_run store0 [Create env0 (portal0 ''0.0.0.0''), Create env0 (portal0 ''10.0.0.1'')])))
   \<and> map portal_tag (sort_key portal_tag (portals (snd (portal_do_delete 1
            (portal_run store0 [Create env0 (portal0 ''0.0.0.0''), Create env0 (portal0 ''10.0.0.1'')])))))
       = [1]
   \<and> map portal_id (sort_key portal_tag (portals (snd (portal_do_delete 1
            (portal_run store0 [Create env0 (portal0 ''0.0.0.0''), Create env0 (portal0 ''10.0.0.1'')])))))
       = [2]
   \<and> map portal_tag (portals
         (portal_run store0 [Create env0 (portal0 ''0.0.0.0''), Create env0 (portal0 ''10.0.0.1'')]))
       = [1, 2]
   \<and> portal_do_create env0 (portal0 ''::'')
         (portal_run store0 [Create env0 (portal0 ''0.0.0.0''), Create env0 (portal0 ''10.0.0.1'')])
       = (Inr 3, snd (portal_do_create env0 (portal0 ''::'')
           (portal_run store0 [Create env0 (portal0 ''0.0.0.0''), Create env0 (portal0 ''10.0.0.1'')])))
   \<and> map portal_tag (portals (snd (portal_do_create env0 (portal0 ''::'')
         (portal_run store0 [Create env0 (portal0 ''0.0.0.0''), Create env0 (portal0 ''10.0.0.1'')]))))
       = [1, 2, 3]"
proof -
  let ?S = "portal_run store0 [Create env0 (portal0 ''0.0.0.0''), Create env0 (portal0 ''10.0.0.1'')]"
  have h: "portals store0 = []" by (simp add: store0_def)
  have "fst (portal_do_delete 1 ?S) = Inr ()" by (simp add: portal_eval)
  then have d: "portal_do_delete 1 ?S = (Inr (), snd (portal_do_delete 1 ?S))"
    by (metis prod.collapse)
  have len: "length (portals ?S) = 2" "map portal_id (portals ?S) = [1, 2]"
    by (simp_all add: portal_eval)
  have len': "length (portals (snd (portal_do_delete 1 ?S))) = 1"
    by (simp add: portal_eval)
  note t = portal_tags_dense [OF h, of "[Create env0 (portal0 ''0.0.0.0''), Create env0 (portal0 ''10.0.0.1'')]",
      unfolded Let_def]
  from t have a: "map portal_tag (portals ?S) = map int [1..<Suc (length (portals ?S))]" by blast
  from t d have b: "map portal_tag (sort_key portal_tag (portals (snd (portal_do_delete 1 ?S))))
        = map int [1..<Suc (length (portals (snd (portal_do_delete 1 ?S))))]
      \<and> map portal_id (sort_key portal_tag (portals (snd (portal_do_delete 1 ?S))))
        = filter (\<lambda>i. i \<noteq> 1) (map portal_id (sort_key portal_tag (portals ?S)))" by blast
  have srt: "sort_key portal_tag (portals ?S) = portals ?S" by (simp add: portal_eval)
  have u: "map int [Suc 0..<3] = [1, 2]" by code_simp
  have "fst (portal_do_create env0 (portal0 ''::'') ?S) = Inr 3" by (simp add: portal_eval)
  then have c: "portal_do_create env0 (portal0 ''::'') ?S
      = (Inr 3, snd (portal_do_create env0 (portal0 ''::'') ?S))"
    by (metis prod.collapse)
  from t c obtain r where r: "portals (snd (portal_do_create env0 (portal0 ''::'') ?S)) = portals ?S @ [r]"
    "portal_tag r = int (length (portals ?S)) + 1" by blast
  from a have a': "map portal_tag (portals ?S) = [1, 2]" unfolding len by (simp add: u)
  have e: "map portal_tag (portals (snd (portal_do_create env0 (portal0 ''::'') ?S))) = [1, 2, 3]"
    unfolding r(1) using r(2) a' by (simp add: len)
  show ?thesis using h d a b c e unfolding len len' srt by (simp add: len u)
qed

subsection \<open>LUN allocation\<close>

lemma sorted_last_max:
  assumes "sorted xs" "x \<in> set xs"
  shows "(x::int) \<le> last xs"
proof -
  from assms(2) have ne: "xs \<noteq> []" by auto
  then have "xs = butlast xs @ [last xs]" by simp
  then have "sorted (butlast xs @ [last xs])" using assms(1) by simp
  then have "\<forall>y\<in>set (butlast xs). y \<le> last xs" by (simp add: sorted_append)
  moreover from ne assms(2) have "x \<in> set (butlast xs) \<or> x = last xs"
    by (metis Un_iff append_butlast_last_id empty_iff empty_set insert_iff list.simps(15) set_append)
  ultimately show ?thesis by auto
qed

lemma fold_max_tl_hd:
  assumes "xs \<noteq> []" "sorted xs"
  shows "fold max (tl xs) (hd xs) = (last xs :: int)"
proof -
  from assms(1) obtain y ys where xs: "xs = y # ys" by (cases xs) auto
  have "fold max ys y = Max (set (y # ys))" by (rule Max.set_eq_fold[symmetric])
  also have "\<dots> = last xs"
  proof (rule Max_eqI)
    show "finite (set (y # ys))" by simp
    show "\<And>z. z \<in> set (y # ys) \<Longrightarrow> z \<le> last xs" using sorted_last_max[OF assms(2)] xs by simp
    show "last xs \<in> set (y # ys)" using xs last_in_set[of xs] by simp
  qed
  finally show ?thesis using xs by simp
qed

lemma hd_filter_first:
  assumes "filter P ys \<noteq> []" "sorted ys" "distinct ys"
  shows "P (hd (filter P ys)) \<and> hd (filter P ys) \<in> set ys
         \<and> (\<forall>k\<in>set ys. k < hd (filter P ys) \<longrightarrow> \<not> P k)"
proof -
  from assms(1) obtain y zs where f: "filter P ys = y # zs" by (cases "filter P ys") auto
  then obtain us vs where ys: "ys = us @ y # vs" and us: "\<forall>u\<in>set us. \<not> P u" and "P y"
    by (auto simp: filter_eq_Cons_iff)
  have "\<forall>v\<in>set vs. y \<le> v" using assms(2) ys by (simp add: sorted_append)
  then have "\<forall>k\<in>set ys. k < y \<longrightarrow> k \<in> set us" using ys by auto
  with us \<open>P y\<close> f ys show ?thesis by auto
qed

lemma alloc_lunid_least:
  assumes "sorted xs" "\<forall>x\<in>set xs. 0 \<le> x"
  shows "0 \<le> alloc_lunid xs \<and> alloc_lunid xs \<notin> set xs
         \<and> (\<forall>k. 0 \<le> k \<and> k < alloc_lunid xs \<longrightarrow> k \<in> set xs)"
proof (cases "xs = []")
  case True
  then show ?thesis by (simp add: alloc_lunid_def)
next
  case False
  define m where "m = last xs"
  define diff where "diff = filter (\<lambda>k. k \<notin> set xs) [0..m]"
  have alloc: "alloc_lunid xs = (if diff \<noteq> [] then hd diff else fold max (tl xs) (hd xs) + 1)"
    using False by (simp add: alloc_lunid_def diff_def m_def)
  show ?thesis
  proof (cases "diff = []")
    case True
    then have all: "\<forall>k\<in>set [0..m]. k \<in> set xs"
      unfolding diff_def filter_empty_conv by blast
    have l: "alloc_lunid xs = m + 1"
      using True fold_max_tl_hd[OF False assms(1)] alloc by (simp add: m_def)
    have notin: "m + 1 \<notin> set xs"
    proof
      assume "m + 1 \<in> set xs"
      then have "m + 1 \<le> last xs" by (rule sorted_last_max[OF assms(1)])
      then show False by (simp add: m_def)
    qed
    have "m \<in> set xs" unfolding m_def using False by (rule last_in_set)
    then have m0: "0 \<le> m" using assms(2) by blast
    have "k \<in> set xs" if "0 \<le> k \<and> k < m + 1" for k
    proof -
      from that have "k \<in> set [0..m]" by simp
      with all show ?thesis by blast
    qed
    with notin m0 show ?thesis unfolding l by simp
  next
    case ne: False
    have l: "alloc_lunid xs = hd diff" using ne alloc by simp
    have h: "hd diff \<notin> set xs \<and> hd diff \<in> set [0..m]
         \<and> (\<forall>k\<in>set [0..m]. k < hd diff \<longrightarrow> \<not> k \<notin> set xs)"
      unfolding diff_def by (rule hd_filter_first[OF ne[unfolded diff_def]]) simp_all
    then have a: "hd diff \<notin> set xs" and b: "0 \<le> hd diff" and b': "hd diff \<le> m"
      and c: "\<forall>k\<in>set [0..m]. k < hd diff \<longrightarrow> k \<in> set xs"
      by simp_all
    have "k \<in> set xs" if "0 \<le> k \<and> k < hd diff" for k
    proof -
      from that b' have "k \<in> set [0..m]" by simp
      with c that show ?thesis by blast
    qed
    with a b show ?thesis unfolding l by simp
  qed
qed

lemma used_lunids_sorted: "sorted (used_lunids s t)"
  by (simp add: used_lunids_def)

lemma set_used_lunids:
  "set (used_lunids s t) = te_lunid ` {r \<in> set (assocs s). te_target r = t}"
  by (auto simp: used_lunids_def)

text \<open>
  C1. When an association is validated with no LUN given, and the LUNs in use on its
  target are not negative, the LUN filled in is the least non-negative integer that no
  association of the target uses, and a create that succeeds stores it. For the LUNs in use
  0, 1, 3 it is 2; for 0, 1, 2 it is 3; for none it is 0.
\<close>

theorem lun_gap_fill:
  assumes "a_lunid d = None"
      and "\<forall>r\<in>set (assocs s). te_target r = a_target d \<longrightarrow> 0 \<le> te_lunid r"
  shows "(\<exists>l. a_lunid (fst (targetextent_validate s d schema_name old)) = Some l
            \<and> 0 \<le> l
            \<and> l \<notin> te_lunid ` {r \<in> set (assocs s). te_target r = a_target d}
            \<and> (\<forall>k. 0 \<le> k \<and> k < l \<longrightarrow> k \<in> te_lunid ` {r \<in> set (assocs s). te_target r = a_target d})
            \<and> (\<forall>pk s'. targetextent_do_create d s = (Inr pk, s') \<longrightarrow>
                  (\<exists>r\<in>set (assocs s'). te_id r = pk \<and> te_target r = a_target d \<and> te_lunid r = l)))
         \<and> alloc_lunid [] = 0 \<and> alloc_lunid [0, 1, 3] = 2 \<and> alloc_lunid [0, 1, 2] = 3"
proof -
  let ?used = "used_lunids s (a_target d)"
  let ?l = "alloc_lunid ?used"
  have nonneg: "\<forall>x\<in>set ?used. 0 \<le> x" using assms(2) by (auto simp: set_used_lunids)
  have least: "0 \<le> ?l \<and> ?l \<notin> set ?used \<and> (\<forall>k. 0 \<le> k \<and> k < ?l \<longrightarrow> k \<in> set ?used)"
    by (rule alloc_lunid_least[OF used_lunids_sorted nonneg])
  have v: "a_lunid (fst (targetextent_validate s d schema_name old)) = Some ?l" for schema_name old
    using assms(1) by (simp add: targetextent_validate_def Let_def)
  have c: "\<exists>r\<in>set (assocs s'). te_id r = pk \<and> te_target r = a_target d \<and> te_lunid r = ?l"
    if "targetextent_do_create d s = (Inr pk, s')" for pk s'
    using that assms(1)
    by (auto simp: targetextent_do_create_def targetextent_validate_def insert_assoc_def Let_def
          service_change_def logged_def split: if_splits)
  have ex: "alloc_lunid [] = 0 \<and> alloc_lunid [0, 1, 3] = 2 \<and> alloc_lunid [0, 1, 2] = 3"
    by (simp add: alloc_lunid_def upto.simps)
  from least v c ex show ?thesis unfolding set_used_lunids by blast
qed

theorem lun_gap_fill_witness:
  "a_lunid assoc_request = None
   \<and> map te_lunid (filter (\<lambda>r. te_target r = a_target assoc_request) (assocs store013)) = [0, 3, 1]
   \<and> a_lunid (fst (targetextent_validate store013 assoc_request ''iscsi_targetextent_create'' None))
       = Some 2
   \<and> 2 \<notin> te_lunid ` {r \<in> set (assocs store013). te_target r = a_target assoc_request}
   \<and> 1 \<in> te_lunid ` {r \<in> set (assocs store013). te_target r = a_target assoc_request}
   \<and> targetextent_do_create assoc_request store013
       = (Inr 5, snd (targetextent_do_create assoc_request store013))
   \<and> (\<exists>r\<in>set (assocs (snd (targetextent_do_create assoc_request store013))).
          te_id r = 5 \<and> te_target r = 1 \<and> te_lunid r = 2)"
proof -
  have h1: "a_lunid assoc_request = None" by (simp add: assoc_request_def)
  have h2: "\<forall>r\<in>set (assocs store013). te_target r = a_target assoc_request \<longrightarrow> 0 \<le> te_lunid r"
    by (simp add: store013_def store0_def assoc_request_def)
  have v: "a_lunid (fst (targetextent_validate store013 assoc_request ''iscsi_targetextent_create'' None))
       = Some 2"
    by (simp add: targetextent_validate_def used_lunids_def alloc_lunid_def store013_def store0_def
          assoc_request_def upto.simps Let_def)
  have "fst (targetextent_do_create assoc_request store013) = Inr 5"
    by (simp add: targetextent_do_create_def targetextent_validate_def used_lunids_def alloc_lunid_def
          insert_assoc_def fresh_id_def store013_def store0_def assoc_request_def upto.simps Let_def)
  then have c: "targetextent_do_create assoc_request store013
       = (Inr 5, snd (targetextent_do_create assoc_request store013))"
    by (metis prod.collapse)
  have tgt: "a_target assoc_request = 1" by (simp add: assoc_request_def)
  from lun_gap_fill [OF h1 h2, of "''iscsi_targetextent_create''" None] v
  have g: "2 \<notin> te_lunid ` {r \<in> set (assocs store013). te_target r = a_target assoc_request}
      \<and> (\<forall>k. 0 \<le> k \<and> k < 2 \<longrightarrow> k \<in> te_lunid ` {r \<in> set (assocs store013). te_target r = a_target assoc_request})
      \<and> (\<forall>pk s'. targetextent_do_create assoc_request store013 = (Inr pk, s') \<longrightarrow>
            (\<exists>r\<in>set (assocs s'). te_id r = pk \<and> te_target r = a_target assoc_request \<and> te_lunid r = 2))"
    by auto
  then have one: "1 \<in> te_lunid ` {r \<in> set (assocs store013). te_target r = a_target assoc_request}"
    by simp
  from g c have ex: "\<exists>r\<in>set (assocs (snd (targetextent_do_create assoc_request store013))).
          te_id r = 5 \<and> te_target r = 1 \<and> te_lunid r = 2"
    unfolding tgt by blast
  have m: "map te_lunid (filter (\<lambda>r. te_target r = a_target assoc_request) (assocs store013)) = [0, 3, 1]"
    by (simp add: store013_def store0_def assoc_request_def)
  from h1 m v g one c ex show ?thesis by blast
qed

subsection \<open>Rollback of a create whose reconciliation raises\<close>

lemma targets_logged [simp]: "targets (logged ev s) = targets s"
  by (simp add: logged_def)

lemma targets_insert_group [simp]: "targets (snd (insert_group pk i s)) = targets s"
  by (simp add: insert_group_def Let_def)

lemma targets_delete_group [simp]: "targets (delete_group k s) = targets s"
  by (simp add: delete_group_def)

lemma targets_insert_groups [simp]: "targets (snd (insert_groups e pk is s)) = targets s"
  by (induction "is" arbitrary: s) auto

lemma targets_delete_groups [simp]: "targets (delete_groups pk is s) = targets s"
  by (induction "is" arbitrary: s) (auto split: list.splits)

lemma targets_save_groups [simp]: "targets (snd (save_groups e pk new old s)) = targets s"
  by (simp add: save_groups_def Let_def)

lemma filter_fresh_target_snoc:
  "pk \<notin> set (map target_id rows) \<Longrightarrow>
   filter (\<lambda>r. target_id r \<noteq> pk) (rows @ [r\<lparr>target_id := pk\<rparr>]) = rows"
  by (induction rows) auto

lemma portal_rollback:
  assumes valid: "portal_validate e s d ''iscsiportal_create'' None = []"
      and ins: "insert_portal (portal_insert_data s d) s = (pk, s1)"
      and fail: "save_listen e pk (p_listen d) None s1 = (Inl err, s2)"
  shows "portal_do_create e d s = (Inl err, delete_portal pk s2)"
    and "pk \<in> portal_id ` set (portals s2)"
    and "pk \<notin> portal_id ` set (portals (delete_portal pk s2))"
    and "portals (delete_portal pk s2) = portals s"
proof -
  show "portal_do_create e d s = (Inl err, delete_portal pk s2)"
    using valid ins fail by (simp add: portal_do_create_def)
  from ins have pk: "pk = fresh_id (map portal_id (portals s))"
    and p1: "portals s1 = portals s @ [(portal_insert_data s d)\<lparr>portal_id := pk\<rparr>]"
    by (auto simp: insert_portal_def Let_def)
  have p2: "portals s2 = portals s1" using portals_save_listen[of e pk "p_listen d" None s1] fail by simp
  show "pk \<in> portal_id ` set (portals s2)" unfolding p2 p1 by simp
  show "pk \<notin> portal_id ` set (portals (delete_portal pk s2))" by (auto simp: delete_portal_def)
  show "portals (delete_portal pk s2) = portals s"
    using p2 p1 pk filter_fresh_snoc[of pk "portals s" "portal_insert_data s d"]
      fresh_id_notin[of "map portal_id (portals s)"]
    by (simp add: delete_portal_def)
qed

lemma target_rollback:
  assumes valid: "target_validate e s d ''iscsi_target_create'' None = []"
      and ins: "insert_target (target_insert_data (target_compress d)) s = (pk, s1)"
      and fail: "save_groups e pk (t_groups (target_compress d)) None s1 = (Inl err, s2)"
  shows "target_do_create e d s = (Inl err, delete_target pk s2)"
    and "pk \<in> target_id ` set (targets s2)"
    and "pk \<notin> target_id ` set (targets (delete_target pk s2))"
    and "targets (delete_target pk s2) = targets s"
proof -
  show "target_do_create e d s = (Inl err, delete_target pk s2)"
    using valid ins fail by (simp add: target_do_create_def Let_def)
  from ins have pk: "pk = fresh_id (map target_id (targets s))"
    and p1: "targets s1 = targets s @ [(target_insert_data (target_compress d))\<lparr>target_id := pk\<rparr>]"
    by (auto simp: insert_target_def Let_def)
  have p2: "targets s2 = targets s1"
    using targets_save_groups[of e pk "t_groups (target_compress d)" None s1] fail by simp
  show "pk \<in> target_id ` set (targets s2)" unfolding p2 p1 by simp
  show "pk \<notin> target_id ` set (targets (delete_target pk s2))" by (auto simp: delete_target_def)
  show "targets (delete_target pk s2) = targets s"
    using p2 p1 pk filter_fresh_target_snoc[of pk "targets s" "target_insert_data (target_compress d)"]
      fresh_id_notin[of "map target_id (targets s)"]
    by (simp add: delete_target_def)
qed

text \<open>
  C6. In a Portal create and in a Target create whose validation passed: when the primary
  row has been inserted (as \<open>pk\<close>, giving the store \<open>s1\<close>) and the reconciliation of the
  child rows then raises \<open>err\<close>, the create raises the same \<open>err\<close>, the row \<open>pk\<close>, still
  there when the reconciliation stopped, is deleted, and the primary table is what it was
  before the call.
\<close>

theorem create_rollback:
  "(portal_validate e s d ''iscsiportal_create'' None = []
      \<and> insert_portal (portal_insert_data s d) s = (pk, s1)
      \<and> save_listen e pk (p_listen d) None s1 = (Inl err, s2)
    \<longrightarrow> portal_do_create e d s = (Inl err, delete_portal pk s2)
        \<and> pk \<in> portal_id ` set (portals s2)
        \<and> pk \<notin> portal_id ` set (portals (delete_portal pk s2))
        \<and> portals (delete_portal pk s2) = portals s)
   \<and> (target_validate e s td ''iscsi_target_create'' None = []
      \<and> insert_target (target_insert_data (target_compress td)) s = (tk, t1)
      \<and> save_groups e tk (t_groups (target_compress td)) None t1 = (Inl terr, t2)
    \<longrightarrow> target_do_create e td s = (Inl terr, delete_target tk t2)
        \<and> tk \<in> target_id ` set (targets t2)
        \<and> tk \<notin> target_id ` set (targets (delete_target tk t2))
        \<and> targets (delete_target tk t2) = targets s)"
  using portal_rollback[of e s d pk s1 err s2] target_rollback[of e s td tk t1 terr t2]
  by blast

lemmas target_eval = target_do_create_def target_validate_def re_target_name_search_def
    target_name_char_def group_auth_errors_def target_compress_def target_insert_data_def
    insert_target_def delete_target_def save_groups_def insert_group_def delete_group_def
    lower_def lower_char_def legacy_inv_get_def truthy_def set_diff_def fresh_id_def logged_def
    service_change_def Let_def

theorem create_rollback_witness:
  "portal_validate env_refusing store_portal (portal0 ''10.0.0.1'') ''iscsiportal_create'' None = []
   \<and> fst (insert_portal (portal_insert_data store_portal (portal0 ''10.0.0.1'')) store_portal) = 2
   \<and> fst (save_listen env_refusing 2 (p_listen (portal0 ''10.0.0.1'')) None
            (snd (insert_portal (portal_insert_data store_portal (portal0 ''10.0.0.1'')) store_portal)))
       = Inl DatastoreError
   \<and> fst (portal_do_create env_refusing (portal0 ''10.0.0.1'') store_portal) = Inl DatastoreError
   \<and> portals (snd (portal_do_create env_refusing (portal0 ''10.0.0.1'') store_portal))
       = portals store_portal
   \<and> target_validate env_refusing store_portal target0 ''iscsi_target_create'' None = []
   \<and> fst (insert_target (target_insert_data (target_compress target0)) store_portal) = 1
   \<and> fst (save_groups env_refusing 1 (t_groups (target_compress target0)) None
            (snd (insert_target (target_insert_data (target_compress target0)) store_portal)))
       = Inl DatastoreError
   \<and> fst (target_do_create env_refusing target0 store_portal) = Inl DatastoreError
   \<and> targets (snd (target_do_create env_refusing target0 store_portal)) = targets store_portal"
proof -
  let ?d = "portal0 ''10.0.0.1''"
  let ?s1 = "snd (insert_portal (portal_insert_data store_portal ?d) store_portal)"
  let ?s2 = "snd (save_listen env_refusing 2 (p_listen ?d) None ?s1)"
  let ?t1 = "snd (insert_target (target_insert_data (target_compress target0)) store_portal)"
  let ?t2 = "snd (save_groups env_refusing 1 (t_groups (target_compress target0)) None ?t1)"
  have v: "portal_validate env_refusing store_portal ?d ''iscsiportal_create'' None = []"
    by (simp add: portal_validate_def listen_errors_def env_refusing_def env0_def store_portal_def
          store0_def portal0_def truthy_def)
  have i: "fst (insert_portal (portal_insert_data store_portal ?d) store_portal) = 2"
    by (simp add: insert_portal_def store_portal_def store0_def fresh_id_def Let_def)
  then have i': "insert_portal (portal_insert_data store_portal ?d) store_portal = (2, ?s1)"
    by (metis prod.collapse)
  have f: "fst (save_listen env_refusing 2 (p_listen ?d) None ?s1) = Inl DatastoreError"
    by (simp add: save_listen_def set_diff_def env_refusing_def portal0_def)
  then have f': "save_listen env_refusing 2 (p_listen ?d) None ?s1 = (Inl DatastoreError, ?s2)"
    by (metis prod.collapse)
  have tv: "target_validate env_refusing store_portal target0 ''iscsi_target_create'' None = []"
    by (simp add: target_eval env_refusing_def env0_def store_portal_def store0_def target0_def)
  have ti: "fst (insert_target (target_insert_data (target_compress target0)) store_portal) = 1"
    by (simp add: insert_target_def store_portal_def store0_def fresh_id_def Let_def)
  then have ti': "insert_target (target_insert_data (target_compress target0)) store_portal = (1, ?t1)"
    by (metis prod.collapse)
  have tf: "fst (save_groups env_refusing 1 (t_groups (target_compress target0)) None ?t1)
      = Inl DatastoreError"
    by (simp add: save_groups_def set_diff_def env_refusing_def target0_def target_compress_def)
  then have tf': "save_groups env_refusing 1 (t_groups (target_compress target0)) None ?t1
      = (Inl DatastoreError, ?t2)"
    by (metis prod.collapse)
  note r = create_rollback [of env_refusing store_portal ?d 2 ?s1 DatastoreError ?s2
      target0 1 ?t1 DatastoreError ?t2]
  from r v i' f' have p: "portal_do_create env_refusing ?d store_portal
        = (Inl DatastoreError, delete_portal 2 ?s2)
      \<and> portals (delete_portal 2 ?s2) = portals store_portal" by blast
  from r tv ti' tf' have t: "target_do_create env_refusing target0 store_portal
        = (Inl DatastoreError, delete_target 1 ?t2)
      \<and> targets (delete_target 1 ?t2) = targets store_portal" by blast
  from v i f tv ti tf p t show ?thesis by simp
qed

subsection \<open>Deletes and inserts of the two reconciliations\<close>

lemma ds_log_insert_listens:
  "\<exists>evs. ds_log (snd (insert_listens e pk is s)) = ds_log s @ evs
        \<and> list_all (is_insert_into ''services.iscsitargetportalip'') evs
        \<and> (fst (insert_listens e pk is s) = Inr () \<longrightarrow> length evs = length is)"
proof (induction "is" arbitrary: s)
  case Nil
  then show ?case by simp
next
  case (Cons i "is")
  show ?case
  proof (cases "portalip_insert_fails e pk i")
    case True
    then show ?thesis by simp
  next
    case False
    let ?s1 = "snd (insert_portalip pk i s)"
    obtain k where l1: "ds_log ?s1 = ds_log s @ [Insert ''services.iscsitargetportalip'' k]"
      by (simp add: insert_portalip_def logged_def Let_def)
    from Cons.IH[of ?s1] obtain evs where
      "ds_log (snd (insert_listens e pk is ?s1)) = ds_log ?s1 @ evs"
      "list_all (is_insert_into ''services.iscsitargetportalip'') evs"
      "fst (insert_listens e pk is ?s1) = Inr () \<longrightarrow> length evs = length is" by blast
    with False l1 show ?thesis
      by (intro exI[of _ "Insert ''services.iscsitargetportalip'' k # evs"]) simp
  qed
qed

lemma ds_log_delete_listens:
  "\<exists>evs. ds_log (delete_listens pk is s) = ds_log s @ evs
        \<and> list_all (is_delete_from ''services.iscsitargetportalip'') evs
        \<and> length evs \<le> length is"
proof (induction "is" arbitrary: s)
  case Nil
  then show ?case by simp
next
  case (Cons i "is")
  let ?found = "filter (\<lambda>r. portalip_portal r = pk \<and> portalip_ip r = l_ip i \<and> portalip_port r = l_port i)
             (portalips s)"
  show ?case
  proof (cases ?found)
    case Nil
    with Cons.IH[of s] show ?thesis by auto
  next
    case (Cons r rs)
    let ?s1 = "delete_portalip (portalip_id r) s"
    have l1: "ds_log ?s1 = ds_log s @ [Delete ''services.iscsitargetportalip'' (portalip_id r)]"
      by (simp add: delete_portalip_def logged_def)
    from Cons.IH[of ?s1] obtain evs where
      "ds_log (delete_listens pk is ?s1) = ds_log ?s1 @ evs"
      "list_all (is_delete_from ''services.iscsitargetportalip'') evs"
      "length evs \<le> length is" by blast
    with Cons l1 show ?thesis
      by (intro exI[of _ "Delete ''services.iscsitargetportalip'' (portalip_id r) # evs"]) simp
  qed
qed

lemma ds_log_insert_groups:
  "\<exists>evs. ds_log (snd (insert_groups e pk is s)) = ds_log s @ evs
        \<and> list_all (is_insert_into ''services.iscsitargetgroups'') evs
        \<and> (fst (insert_groups e pk is s) = Inr () \<longrightarrow> length evs = length is)"
proof (induction "is" arbitrary: s)
  case Nil
  then show ?case by simp
next
  case (Cons i "is")
  show ?case
  proof (cases "group_insert_fails e pk i")
    case True
    then show ?thesis by simp
  next
    case False
    let ?s1 = "snd (insert_group pk i s)"
    obtain k where l1: "ds_log ?s1 = ds_log s @ [Insert ''services.iscsitargetgroups'' k]"
      by (simp add: insert_group_def logged_def Let_def)
    from Cons.IH[of ?s1] obtain evs where
      "ds_log (snd (insert_groups e pk is ?s1)) = ds_log ?s1 @ evs"
      "list_all (is_insert_into ''services.iscsitargetgroups'') evs"
      "fst (insert_groups e pk is ?s1) = Inr () \<longrightarrow> length evs = length is" by blast
    with False l1 show ?thesis
      by (intro exI[of _ "Insert ''services.iscsitargetgroups'' k # evs"]) simp
  qed
qed

lemma ds_log_delete_groups:
  "\<exists>evs. ds_log (delete_groups pk is s) = ds_log s @ evs
        \<and> list_all (is_delete_from ''services.iscsitargetgroups'') evs
        \<and> length evs \<le> length is"
proof (induction "is" arbitrary: s)
  case Nil
  then show ?case by simp
next
  case (Cons i "is")
  let ?found = "filter (\<lambda>r. group_target r = pk \<and> group_portalgroup r = g_portal i \<and>
                       group_initiatorgroup r = g_initiator i \<and> group_authtype r = g_authmethod i \<and>
                       group_authgroup r = g_auth i) (groups s)"
  show ?case
  proof (cases ?found)
    case Nil
    with Cons.IH[of s] show ?thesis by auto
  next
    case (Cons r rs)
    let ?s1 = "delete_group (group_id r) s"
    have l1: "ds_log ?s1 = ds_log s @ [Delete ''services.iscsitargetgroups'' (group_id r)]"
      by (simp add: delete_group_def logged_def)
    from Cons.IH[of ?s1] obtain evs where
      "ds_log (delete_groups pk is ?s1) = ds_log ?s1 @ evs"
      "list_all (is_delete_from ''services.iscsitargetgroups'') evs"
      "length evs \<le> length is" by blast
    with Cons l1 show ?thesis
      by (intro exI[of _ "Delete ''services.iscsitargetgroups'' (group_id r) # evs"]) simp
  qed
qed

lemma phase_append:
  "list_all P xs \<Longrightarrow> list_all (\<lambda>x. \<not> P x) ys \<Longrightarrow> phase P (xs @ ys)"
  by (induction xs) (auto simp: list_all_iff, (cases ys; simp add: list_all_iff))

lemma insert_not_delete: "is_insert_into t ev \<Longrightarrow> \<not> is_delete ev"
  and delete_not_insert: "is_delete_from t ev \<Longrightarrow> \<not> is_insert ev"
  and insert_into_insert: "is_insert_into t ev \<Longrightarrow> is_insert ev"
  and delete_from_delete: "is_delete_from t ev \<Longrightarrow> is_delete ev"
  by (cases ev; simp)+

lemma save_groups_events:
  "\<exists>dels ins. new_events s (snd (save_groups e pk new old s)) = dels @ ins
      \<and> list_all (is_delete_from ''services.iscsitargetgroups'') dels
      \<and> list_all (is_insert_into ''services.iscsitargetgroups'') ins
      \<and> length dels \<le> length (set_diff (case old of None \<Rightarrow> [] | Some ol \<Rightarrow> remdups ol) (remdups new))
      \<and> (fst (save_groups e pk new old s) = Inr () \<longrightarrow>
           length ins = length (set_diff (remdups new) (case old of None \<Rightarrow> [] | Some ol \<Rightarrow> remdups ol)))"
proof -
  let ?old = "case old of None \<Rightarrow> [] | Some ol \<Rightarrow> remdups ol"
  let ?s1 = "delete_groups pk (set_diff ?old (remdups new)) s"
  from ds_log_delete_groups[of pk "set_diff ?old (remdups new)" s] obtain dels where
    d: "ds_log ?s1 = ds_log s @ dels" "list_all (is_delete_from ''services.iscsitargetgroups'') dels"
       "length dels \<le> length (set_diff ?old (remdups new))" by blast
  from ds_log_insert_groups[of e pk "set_diff (remdups new) ?old" ?s1] obtain ins where
    i: "ds_log (snd (insert_groups e pk (set_diff (remdups new) ?old) ?s1)) = ds_log ?s1 @ ins"
       "list_all (is_insert_into ''services.iscsitargetgroups'') ins"
       "fst (insert_groups e pk (set_diff (remdups new) ?old) ?s1) = Inr () \<longrightarrow>
          length ins = length (set_diff (remdups new) ?old)" by blast
  have "new_events s (snd (save_groups e pk new old s)) = dels @ ins"
    using d(1) i(1) by (simp add: new_events_def save_groups_def Let_def)
  moreover have "fst (save_groups e pk new old s) = Inr () \<longrightarrow>
      length ins = length (set_diff (remdups new) ?old)"
    using i(3) by (simp add: save_groups_def Let_def)
  ultimately show ?thesis using d(2,3) i(2) by blast
qed

lemma save_listen_events:
  "\<exists>ins dels. new_events s (snd (save_listen e pk new old s)) = ins @ dels
      \<and> list_all (is_insert_into ''services.iscsitargetportalip'') ins
      \<and> list_all (is_delete_from ''services.iscsitargetportalip'') dels
      \<and> length dels \<le> length (set_diff (case old of None \<Rightarrow> [] | Some ol \<Rightarrow> remdups ol) (remdups new))
      \<and> (fst (save_listen e pk new old s) = Inr () \<longrightarrow>
           length ins = length (set_diff (remdups new) (case old of None \<Rightarrow> [] | Some ol \<Rightarrow> remdups ol)))"
proof -
  let ?old = "case old of None \<Rightarrow> [] | Some ol \<Rightarrow> remdups ol"
  let ?xs = "set_diff (remdups new) ?old"
  let ?ys = "set_diff ?old (remdups new)"
  obtain r s1 where il: "insert_listens e pk ?xs s = (r, s1)" by (cases "insert_listens e pk ?xs s")
  from ds_log_insert_listens[of e pk ?xs s] il obtain ins where
    i: "ds_log s1 = ds_log s @ ins" "list_all (is_insert_into ''services.iscsitargetportalip'') ins"
       "r = Inr () \<longrightarrow> length ins = length ?xs" by auto
  show ?thesis
  proof (cases r)
    case (Inl err)
    with il i show ?thesis
      by (intro exI[of _ ins] exI[of _ "[]"]) (simp add: new_events_def save_listen_def Let_def)
  next
    case (Inr u)
    from ds_log_delete_listens[of pk ?ys s1] obtain dels where
      d: "ds_log (delete_listens pk ?ys s1) = ds_log s1 @ dels"
         "list_all (is_delete_from ''services.iscsitargetportalip'') dels"
         "length dels \<le> length ?ys" by blast
    with Inr il i show ?thesis
      by (intro exI[of _ ins] exI[of _ dels]) (simp add: new_events_def save_listen_def Let_def)
  qed
qed
lemmas save_eval = save_listen_def save_groups_def set_diff_def insert_portalip_def delete_portalip_def
    insert_group_def delete_group_def fresh_id_def logged_def new_events_def store_group_def
    store_portal_def store0_def env0_def group_on_def Let_def

text \<open>
  C2, as the code has it. \<open>__save_groups\<close> writes its deletes, at most one for each
  group of \<open>old - new\<close>, and then its inserts, one for each group of \<open>new - old\<close> when
  it returns. \<open>__save_listen\<close> computes the same two differences but writes its inserts
  first and its deletes after them. Both write to their own child table only.
\<close>

theorem reconcile_order:
  "(\<exists>dels ins. new_events s (snd (save_groups e pk new old s)) = dels @ ins
      \<and> list_all (is_delete_from ''services.iscsitargetgroups'') dels
      \<and> list_all (is_insert_into ''services.iscsitargetgroups'') ins
      \<and> length dels \<le> length (set_diff (case old of None \<Rightarrow> [] | Some ol \<Rightarrow> remdups ol) (remdups new))
      \<and> (fst (save_groups e pk new old s) = Inr () \<longrightarrow>
           length ins = length (set_diff (remdups new) (case old of None \<Rightarrow> [] | Some ol \<Rightarrow> remdups ol))))
   \<and> phase is_delete (new_events s (snd (save_groups e pk new old s)))
   \<and> (\<exists>ins dels. new_events s (snd (save_listen e pk' new' old' s)) = ins @ dels
      \<and> list_all (is_insert_into ''services.iscsitargetportalip'') ins
      \<and> list_all (is_delete_from ''services.iscsitargetportalip'') dels
      \<and> length dels \<le> length (set_diff (case old' of None \<Rightarrow> [] | Some ol \<Rightarrow> remdups ol) (remdups new'))
      \<and> (fst (save_listen e pk' new' old' s) = Inr () \<longrightarrow>
           length ins = length (set_diff (remdups new') (case old' of None \<Rightarrow> [] | Some ol \<Rightarrow> remdups ol))))
   \<and> phase is_insert (new_events s (snd (save_listen e pk' new' old' s)))"
proof -
  from save_groups_events[of s e pk new old] obtain dels ins where
    g: "new_events s (snd (save_groups e pk new old s)) = dels @ ins"
       "list_all (is_delete_from ''services.iscsitargetgroups'') dels"
       "list_all (is_insert_into ''services.iscsitargetgroups'') ins" by blast
  have "list_all is_delete dels" using g(2) by (auto simp: list_all_iff dest: delete_from_delete)
  moreover have "list_all (\<lambda>x. \<not> is_delete x) ins"
    using g(3) by (auto simp: list_all_iff dest: insert_not_delete)
  ultimately have pg: "phase is_delete (new_events s (snd (save_groups e pk new old s)))"
    unfolding g(1) by (rule phase_append)
  from save_listen_events[of s e pk' new' old'] obtain ins' dels' where
    l: "new_events s (snd (save_listen e pk' new' old' s)) = ins' @ dels'"
       "list_all (is_insert_into ''services.iscsitargetportalip'') ins'"
       "list_all (is_delete_from ''services.iscsitargetportalip'') dels'" by blast
  have "list_all is_insert ins'" using l(2) by (auto simp: list_all_iff dest: insert_into_insert)
  moreover have "list_all (\<lambda>x. \<not> is_insert x) dels'"
    using l(3) by (auto simp: list_all_iff dest: delete_not_insert)
  ultimately have pl: "phase is_insert (new_events s (snd (save_listen e pk' new' old' s)))"
    unfolding l(1) by (rule phase_append)
  from save_groups_events[of s e pk new old] save_listen_events[of s e pk' new' old'] pg pl
  show ?thesis by blast
qed

theorem reconcile_order_witness:
  "fst (save_groups env0 1 [group_on 2] (Some [group_on 1]) store_group) = Inr ()
   \<and> new_events store_group (snd (save_groups env0 1 [group_on 2] (Some [group_on 1]) store_group))
       = [Delete ''services.iscsitargetgroups'' 1, Insert ''services.iscsitargetgroups'' 1]
   \<and> phase is_delete
       (new_events store_group (snd (save_groups env0 1 [group_on 2] (Some [group_on 1]) store_group)))
   \<and> fst (save_listen env0 1 [\<lparr>l_ip = ''10.0.0.1'', l_port = 3260\<rparr>]
            (Some [\<lparr>l_ip = ''0.0.0.0'', l_port = 3260\<rparr>]) store_group) = Inr ()
   \<and> new_events store_group (snd (save_listen env0 1 [\<lparr>l_ip = ''10.0.0.1'', l_port = 3260\<rparr>]
            (Some [\<lparr>l_ip = ''0.0.0.0'', l_port = 3260\<rparr>]) store_group))
       = [Insert ''services.iscsitargetportalip'' 2, Delete ''services.iscsitargetportalip'' 1]
   \<and> phase is_insert
       (new_events store_group (snd (save_listen env0 1 [\<lparr>l_ip = ''10.0.0.1'', l_port = 3260\<rparr>]
            (Some [\<lparr>l_ip = ''0.0.0.0'', l_port = 3260\<rparr>]) store_group)))"
proof -
  note r = reconcile_order [of store_group env0 1 "[group_on 2]" "Some [group_on 1]" 1
      "[\<lparr>l_ip = ''10.0.0.1'', l_port = 3260\<rparr>]" "Some [\<lparr>l_ip = ''0.0.0.0'', l_port = 3260\<rparr>]"]
  have a: "fst (save_groups env0 1 [group_on 2] (Some [group_on 1]) store_group) = Inr ()"
    by (simp add: save_eval)
  have b: "new_events store_group (snd (save_groups env0 1 [group_on 2] (Some [group_on 1]) store_group))
       = [Delete ''services.iscsitargetgroups'' 1, Insert ''services.iscsitargetgroups'' 1]"
    by (simp add: save_eval)
  have c: "fst (save_listen env0 1 [\<lparr>l_ip = ''10.0.0.1'', l_port = 3260\<rparr>]
            (Some [\<lparr>l_ip = ''0.0.0.0'', l_port = 3260\<rparr>]) store_group) = Inr ()"
    by (simp add: save_eval)
  have d: "new_events store_group (snd (save_listen env0 1 [\<lparr>l_ip = ''10.0.0.1'', l_port = 3260\<rparr>]
            (Some [\<lparr>l_ip = ''0.0.0.0'', l_port = 3260\<rparr>]) store_group))
       = [Insert ''services.iscsitargetportalip'' 2, Delete ''services.iscsitargetportalip'' 1]"
    by (simp add: save_eval)
  from r have p: "phase is_delete
       (new_events store_group (snd (save_groups env0 1 [group_on 2] (Some [group_on 1]) store_group)))"
    by blast
  from r have q: "phase is_insert
       (new_events store_group (snd (save_listen env0 1 [\<lparr>l_ip = ''10.0.0.1'', l_port = 3260\<rparr>]
            (Some [\<lparr>l_ip = ''0.0.0.0'', l_port = 3260\<rparr>]) store_group)))"
    by blast
  from a b c d p q show ?thesis by blast
qed

text \<open>
  C2, as the specification states it, fails for the listen pairs of a portal: replacing 0.0.0.0:3260 by
  10.0.0.1:3260 inserts the new pair before it deletes the old one.
\<close>

theorem listen_deletes_first_counterexample:
  "\<not> phase is_delete
       (new_events store_group (snd (save_listen env0 1 [\<lparr>l_ip = ''10.0.0.1'', l_port = 3260\<rparr>]
            (Some [\<lparr>l_ip = ''0.0.0.0'', l_port = 3260\<rparr>]) store_group)))"
  by (simp add: save_eval)

subsection \<open>The authentication checks of a target's groups\<close>

lemma group_errors_auth:
  "i < length gs \<Longrightarrow>
   set (group_auth_errors s schema (k + i) (gs ! i))
     \<subseteq> set (group_errors s schema dbp dbi k seen gs)"
proof (induction gs arbitrary: i k seen)
  case Nil
  then show ?case by simp
next
  case (Cons g gs)
  show ?case
  proof (cases i)
    case 0
    then show ?thesis by auto
  next
    case (Suc j)
    with Cons.prems have "j < length gs" by simp
    from Cons.IH[OF this, of "Suc k"] Suc show ?thesis by auto
  qed
qed

lemma target_validate_auth:
  "i < length (t_groups d) \<Longrightarrow>
   set (group_auth_errors s schema i (t_groups d ! i)) \<subseteq> set (target_validate e s d schema old)"
  using group_errors_auth[of i "t_groups d" s schema 0]
  by (auto simp: target_validate_def Let_def)

lemma target_do_create_invalid:
  "target_validate e s d ''iscsi_target_create'' None \<noteq> [] \<Longrightarrow>
   target_do_create e d s = (Inl (ValidationErrors (target_validate e s d ''iscsi_target_create'' None)), s)"
  by (simp add: target_do_create_def)

text \<open>
  C9. In the validation that Target create and update share, for the group at index \<open>i\<close>:
  a method CHAP or CHAP_MUTUAL with no \<open>auth\<close> gives the error \<open>Authentication group is
  required\<close> on the field \<open>groups.i.auth\<close>, and a create is refused with it; a method
  CHAP_MUTUAL with an \<open>auth\<close> gives an error on the same field unless the first credential
  with that tag exists and has a peer user. When it does, and the tag is not 0, the checks
  of the group's \<open>auth\<close> give no error.
\<close>

theorem chap_requires_auth:
  assumes "i < length (t_groups d)"
  shows "((g_authmethod (t_groups d ! i) = ''CHAP'' \<or> g_authmethod (t_groups d ! i) = ''CHAP_MUTUAL'')
            \<and> g_auth (t_groups d ! i) = None
          \<longrightarrow> (schema @ ''.groups.'' @ str_nat i @ ''.auth'',
                ''Authentication group is required for CHAP and CHAP Mutual'', EINVAL)
                 \<in> set (target_validate e s d schema old)
              \<and> (schema = ''iscsi_target_create'' \<and> old = None \<longrightarrow>
                   target_do_create e d s
                     = (Inl (ValidationErrors (target_validate e s d schema old)), s)))
       \<and> (g_authmethod (t_groups d ! i) = ''CHAP_MUTUAL'' \<and> g_auth (t_groups d ! i) = Some a
            \<and> \<not> (\<exists>c cs. filter (\<lambda>x. auth_tag x = a) (auths s) = c # cs \<and> auth_peeruser c \<noteq> [])
          \<longrightarrow> (\<exists>msg en. (schema @ ''.groups.'' @ str_nat i @ ''.auth'', msg, en)
                 \<in> set (target_validate e s d schema old)))
       \<and> (g_auth (t_groups d ! i) = Some a \<and> a \<noteq> 0
            \<and> (\<exists>c cs. filter (\<lambda>x. auth_tag x = a) (auths s) = c # cs \<and> auth_peeruser c \<noteq> [])
          \<longrightarrow> group_auth_errors s schema i (t_groups d ! i) = [])"
proof (intro conjI impI)
  let ?g = "t_groups d ! i"
  note sub = target_validate_auth[OF assms, of s schema e old]
  {
    assume h: "(g_authmethod ?g = ''CHAP'' \<or> g_authmethod ?g = ''CHAP_MUTUAL'') \<and> g_auth ?g = None"
    then have "(schema @ ''.groups.'' @ str_nat i @ ''.auth'',
                ''Authentication group is required for CHAP and CHAP Mutual'', EINVAL)
                 \<in> set (group_auth_errors s schema i ?g)"
      by (auto simp: group_auth_errors_def truthy_def)
    with sub show m: "(schema @ ''.groups.'' @ str_nat i @ ''.auth'',
                ''Authentication group is required for CHAP and CHAP Mutual'', EINVAL)
                 \<in> set (target_validate e s d schema old)" by blast
    assume "schema = ''iscsi_target_create'' \<and> old = None"
    moreover from m have "target_validate e s d schema old \<noteq> []" by auto
    ultimately show "target_do_create e d s
        = (Inl (ValidationErrors (target_validate e s d schema old)), s)"
      using target_do_create_invalid[of e s d] by simp
  }
  {
    assume h: "g_authmethod ?g = ''CHAP_MUTUAL'' \<and> g_auth ?g = Some a
            \<and> \<not> (\<exists>c cs. filter (\<lambda>x. auth_tag x = a) (auths s) = c # cs \<and> auth_peeruser c \<noteq> [])"
    have "\<exists>msg en. (schema @ ''.groups.'' @ str_nat i @ ''.auth'', msg, en)
                 \<in> set (group_auth_errors s schema i ?g)"
    proof (cases "filter (\<lambda>x. auth_tag x = a) (auths s)")
      case Nil
      with h show ?thesis by (auto simp: group_auth_errors_def truthy_def)
    next
      case (Cons c cs)
      with h have "auth_peeruser c = []" by blast
      with h Cons show ?thesis by (auto simp: group_auth_errors_def truthy_def)
    qed
    with sub show "\<exists>msg en. (schema @ ''.groups.'' @ str_nat i @ ''.auth'', msg, en)
                 \<in> set (target_validate e s d schema old)" by blast
  }
  {
    assume h: "g_auth ?g = Some a \<and> a \<noteq> 0
            \<and> (\<exists>c cs. filter (\<lambda>x. auth_tag x = a) (auths s) = c # cs \<and> auth_peeruser c \<noteq> [])"
    then show "group_auth_errors s schema i ?g = []"
      by (auto simp: group_auth_errors_def truthy_def)
  }
qed
theorem chap_requires_auth_witness:
  "length (t_groups target_chap) = 3
   \<and> ''iscsi_target_create'' @ ''.groups.'' @ str_nat 0 @ ''.auth'' = ''iscsi_target_create.groups.0.auth''
   \<and> (''iscsi_target_create'' @ ''.groups.'' @ str_nat 0 @ ''.auth'',
        ''Authentication group is required for CHAP and CHAP Mutual'', EINVAL)
        \<in> set (target_validate env0 store_auth target_chap ''iscsi_target_create'' None)
   \<and> target_do_create env0 target_chap store_auth
        = (Inl (ValidationErrors (target_validate env0 store_auth target_chap ''iscsi_target_create'' None)),
           store_auth)
   \<and> (\<exists>msg en. (''iscsi_target_create'' @ ''.groups.'' @ str_nat 1 @ ''.auth'', msg, en)
        \<in> set (target_validate env0 store_auth target_chap ''iscsi_target_create'' None))
   \<and> group_auth_errors store_auth ''iscsi_target_create'' 2 (t_groups target_chap ! 2) = []"
proof -
  have len: "length (t_groups target_chap) = 3" by (simp add: target_chap_def)
  have i0: "0 < length (t_groups target_chap)" and i1: "1 < length (t_groups target_chap)"
    and i2: "2 < length (t_groups target_chap)" by (simp_all add: len)
  have g0: "(g_authmethod (t_groups target_chap ! 0) = ''CHAP''
              \<or> g_authmethod (t_groups target_chap ! 0) = ''CHAP_MUTUAL'')
            \<and> g_auth (t_groups target_chap ! 0) = None"
    by (simp add: target_chap_def)
  have g1: "g_authmethod (t_groups target_chap ! 1) = ''CHAP_MUTUAL''
            \<and> g_auth (t_groups target_chap ! 1) = Some 1
            \<and> \<not> (\<exists>c cs. filter (\<lambda>x. auth_tag x = 1) (auths store_auth) = c # cs \<and> auth_peeruser c \<noteq> [])"
    by (simp add: target_chap_def store_auth_def store_portal_def store0_def)
  have g2: "g_auth (t_groups target_chap ! 2) = Some 2 \<and> (2::int) \<noteq> 0
            \<and> (\<exists>c cs. filter (\<lambda>x. auth_tag x = 2) (auths store_auth) = c # cs \<and> auth_peeruser c \<noteq> [])"
    by (simp add: target_chap_def store_auth_def store_portal_def store0_def)
  have n: "''iscsi_target_create'' @ ''.groups.'' @ str_nat 0 @ ''.auth'' = ''iscsi_target_create.groups.0.auth''"
    by code_simp
  from chap_requires_auth [OF i0, where schema = "''iscsi_target_create''" and e = env0
      and s = store_auth and old = None] g0
  have a: "(''iscsi_target_create'' @ ''.groups.'' @ str_nat 0 @ ''.auth'',
        ''Authentication group is required for CHAP and CHAP Mutual'', EINVAL)
        \<in> set (target_validate env0 store_auth target_chap ''iscsi_target_create'' None)
      \<and> target_do_create env0 target_chap store_auth
        = (Inl (ValidationErrors (target_validate env0 store_auth target_chap ''iscsi_target_create'' None)),
           store_auth)"
    by blast
  from chap_requires_auth [OF i1, where schema = "''iscsi_target_create''" and e = env0
      and s = store_auth and old = None and a = 1] g1
  have b: "\<exists>msg en. (''iscsi_target_create'' @ ''.groups.'' @ str_nat 1 @ ''.auth'', msg, en)
        \<in> set (target_validate env0 store_auth target_chap ''iscsi_target_create'' None)"
    by blast
  from chap_requires_auth [OF i2, where schema = "''iscsi_target_create''" and e = env0
      and s = store_auth and old = None and a = 2] g2
  have c: "group_auth_errors store_auth ''iscsi_target_create'' 2 (t_groups target_chap ! 2) = []"
    by blast
  from len n a b c show ?thesis by blast
qed

subsection \<open>The usage guard of an authorized access\<close>

lemma in_use_no_portals:
  assumes "filter (\<lambda>x. auth_id x = pk) (auths s) = r # rs" "portals_using s (auth_tag r) = []"
  shows "\<exists>msg. is_in_use_by_portals_targets s pk = Inr (groups_using s (auth_tag r) \<noteq> [], msg)"
  using assms by (simp add: is_in_use_by_portals_targets_def auth_get_instance_def Let_def)

text \<open>
  C8, as the code has it. For a credential \<open>r\<close> with id \<open>pk\<close>: when another credential
  has the same tag, a delete goes through. When none has, and no portal uses the tag, a
  delete is refused with a \<open>CallError\<close> and the store left as it is if a target group uses
  the tag, and goes through if none does. An update that changes the tag is, in the same
  way, refused with an error on \<open>tag\<close> when no other credential has the old tag and a
  target group uses it; it goes through, given that the secrets are valid, when another
  credential has the old tag or when neither a portal nor a group uses it.
\<close>

theorem auth_usage_guard:
  assumes "filter (\<lambda>x. auth_id x = pk) (auths s) = r # rs"
  shows "(others_with_tag s r \<noteq> [] \<longrightarrow> auth_do_delete pk s = (Inr (), delete_auth pk s))
       \<and> (others_with_tag s r = [] \<and> portals_using s (auth_tag r) = []
            \<and> groups_using s (auth_tag r) \<noteq> []
          \<longrightarrow> (\<exists>msg. auth_do_delete pk s = (Inl (CallError msg), s)))
       \<and> (others_with_tag s r = [] \<and> portals_using s (auth_tag r) = []
            \<and> groups_using s (auth_tag r) = []
          \<longrightarrow> auth_do_delete pk s = (Inr (), delete_auth pk s))
       \<and> (auth_tag (auth_merge r data) \<noteq> auth_tag r
            \<and> others_with_tag s r = [] \<and> portals_using s (auth_tag r) = []
            \<and> groups_using s (auth_tag r) \<noteq> []
          \<longrightarrow> (\<exists>v msg. auth_do_update pk data s = (Inl (ValidationErrors v), s)
                \<and> (''iscsi_auth_update.tag'', msg, EINVAL) \<in> set v))
       \<and> (auth_tag (auth_merge r data) \<noteq> auth_tag r
            \<and> (others_with_tag s r \<noteq> []
                \<or> portals_using s (auth_tag r) = [] \<and> groups_using s (auth_tag r) = [])
            \<and> auth_validate (auth_merge r data) ''iscsi_auth_update'' = []
          \<longrightarrow> auth_do_update pk data s
                = (Inr pk, service_change ''iscsitarget'' ''reload'' (update_auth pk (auth_merge r data) s)))"
proof -
  have gi: "auth_get_instance s pk = Inr r" using assms by (simp add: auth_get_instance_def)
  have a: "others_with_tag s r \<noteq> [] \<longrightarrow> auth_do_delete pk s = (Inr (), delete_auth pk s)"
    using gi by (simp add: auth_do_delete_def)
  have b: "others_with_tag s r = [] \<and> portals_using s (auth_tag r) = []
            \<and> groups_using s (auth_tag r) \<noteq> []
          \<longrightarrow> (\<exists>msg. auth_do_delete pk s = (Inl (CallError msg), s))"
  proof
    assume h: "others_with_tag s r = [] \<and> portals_using s (auth_tag r) = []
            \<and> groups_using s (auth_tag r) \<noteq> []"
    with in_use_no_portals[OF assms] obtain msg where
      "is_in_use_by_portals_targets s pk = Inr (True, msg)" by auto
    with gi h show "\<exists>msg. auth_do_delete pk s = (Inl (CallError msg), s)"
      by (simp add: auth_do_delete_def)
  qed
  have c: "others_with_tag s r = [] \<and> portals_using s (auth_tag r) = []
            \<and> groups_using s (auth_tag r) = []
          \<longrightarrow> auth_do_delete pk s = (Inr (), delete_auth pk s)"
  proof
    assume h: "others_with_tag s r = [] \<and> portals_using s (auth_tag r) = []
            \<and> groups_using s (auth_tag r) = []"
    with in_use_no_portals[OF assms] obtain msg where
      "is_in_use_by_portals_targets s pk = Inr (False, msg)" by auto
    with gi h show "auth_do_delete pk s = (Inr (), delete_auth pk s)"
      by (simp add: auth_do_delete_def)
  qed
  have d: "auth_tag (auth_merge r data) \<noteq> auth_tag r
            \<and> others_with_tag s r = [] \<and> portals_using s (auth_tag r) = []
            \<and> groups_using s (auth_tag r) \<noteq> []
          \<longrightarrow> (\<exists>v msg. auth_do_update pk data s = (Inl (ValidationErrors v), s)
                \<and> (''iscsi_auth_update.tag'', msg, EINVAL) \<in> set v)"
  proof
    assume h: "auth_tag (auth_merge r data) \<noteq> auth_tag r
            \<and> others_with_tag s r = [] \<and> portals_using s (auth_tag r) = []
            \<and> groups_using s (auth_tag r) \<noteq> []"
    with in_use_no_portals[OF assms] obtain msg where
      u: "is_in_use_by_portals_targets s pk = Inr (True, msg)" by auto
    let ?v = "auth_validate (auth_merge r data) ''iscsi_auth_update'' @ [(''iscsi_auth_update.tag'', msg, EINVAL)]"
    have "auth_do_update pk data s = (Inl (ValidationErrors ?v), s)"
      using gi h u by (simp add: auth_do_update_def Let_def)
    then show "\<exists>v msg. auth_do_update pk data s = (Inl (ValidationErrors v), s)
                \<and> (''iscsi_auth_update.tag'', msg, EINVAL) \<in> set v"
      by (intro exI[of _ ?v] exI[of _ msg]) simp
  qed
  have e: "auth_tag (auth_merge r data) \<noteq> auth_tag r
            \<and> (others_with_tag s r \<noteq> []
                \<or> portals_using s (auth_tag r) = [] \<and> groups_using s (auth_tag r) = [])
            \<and> auth_validate (auth_merge r data) ''iscsi_auth_update'' = []
          \<longrightarrow> auth_do_update pk data s
                = (Inr pk, service_change ''iscsitarget'' ''reload'' (update_auth pk (auth_merge r data) s))"
  proof
    assume h: "auth_tag (auth_merge r data) \<noteq> auth_tag r
            \<and> (others_with_tag s r \<noteq> []
                \<or> portals_using s (auth_tag r) = [] \<and> groups_using s (auth_tag r) = [])
            \<and> auth_validate (auth_merge r data) ''iscsi_auth_update'' = []"
    show "auth_do_update pk data s
                = (Inr pk, service_change ''iscsitarget'' ''reload'' (update_auth pk (auth_merge r data) s))"
    proof (cases "others_with_tag s r = []")
      case False
      with gi h show ?thesis by (simp add: auth_do_update_def Let_def)
    next
      case True
      with h in_use_no_portals[OF assms] obtain msg where
        "is_in_use_by_portals_targets s pk = Inr (False, msg)" by auto
      with gi h True show ?thesis by (simp add: auth_do_update_def Let_def)
    qed
  qed
  from a b c d e show ?thesis by blast
qed
lemmas creds_eval = store_creds_def store_group_def store_portal_def store0_def others_with_tag_def
    portals_using_def groups_using_def portal_config_extend_def

theorem auth_usage_guard_witness:
  "filter (\<lambda>x. auth_id x = 3) (auths store_creds) = [auths store_creds ! 2]
   \<and> others_with_tag store_creds (auths store_creds ! 2) = []
   \<and> portals_using store_creds (auth_tag (auths store_creds ! 2)) = []
   \<and> groups_using store_creds (auth_tag (auths store_creds ! 2)) \<noteq> []
   \<and> (\<exists>msg. auth_do_delete 3 store_creds = (Inl (CallError msg), store_creds))
   \<and> (\<exists>v msg. auth_do_update 3 \<lparr>ap_tag = Some 5, ap_user = None, ap_secret = None,
                    ap_peeruser = None, ap_peersecret = None\<rparr> store_creds
                 = (Inl (ValidationErrors v), store_creds)
          \<and> (''iscsi_auth_update.tag'', msg, EINVAL) \<in> set v)
   \<and> filter (\<lambda>x. auth_id x = 1) (auths store_creds) = [auths store_creds ! 0]
   \<and> others_with_tag store_creds (auths store_creds ! 0) \<noteq> []
   \<and> auth_do_delete 1 store_creds = (Inr (), delete_auth 1 store_creds)
   \<and> fst (auth_do_update 1 \<lparr>ap_tag = Some 5, ap_user = None, ap_secret = None,
                    ap_peeruser = None, ap_peersecret = None\<rparr> store_creds) = Inr 1
   \<and> filter (\<lambda>x. auth_id x = 4) (auths store_creds) = [auths store_creds ! 3]
   \<and> others_with_tag store_creds (auths store_creds ! 3) = []
   \<and> groups_using store_creds (auth_tag (auths store_creds ! 3)) = []
   \<and> auth_do_delete 4 store_creds = (Inr (), delete_auth 4 store_creds)"
proof -
  let ?p = "\<lparr>ap_tag = Some 5, ap_user = None, ap_secret = None,
                    ap_peeruser = None, ap_peersecret = None\<rparr>"
  have f3: "filter (\<lambda>x. auth_id x = 3) (auths store_creds) = auths store_creds ! 2 # []"
    by (simp add: creds_eval)
  have f1: "filter (\<lambda>x. auth_id x = 1) (auths store_creds) = auths store_creds ! 0 # []"
    by (simp add: creds_eval)
  have h3: "others_with_tag store_creds (auths store_creds ! 2) = []"
    "portals_using store_creds (auth_tag (auths store_creds ! 2)) = []"
    "groups_using store_creds (auth_tag (auths store_creds ! 2)) \<noteq> []"
    "auth_tag (auth_merge (auths store_creds ! 2) ?p) \<noteq> auth_tag (auths store_creds ! 2)"
    by (simp_all add: creds_eval auth_merge_def)
  have h1: "others_with_tag store_creds (auths store_creds ! 0) \<noteq> []"
    "auth_tag (auth_merge (auths store_creds ! 0) ?p) \<noteq> auth_tag (auths store_creds ! 0)"
    "auth_validate (auth_merge (auths store_creds ! 0) ?p) ''iscsi_auth_update'' = []"
    by (simp_all add: creds_eval auth_merge_def auth_validate_def)
  note g3 = auth_usage_guard [OF f3, of ?p]
  note g1 = auth_usage_guard [OF f1, of ?p]
  from g3 h3 have a: "\<exists>msg. auth_do_delete 3 store_creds = (Inl (CallError msg), store_creds)"
    by blast
  from g3 h3 have b: "\<exists>v msg. auth_do_update 3 ?p store_creds = (Inl (ValidationErrors v), store_creds)
          \<and> (''iscsi_auth_update.tag'', msg, EINVAL) \<in> set v"
    by blast
  from g1 h1 have c: "auth_do_delete 1 store_creds = (Inr (), delete_auth 1 store_creds)"
    by blast
  from g1 h1 have "auth_do_update 1 ?p store_creds
       = (Inr 1, service_change ''iscsitarget'' ''reload''
            (update_auth 1 (auth_merge (auths store_creds ! 0) ?p) store_creds))"
    by blast
  then have d: "fst (auth_do_update 1 ?p store_creds) = Inr 1" by simp
  have f4: "filter (\<lambda>x. auth_id x = 4) (auths store_creds) = auths store_creds ! 3 # []"
    by (simp add: creds_eval)
  have h4: "others_with_tag store_creds (auths store_creds ! 3) = []"
    "portals_using store_creds (auth_tag (auths store_creds ! 3)) = []"
    "groups_using store_creds (auth_tag (auths store_creds ! 3)) = []"
    by (simp_all add: creds_eval)
  from auth_usage_guard [OF f4, of ?p] h4
  have e: "auth_do_delete 4 store_creds = (Inr (), delete_auth 4 store_creds)"
    by blast
  from f3 f1 h3 h1 a b c d f4 h4 e show ?thesis by simp
qed

text \<open>
  C8, as the specification states it, fails in both directions. The credential 1 shares its tag with
  the credential 2 and a target group uses the tag: the delete goes through. The credential
  3 is the only one with its tag and a target group uses the tag: the delete is refused.
\<close>

theorem auth_guard_counterexample:
  "groups_using store_creds (auth_tag (auths store_creds ! 0)) \<noteq> []
   \<and> others_with_tag store_creds (auths store_creds ! 0) \<noteq> []
   \<and> fst (auth_do_delete 1 store_creds) = Inr ()
   \<and> groups_using store_creds (auth_tag (auths store_creds ! 2)) \<noteq> []
   \<and> others_with_tag store_creds (auths store_creds ! 2) = []
   \<and> fst (auth_do_delete 3 store_creds)
       = Inl (CallError ''Authorized access of 3 is being used by following target(s): 2'')"
  by code_simp

subsection \<open>Serial allocation\<close>

lemma upt_five: "[0..<5] = [0, 1, 2, 3, 4]"
  by code_simp

lemma serial_loop_first:
  "\<forall>j\<in>set pre. take 15 (rnd j) \<in> set used \<and> j < tries - 1 \<Longrightarrow>
   take 15 (rnd k) \<notin> set used \<Longrightarrow>
   serial_loop rnd used tries (pre @ k # post) ser = Inr (Some (take 15 (rnd k)))"
  by (induction pre arbitrary: ser) (simp_all add: Let_def)

lemma serial_first_free:
  assumes "k < 5" "\<forall>j<k. take 15 (token_hex e j) \<in> set (map extent_row_serial (extents s))"
    "take 15 (token_hex e k) \<notin> set (map extent_row_serial (extents s))"
  shows "extent_serial e s None = Inr (Some (take 15 (token_hex e k)))"
proof -
  have split5: "[0..<5] = [0..<k] @ k # [Suc k..<5]"
    using assms(1) by (metis le_add2 le_add_same_cancel2 less_imp_add_positive upt_add_eq_append
        upt_conv_Cons zero_le)
  have pre: "\<forall>j\<in>set [0..<k]. take 15 (token_hex e j) \<in> set (map extent_row_serial (extents s))
      \<and> j < 5 - 1"
    using assms(1,2) by auto
  show ?thesis unfolding extent_serial_def split5
    using serial_loop_first[OF pre assms(3)] by simp
qed

lemma serial_exhausted:
  assumes "\<forall>j<5. take 15 (token_hex e j) \<in> set (map extent_row_serial (extents s))"
  shows "extent_serial e s None = Inl (CallError ''Failed to generate a random extent serial'')"
proof -
  from assms have c: "take 15 (token_hex e 0) \<in> set (map extent_row_serial (extents s))"
    "take 15 (token_hex e 1) \<in> set (map extent_row_serial (extents s))"
    "take 15 (token_hex e 2) \<in> set (map extent_row_serial (extents s))"
    "take 15 (token_hex e 3) \<in> set (map extent_row_serial (extents s))"
    "take 15 (token_hex e 4) \<in> set (map extent_row_serial (extents s))"
    by simp_all
  show ?thesis unfolding extent_serial_def upt_five using c by (simp add: Let_def)
qed

lemma serial_loop_shape:
  "serial_loop rnd used tries is ser = Inr (Some x) \<Longrightarrow>
   ser = Some x \<or> (\<exists>i. x = take 15 (rnd i))"
  by (induction "is" arbitrary: ser) (auto simp: Let_def split: if_splits)

lemma serial_is_hex:
  assumes "\<forall>i. 15 \<le> length (token_hex e i) \<and> list_all is_hex (token_hex e i)"
    "extent_serial e s None = Inr (Some x)"
  shows "length x = 15 \<and> list_all is_hex x"
proof -
  from assms(2) serial_loop_shape[of "token_hex e" _ 5 "[0..<5]" None x]
  obtain i where x: "x = take 15 (token_hex e i)" by (auto simp: extent_serial_def)
  from assms(1) have "15 \<le> length (token_hex e i)" "list_all is_hex (token_hex e i)" by simp_all
  then show ?thesis unfolding x by (auto simp: list_all_iff dest: in_set_takeD)
qed

lemma extent_do_create_serial:
  assumes "extent_serial e s None = Inr (Some c)"
      and "extent_do_create e (d\<lparr>e_serial := None\<rparr>) s = (Inr pk, s')"
  shows "\<exists>r. extents s' = extents s @ [r] \<and> extent_id r = pk \<and> extent_row_serial r = c"
  using assms
  by (auto simp: extent_do_create_def extent_validate_def extent_columns_def insert_extent_def
        logged_def Let_def split: sum.splits if_splits)

lemma update_extent_row:
  "x \<in> set (extents (update_extent pk new s)) \<Longrightarrow> extent_id x = pk \<Longrightarrow> x = new"
  by (auto simp: update_extent_def logged_def)

lemma extent_do_update_ok:
  assumes "extent_do_update e pk data s = (Inr k', s')"
  shows "\<exists>r rs serial d2.
           filter (\<lambda>x. extent_id x = pk) (extents s) = r # rs
         \<and> extent_serial e s (e_serial (extent_merge (extent_extend r) data)) = Inr (Some serial)
         \<and> extents s' = extents (update_extent pk
               ((extent_columns d2 serial (extent_vendor r))\<lparr>extent_id := pk\<rparr>) s)"
proof -
  from assms obtain r rs where f: "filter (\<lambda>x. extent_id x = pk) (extents s) = r # rs"
    by (cases "filter (\<lambda>x. extent_id x = pk) (extents s)") (auto simp: extent_do_update_def)
  let ?new = "extent_merge (extent_extend r) data"
  from assms f obtain d1 where v: "extent_validate e s ?new = Inr d1"
    by (cases "extent_validate e s ?new") (auto simp: extent_do_update_def Let_def)
  from assms f v obtain serial where sr: "e_serial d1 = Some serial"
    by (cases "e_serial d1") (auto simp: extent_do_update_def Let_def)
  from v sr have es: "extent_serial e s (e_serial ?new) = Inr (Some serial)"
    by (auto simp: extent_validate_def split: sum.splits)
  from assms f v sr obtain d2 where
    "s' = service_change ''iscsitarget'' ''reload''
            (update_extent pk ((extent_columns d2 serial (extent_vendor r))\<lparr>extent_id := pk\<rparr>) s)"
    by (auto simp: extent_do_update_def Let_def split: sum.splits if_splits)
  then have "extents s' = extents (update_extent pk
               ((extent_columns d2 serial (extent_vendor r))\<lparr>extent_id := pk\<rparr>) s)"
    by (simp add: service_change_def)
  with f es show ?thesis by blast
qed

lemma extent_do_update_serial_null:
  assumes "extent_serial e s None = Inr (Some c)" "xp_serial data = Some None"
      and "extent_do_update e pk data s = (Inr k', s')"
  shows "\<forall>x\<in>set (extents s'). extent_id x = pk \<longrightarrow> extent_row_serial x = c"
proof -
  from extent_do_update_ok[OF assms(3)] obtain r rs serial d2 where
    f: "filter (\<lambda>x. extent_id x = pk) (extents s) = r # rs"
    and es: "extent_serial e s (e_serial (extent_merge (extent_extend r) data)) = Inr (Some serial)"
    and x: "extents s' = extents (update_extent pk
               ((extent_columns d2 serial (extent_vendor r))\<lparr>extent_id := pk\<rparr>) s)"
    by blast
  from es assms(1,2) have c: "serial = c" by (simp add: extent_merge_def)
  show ?thesis
  proof (intro ballI impI)
    fix y assume "y \<in> set (extents s')" "extent_id y = pk"
    then have "y = (extent_columns d2 serial (extent_vendor r))\<lparr>extent_id := pk\<rparr>"
      unfolding x by (rule update_extent_row)
    then show "extent_row_serial y = c" using c by (simp add: extent_columns_def)
  qed
qed

lemma extent_update_keeps_serial:
  assumes "filter (\<lambda>x. extent_id x = pk) (extents s) = r # rs" "xp_serial data = None"
  shows "extent_serial e s (e_serial (extent_merge (extent_extend r) data))
           = Inr (Some (extent_row_serial r))"
    and "fst (extent_do_update e pk data s)
           \<noteq> Inl (CallError ''Failed to generate a random extent serial'')"
    and "extent_do_update e pk data s = (Inr k', s') \<Longrightarrow>
           \<forall>x\<in>set (extents s'). extent_id x = pk \<longrightarrow> extent_row_serial x = extent_row_serial r"
proof -
  show v: "extent_serial e s (e_serial (extent_merge (extent_extend r) data))
           = Inr (Some (extent_row_serial r))"
    using assms(2) by (simp add: extent_serial_def extent_merge_def extent_extend_def)
  have cl: "clean_type_and_path e d sch vs \<noteq> Inl (CallError m)" for d sch vs m
    by (simp add: clean_type_and_path_def Let_def)
  have sv: "extent_save e d \<noteq> Inl (CallError ''Failed to generate a random extent serial'')" for d
    by (simp add: extent_save_def split: option.splits)
  show "fst (extent_do_update e pk data s)
           \<noteq> Inl (CallError ''Failed to generate a random extent serial'')"
    using assms(1) v cl sv
    by (auto simp: extent_do_update_def extent_validate_def extent_clean_def Let_def
          split: sum.splits option.splits if_splits)
  assume u: "extent_do_update e pk data s = (Inr k', s')"
  from extent_do_update_ok[OF u] assms(1) obtain serial d2 where
    es: "extent_serial e s (e_serial (extent_merge (extent_extend r) data)) = Inr (Some serial)"
    and x: "extents s' = extents (update_extent pk
               ((extent_columns d2 serial (extent_vendor r))\<lparr>extent_id := pk\<rparr>) s)"
    by auto
  from es v have c: "serial = extent_row_serial r" by simp
  show "\<forall>x\<in>set (extents s'). extent_id x = pk \<longrightarrow> extent_row_serial x = extent_row_serial r"
  proof (intro ballI impI)
    fix y assume "y \<in> set (extents s')" "extent_id y = pk"
    then have "y = (extent_columns d2 serial (extent_vendor r))\<lparr>extent_id := pk\<rparr>"
      unfolding x by (rule update_extent_row)
    then show "extent_row_serial y = extent_row_serial r" using c by (simp add: extent_columns_def)
  qed
qed

text \<open>
  C7, as the code has it. With no serial given, \<open>extent_serial\<close> tries the first 15
  characters of up to five values of \<open>token_hex\<close>: the first of them that no extent has as
  serial is returned, and when all five are taken the call fails with \<open>Failed to generate
  a random extent serial\<close>. An Extent create with no serial, and an update that sets the
  serial to null, then fail with that error and leave the store as it was; when they
  succeed, the row they write has the serial that was returned. When \<open>token_hex\<close> gives
  hexadecimal strings of 15 characters or more, a serial that is returned has 15
  hexadecimal characters. An update that gives no serial runs \<open>extent_serial\<close> on the
  stored serial, which comes back as it is: the update never fails with that error, and
  the row keeps its serial.
\<close>

theorem serial_retry:
  "(k < 5 \<and> (\<forall>j<k. take 15 (token_hex e j) \<in> set (map extent_row_serial (extents s)))
      \<and> take 15 (token_hex e k) \<notin> set (map extent_row_serial (extents s))
    \<longrightarrow> extent_serial e s None = Inr (Some (take 15 (token_hex e k)))
        \<and> (extent_do_create e (d\<lparr>e_serial := None\<rparr>) s = (Inr ck, cs)
            \<longrightarrow> (\<exists>r. extents cs = extents s @ [r] \<and> extent_id r = ck
                    \<and> extent_row_serial r = take 15 (token_hex e k)))
        \<and> (xp_serial data = Some None \<and> extent_do_update e pk data s = (Inr uk, us)
            \<longrightarrow> (\<forall>r\<in>set (extents us). extent_id r = pk
                    \<longrightarrow> extent_row_serial r = take 15 (token_hex e k))))
   \<and> ((\<forall>j<5. take 15 (token_hex e j) \<in> set (map extent_row_serial (extents s)))
    \<longrightarrow> extent_serial e s None = Inl (CallError ''Failed to generate a random extent serial'')
        \<and> extent_do_create e (d\<lparr>e_serial := None\<rparr>) s
            = (Inl (CallError ''Failed to generate a random extent serial''), s)
        \<and> (filter (\<lambda>r. extent_id r = pk) (extents s) \<noteq> [] \<and> xp_serial data = Some None
            \<longrightarrow> extent_do_update e pk data s
                  = (Inl (CallError ''Failed to generate a random extent serial''), s)))
   \<and> ((\<forall>i. 15 \<le> length (token_hex e i) \<and> list_all is_hex (token_hex e i))
        \<and> extent_serial e s None = Inr (Some x)
    \<longrightarrow> length x = 15 \<and> list_all is_hex x)
   \<and> (filter (\<lambda>r. extent_id r = pk) (extents s) = row # rows \<and> xp_serial kept = None
    \<longrightarrow> extent_serial e s (e_serial (extent_merge (extent_extend row) kept))
          = Inr (Some (extent_row_serial row))
        \<and> fst (extent_do_update e pk kept s)
          \<noteq> Inl (CallError ''Failed to generate a random extent serial'')
        \<and> (extent_do_update e pk kept s = (Inr kk, ks)
            \<longrightarrow> (\<forall>r\<in>set (extents ks). extent_id r = pk
                    \<longrightarrow> extent_row_serial r = extent_row_serial row)))"
proof (intro conjI impI)
  assume h: "k < 5 \<and> (\<forall>j<k. take 15 (token_hex e j) \<in> set (map extent_row_serial (extents s)))
      \<and> take 15 (token_hex e k) \<notin> set (map extent_row_serial (extents s))"
  then show f: "extent_serial e s None = Inr (Some (take 15 (token_hex e k)))"
    using serial_first_free[of k e s] by blast
  {
    assume "extent_do_create e (d\<lparr>e_serial := None\<rparr>) s = (Inr ck, cs)"
    with f show "\<exists>r. extents cs = extents s @ [r] \<and> extent_id r = ck
                    \<and> extent_row_serial r = take 15 (token_hex e k)"
      by (rule extent_do_create_serial)
  }
  {
    assume "xp_serial data = Some None \<and> extent_do_update e pk data s = (Inr uk, us)"
    with f show "\<forall>r\<in>set (extents us). extent_id r = pk
                    \<longrightarrow> extent_row_serial r = take 15 (token_hex e k)"
      using extent_do_update_serial_null[of e s "take 15 (token_hex e k)" data pk uk us] by blast
  }
next
  assume a: "\<forall>j<5. take 15 (token_hex e j) \<in> set (map extent_row_serial (extents s))"
  then show x: "extent_serial e s None = Inl (CallError ''Failed to generate a random extent serial'')"
    by (rule serial_exhausted)
  then show "extent_do_create e (d\<lparr>e_serial := None\<rparr>) s
            = (Inl (CallError ''Failed to generate a random extent serial''), s)"
    by (simp add: extent_do_create_def extent_validate_def)
  assume u: "filter (\<lambda>r. extent_id r = pk) (extents s) \<noteq> [] \<and> xp_serial data = Some None"
  then obtain r rs where "filter (\<lambda>r. extent_id r = pk) (extents s) = r # rs"
    by (cases "filter (\<lambda>r. extent_id r = pk) (extents s)") auto
  with u x show "extent_do_update e pk data s
                  = (Inl (CallError ''Failed to generate a random extent serial''), s)"
    by (simp add: extent_do_update_def extent_validate_def extent_merge_def Let_def)
next
  assume "(\<forall>i. 15 \<le> length (token_hex e i) \<and> list_all is_hex (token_hex e i))
        \<and> extent_serial e s None = Inr (Some x)"
  then show "length x = 15" "list_all is_hex x" using serial_is_hex[of e s x] by blast+
next
  assume h: "filter (\<lambda>r. extent_id r = pk) (extents s) = row # rows \<and> xp_serial kept = None"
  then have f: "filter (\<lambda>r. extent_id r = pk) (extents s) = row # rows" and n: "xp_serial kept = None"
    by simp_all
  show "extent_serial e s (e_serial (extent_merge (extent_extend row) kept))
          = Inr (Some (extent_row_serial row))"
    by (rule extent_update_keeps_serial(1)[OF f n])
  show "fst (extent_do_update e pk kept s)
          \<noteq> Inl (CallError ''Failed to generate a random extent serial'')"
    by (rule extent_update_keeps_serial(2)[OF f n])
  assume "extent_do_update e pk kept s = (Inr kk, ks)"
  then show "\<forall>r\<in>set (extents ks). extent_id r = pk
                    \<longrightarrow> extent_row_serial r = extent_row_serial row"
    by (rule extent_update_keeps_serial(3)[OF f n])
qed

lemmas extent_eval = extent_serial_def upt_five store_extent_def store_group_def store_portal_def
    store0_def env0_def env_fifth_def extent0_def Let_def

lemmas update_eval = extent_do_update_def extent_do_create_def insert_extent_def fresh_id_def
    extent_validate_def extent_serial_def upt_five
    extent_naa_def extent_extend_def extent_merge_def extent_clean_def clean_name_def
    clean_type_and_path_def clean_size_def extent_save_def extent_columns_def update_extent_def
    truthy_str_def startswith_def service_change_def logged_def
    store_extent_def store_group_def store_portal_def store0_def env0_def env_fifth_def extent0_def
    serial_null_def serial_absent_def Let_def

theorem serial_retry_witness:
  "(4::nat) < 5
   \<and> take 15 (token_hex env_fifth 3) \<in> set (map extent_row_serial (extents store_extent))
   \<and> take 15 (token_hex env_fifth 4) \<notin> set (map extent_row_serial (extents store_extent))
   \<and> extent_serial env_fifth store_extent None = Inr (Some ''fedcba987654321'')
   \<and> length ''fedcba987654321'' = 15 \<and> list_all is_hex ''fedcba987654321''
   \<and> extent_do_create env_fifth extent0 store_extent
       = (Inr 2, snd (extent_do_create env_fifth extent0 store_extent))
   \<and> (\<exists>r. extents (snd (extent_do_create env_fifth extent0 store_extent)) = extents store_extent @ [r]
          \<and> extent_id r = 2 \<and> extent_row_serial r = ''fedcba987654321'')
   \<and> xp_serial serial_null = Some None
   \<and> extent_do_update env_fifth 1 serial_null store_extent
       = (Inr 1, snd (extent_do_update env_fifth 1 serial_null store_extent))
   \<and> map extent_id (extents (snd (extent_do_update env_fifth 1 serial_null store_extent))) = [1]
   \<and> map extent_row_serial (extents (snd (extent_do_update env_fifth 1 serial_null store_extent)))
       = [''fedcba987654321'']
   \<and> take 15 (token_hex env0 4) \<in> set (map extent_row_serial (extents store_extent))
   \<and> extent_serial env0 store_extent None
       = Inl (CallError ''Failed to generate a random extent serial'')
   \<and> extent_do_create env0 extent0 store_extent
       = (Inl (CallError ''Failed to generate a random extent serial''), store_extent)
   \<and> filter (\<lambda>r. extent_id r = 1) (extents store_extent) = [hd (extents store_extent)]
   \<and> extent_do_update env0 1 serial_null store_extent
       = (Inl (CallError ''Failed to generate a random extent serial''), store_extent)
   \<and> xp_serial serial_absent = None
   \<and> extent_serial env0 store_extent
         (e_serial (extent_merge (extent_extend (hd (extents store_extent))) serial_absent))
       = Inr (Some ''0123456789abcde'')
   \<and> extent_do_update env0 1 serial_absent store_extent
       = (Inr 1, snd (extent_do_update env0 1 serial_absent store_extent))
   \<and> map extent_id (extents (snd (extent_do_update env0 1 serial_absent store_extent))) = [1]
   \<and> map extent_row_serial (extents (snd (extent_do_update env0 1 serial_absent store_extent)))
       = [''0123456789abcde'']"
proof -
  let ?used = "set (map extent_row_serial (extents store_extent))"
  let ?row = "hd (extents store_extent)"
  let ?cs = "snd (extent_do_create env_fifth extent0 store_extent)"
  let ?us = "snd (extent_do_update env_fifth 1 serial_null store_extent)"
  let ?ks = "snd (extent_do_update env0 1 serial_absent store_extent)"
  have k: "(4::nat) < 5" by simp
  have pre: "\<forall>j<4. take 15 (token_hex env_fifth j) \<in> ?used"
    by (simp add: extent_eval)
  have c3: "take 15 (token_hex env_fifth 3) \<in> ?used" by (simp add: extent_eval)
  have free: "take 15 (token_hex env_fifth 4) \<notin> ?used" by (simp add: extent_eval)
  have v: "take 15 (token_hex env_fifth 4) = ''fedcba987654321''" by (simp add: extent_eval)
  have all: "\<forall>j<5. take 15 (token_hex env0 j) \<in> ?used" by (simp add: extent_eval)
  have c4: "take 15 (token_hex env0 4) \<in> ?used" by (simp add: extent_eval)
  have hex: "\<forall>i. 15 \<le> length (token_hex env_fifth i) \<and> list_all is_hex (token_hex env_fifth i)"
    by (simp add: extent_eval is_hex_def)
  have f: "filter (\<lambda>r. extent_id r = 1) (extents store_extent) = ?row # []"
    by (simp add: extent_eval)
  then have ex: "filter (\<lambda>r. extent_id r = 1) (extents store_extent) \<noteq> []" by simp
  have px: "xp_serial serial_null = Some None" by (simp add: serial_null_def)
  have pn: "xp_serial serial_absent = None" by (simp add: serial_absent_def)
  have d0: "extent0\<lparr>e_serial := None\<rparr> = extent0" by (simp add: extent0_def)
  have rs: "extent_row_serial ?row = ''0123456789abcde''" by (simp add: extent_eval)
  have "fst (extent_do_create env_fifth extent0 store_extent) = Inr 2"
    by (simp add: update_eval)
  then have cr: "extent_do_create env_fifth (extent0\<lparr>e_serial := None\<rparr>) store_extent = (Inr 2, ?cs)"
    unfolding d0 by (metis prod.collapse)
  have "fst (extent_do_update env_fifth 1 serial_null store_extent) = Inr 1"
    by (simp add: update_eval)
  then have un: "extent_do_update env_fifth 1 serial_null store_extent = (Inr 1, ?us)"
    by (metis prod.collapse)
  have uid: "map extent_id (extents ?us) = [1]" by (simp add: update_eval)
  have "fst (extent_do_update env0 1 serial_absent store_extent) = Inr 1"
    by (simp add: update_eval)
  then have uk: "extent_do_update env0 1 serial_absent store_extent = (Inr 1, ?ks)"
    by (metis prod.collapse)
  have kid: "map extent_id (extents ?ks) = [1]" by (simp add: update_eval)
  note t1 = serial_retry [where k = 4 and e = env_fifth and s = store_extent and d = extent0
      and ck = 2 and cs = ?cs and data = serial_null and pk = 1 and uk = 1 and us = ?us
      and x = "''fedcba987654321''" and row = ?row and rows = "[]" and kept = serial_absent
      and kk = 1 and ks = ?ks]
  note t2 = serial_retry [where k = 4 and e = env0 and s = store_extent and d = extent0
      and ck = 2 and cs = ?cs and data = serial_null and pk = 1 and uk = 1 and us = ?us
      and x = "''fedcba987654321''" and row = ?row and rows = "[]" and kept = serial_absent
      and kk = 1 and ks = ?ks]
  have h1: "(4::nat) < 5 \<and> (\<forall>j<4. take 15 (token_hex env_fifth j) \<in> ?used)
      \<and> take 15 (token_hex env_fifth 4) \<notin> ?used"
    by (intro conjI k pre free)
  note r1 = t1 [THEN conjunct1, THEN mp, OF h1, unfolded v]
  note a = r1 [THEN conjunct1]
  note cw = r1 [THEN conjunct2, THEN conjunct1, THEN mp, OF cr]
  note ua = r1 [THEN conjunct2, THEN conjunct2, THEN mp, OF conjI [OF px un]]
  note b = t1 [THEN conjunct2, THEN conjunct2, THEN conjunct1, THEN mp, OF conjI [OF hex a]]
  from uid obtain y where y: "extents ?us = [y]" "extent_id y = 1"
    by (cases "extents ?us") auto
  from ua y have "extent_row_serial y = ''fedcba987654321''" by simp
  with y have uw: "map extent_row_serial (extents ?us) = [''fedcba987654321'']" by simp
  note r2 = t2 [THEN conjunct2, THEN conjunct1, THEN mp, OF all]
  note c = r2 [THEN conjunct1]
  note cc = r2 [THEN conjunct2, THEN conjunct1, unfolded d0]
  note d = r2 [THEN conjunct2, THEN conjunct2, THEN mp, OF conjI [OF ex px]]
  note r3 = t2 [THEN conjunct2, THEN conjunct2, THEN conjunct2, THEN mp, OF conjI [OF f pn],
      unfolded rs]
  note ke = r3 [THEN conjunct1]
  note ka = r3 [THEN conjunct2, THEN conjunct2, THEN mp, OF uk]
  from kid obtain z where z: "extents ?ks = [z]" "extent_id z = 1"
    by (cases "extents ?ks") auto
  from ka z have "extent_row_serial z = ''0123456789abcde''" by simp
  with z have kw: "map extent_row_serial (extents ?ks) = [''0123456789abcde'']" by simp
  show ?thesis
    by (intro conjI k c3 free a b [THEN conjunct1] b [THEN conjunct2] cr [unfolded d0] cw
        px un uid uw c4 c cc f d pn ke uk kid kw)
qed

text \<open>
  C7, as the specification states it, fails for an update that gives no serial: every one
  of the five candidates is the serial of extent 1, and the update of extent 1 that sends
  no serial succeeds; the row keeps the serial it had and none is generated.
\<close>

theorem update_keeps_serial_counterexample:
  "xp_serial serial_absent = None
   \<and> list_all (\<lambda>j. take 15 (token_hex env0 j) \<in> set (map extent_row_serial (extents store_extent)))
        [0, 1, 2, 3, 4]
   \<and> fst (extent_do_update env0 1 serial_absent store_extent) = Inr 1
   \<and> map extent_row_serial (extents store_extent) = [''0123456789abcde'']
   \<and> map extent_row_serial (extents (snd (extent_do_update env0 1 serial_absent store_extent)))
       = [''0123456789abcde'']"
  by (simp add: update_eval)

subsection \<open>Which mutations tell the service to reload\<close>

lemma service_calls_logged [simp]: "service_calls (logged ev s) = service_calls s"
  by (simp add: logged_def)

lemma ends_with_reload_change [simp]: "ends_with_reload (service_change ''iscsitarget'' ''reload'' s)"
  by (simp add: ends_with_reload_def service_change_def)

text \<open>
  The other mutations of the model end with the reload when they succeed: the creates of
  portals, credentials, initiators, targets and associations, the updates of credentials,
  initiators and extents, and the deletes of portals, initiators, targets, extents and
  associations.
\<close>

lemma siblings_reload:
  "portal_do_create e p s = (Inr k, s') \<Longrightarrow> ends_with_reload s'"
  "portal_do_delete k s = (Inr u, s') \<Longrightarrow> ends_with_reload s'"
  "auth_do_create a s = (Inr k, s') \<Longrightarrow> ends_with_reload s'"
  "auth_do_update k ap s = (Inr k', s') \<Longrightarrow> ends_with_reload s'"
  "initiator_do_create i s = (Inr k, s') \<Longrightarrow> ends_with_reload s'"
  "initiator_do_update k ip s = (Inr k', s') \<Longrightarrow> ends_with_reload s'"
  "initiator_do_delete k s = (Inr u, s') \<Longrightarrow> ends_with_reload s'"
  "target_do_create e t s = (Inr k, s') \<Longrightarrow> ends_with_reload s'"
  "target_do_delete e k force s = (Inr u, s') \<Longrightarrow> ends_with_reload s'"
  "extent_do_update e k xp s = (Inr k', s') \<Longrightarrow> ends_with_reload s'"
  "extent_do_delete e k remove force s = (Inr u, s') \<Longrightarrow> ends_with_reload s'"
  "targetextent_do_create te s = (Inr k, s') \<Longrightarrow> ends_with_reload s'"
  "targetextent_do_delete e k force s = (Inr u, s') \<Longrightarrow> ends_with_reload s'"
proof -
  show "portal_do_create e p s = (Inr k, s') \<Longrightarrow> ends_with_reload s'"
    by (auto simp: portal_do_create_def Let_def split: if_splits prod.splits sum.splits)
  show "portal_do_delete k s = (Inr u, s') \<Longrightarrow> ends_with_reload s'"
    by (auto simp: portal_do_delete_def Let_def split: sum.splits)
  show "auth_do_create a s = (Inr k, s') \<Longrightarrow> ends_with_reload s'"
    by (auto simp: auth_do_create_def Let_def split: if_splits prod.splits)
  show "auth_do_update k ap s = (Inr k', s') \<Longrightarrow> ends_with_reload s'"
    by (auto simp: auth_do_update_def Let_def split: if_splits prod.splits sum.splits)
  show "initiator_do_create i s = (Inr k, s') \<Longrightarrow> ends_with_reload s'"
    by (auto simp: initiator_do_create_def Let_def split: prod.splits)
  show "initiator_do_update k ip s = (Inr k', s') \<Longrightarrow> ends_with_reload s'"
    by (auto simp: initiator_do_update_def Let_def split: list.splits)
  show "initiator_do_delete k s = (Inr u, s') \<Longrightarrow> ends_with_reload s'"
    by (auto simp: initiator_do_delete_def split: list.splits)
  show "target_do_create e t s = (Inr k, s') \<Longrightarrow> ends_with_reload s'"
    by (auto simp: target_do_create_def Let_def split: if_splits prod.splits sum.splits)
  show "target_do_delete e k force s = (Inr u, s') \<Longrightarrow> ends_with_reload s'"
    by (auto simp: target_do_delete_def Let_def split: if_splits prod.splits sum.splits list.splits)
  show "extent_do_update e k xp s = (Inr k', s') \<Longrightarrow> ends_with_reload s'"
    by (auto simp: extent_do_update_def Let_def
          split: if_splits prod.splits sum.splits list.splits option.splits)
  show "extent_do_delete e k remove force s = (Inr u, s') \<Longrightarrow> ends_with_reload s'"
    by (auto simp: extent_do_delete_def Let_def split: if_splits prod.splits sum.splits list.splits)
  show "targetextent_do_create te s = (Inr k, s') \<Longrightarrow> ends_with_reload s'"
    by (auto simp: targetextent_do_create_def Let_def split: if_splits prod.splits)
  show "targetextent_do_delete e k force s = (Inr u, s') \<Longrightarrow> ends_with_reload s'"
    by (auto simp: targetextent_do_delete_def Let_def split: if_splits list.splits)
qed

lemma extent_do_create_calls: "service_calls (snd (extent_do_create e d s)) = service_calls s"
  by (auto simp: extent_do_create_def insert_extent_def Let_def
        split: sum.splits option.splits prod.splits)

lemma auth_do_delete_calls: "service_calls (snd (auth_do_delete pk s)) = service_calls s"
  by (auto simp: auth_do_delete_def delete_auth_def split: sum.splits prod.splits)

lemmas create_eval = extent_do_create_def extent_validate_def extent_serial_def upt_five extent_naa_def
    extent_clean_def clean_name_def clean_type_and_path_def clean_size_def extent_save_def
    extent_columns_def insert_extent_def truthy_str_def startswith_def fresh_id_def logged_def
    extent0_def env0_def store_group_def store_portal_def store0_def Let_def

text \<open>
  C4 fails on the code. An Extent create never calls \<open>_service_change\<close>, and neither
  does the delete of a credential: whatever the input, the list of the notifications is
  afterwards what it was before. The create of the disk extent \<open>vol1\<close> succeeds, stores
  the extent as row 1, and notifies nobody; the delete of credential 1 succeeds and
  notifies nobody.
\<close>

theorem extent_create_does_not_notify:
  "service_calls (snd (extent_do_create e d s)) = service_calls s
   \<and> service_calls (snd (auth_do_delete pk s)) = service_calls s
   \<and> fst (extent_do_create env0 extent0 store_group) = Inr 1
   \<and> map extent_name (extents (snd (extent_do_create env0 extent0 store_group))) = [''vol1'']
   \<and> service_calls (snd (extent_do_create env0 extent0 store_group)) = []
   \<and> \<not> ends_with_reload (snd (extent_do_create env0 extent0 store_group))
   \<and> fst (auth_do_delete 1 store_creds) = Inr ()
   \<and> \<not> ends_with_reload (snd (auth_do_delete 1 store_creds))"
proof -
  have a: "fst (extent_do_create env0 extent0 store_group) = Inr 1"
    by (simp add: create_eval)
  have b: "map extent_name (extents (snd (extent_do_create env0 extent0 store_group))) = [''vol1'']"
    by (simp add: create_eval)
  have c: "service_calls store_group = []" "service_calls store_creds = []"
    by (simp_all add: store_creds_def store_group_def store_portal_def store0_def)
  have d: "fst (auth_do_delete 1 store_creds) = Inr ()"
    by (simp add: auth_do_delete_def auth_get_instance_def creds_eval)
  from a b c d show ?thesis
    by (simp add: extent_do_create_calls auth_do_delete_calls ends_with_reload_def)
qed

subsection \<open>Deleting an extent: associations and targets\<close>

lemma targets_service_change [simp]: "targets (service_change a b s) = targets s"
  and assocs_service_change [simp]: "assocs (service_change a b s) = assocs s"
  and extents_service_change [simp]: "extents (service_change a b s) = extents s"
  and assocs_logged [simp]: "assocs (logged ev s) = assocs s"
  and extents_logged [simp]: "extents (logged ev s) = extents s"
  by (simp_all add: service_change_def logged_def)

lemma delete_assoc_simps [simp]:
  "assocs (delete_assoc k s) = filter (\<lambda>r. te_id r \<noteq> k) (assocs s)"
  "targets (delete_assoc k s) = targets s"
  "extents (delete_assoc k s) = extents s"
  by (simp_all add: delete_assoc_def)

lemma delete_extent_simps [simp]:
  "extents (delete_extent k s) = filter (\<lambda>r. extent_id r \<noteq> k) (extents s)"
  "targets (delete_extent k s) = targets s"
  "assocs (delete_extent k s) = assocs s"
  by (simp_all add: delete_extent_def)

lemma delete_target_simps [simp]:
  "targets (delete_target k s) = filter (\<lambda>r. target_id r \<noteq> k) (targets s)"
  "assocs (delete_target k s) = assocs s"
  "extents (delete_target k s) = extents s"
  by (simp_all add: delete_target_def)

lemma targetextent_do_delete_ok:
  assumes "targetextent_do_delete e k force s = (Inr u, s')"
  shows "assocs s' = filter (\<lambda>r. te_id r \<noteq> k) (assocs s)"
    and "targets s' = targets s" and "extents s' = extents s"
  using assms by (auto simp: targetextent_do_delete_def Let_def split: list.splits if_splits)

lemma delete_targetextents_ok:
  "delete_targetextents e force ks s = (Inr u, s') \<Longrightarrow>
   assocs s' = filter (\<lambda>r. te_id r \<notin> set ks) (assocs s)
   \<and> targets s' = targets s \<and> extents s' = extents s"
proof (induction ks arbitrary: s)
  case Nil
  then show ?case by simp
next
  case (Cons k ks)
  obtain r s1 where st: "targetextent_do_delete e k force s = (r, s1)"
    by (cases "targetextent_do_delete e k force s")
  with Cons.prems obtain v where r: "r = Inr v" by (cases r) auto
  with st Cons.prems have rest: "delete_targetextents e force ks s1 = (Inr u, s')" by simp
  from targetextent_do_delete_ok[OF st[unfolded r]] Cons.IH[OF rest]
  show ?case by (simp add: conj_commute)
qed

text \<open>The part of C3 that holds for the extent delete: what it removes, what it keeps.\<close>

lemma extent_do_delete_ok:
  assumes "extent_do_delete e pk remove force s = (Inr u, s')"
  shows "targets s' = targets s"
    and "\<forall>r\<in>set (assocs s'). te_extent r \<noteq> pk"
    and "pk \<notin> extent_id ` set (extents s')"
proof -
  let ?ks = "map te_id (filter (\<lambda>t. te_extent t = pk) (assocs s))"
  from assms obtain v s1 where
    loop: "delete_targetextents e force ?ks s = (Inr v, s1)"
    and s': "s' = service_change ''iscsitarget'' ''reload'' (delete_extent pk s1)"
    by (auto simp: extent_do_delete_def Let_def split: list.splits if_splits prod.splits sum.splits)
  from delete_targetextents_ok[OF loop] have
    a: "assocs s1 = filter (\<lambda>r. te_id r \<notin> set ?ks) (assocs s)"
    and t: "targets s1 = targets s" and x: "extents s1 = extents s" by simp_all
  show "targets s' = targets s" using s' t by simp
  show "\<forall>r\<in>set (assocs s'). te_extent r \<noteq> pk" using s' a by auto
  show "pk \<notin> extent_id ` set (extents s')" using s' by auto
qed
lemma set_fold_insert:
  "set (fold (\<lambda>t. List.insert (f t)) xs acc) = f ` set xs \<union> set acc"
  by (induction xs arbitrary: acc) auto

lemma distinct_fold_insert:
  "distinct acc \<Longrightarrow> distinct (fold (\<lambda>t. List.insert (f t)) xs acc)"
  by (induction xs arbitrary: acc) auto

lemma fold_delete_assoc:
  "assocs (fold (\<lambda>t. delete_assoc (te_id t)) xs s) = filter (\<lambda>r. te_id r \<notin> te_id ` set xs) (assocs s)
   \<and> targets (fold (\<lambda>t. delete_assoc (te_id t)) xs s) = targets s
   \<and> extents (fold (\<lambda>t. delete_assoc (te_id t)) xs s) = extents s"
proof (induction xs arbitrary: s)
  case Nil
  then show ?case by simp
next
  case (Cons x xs)
  from Cons.IH[of "delete_assoc (te_id x) s"] show ?case by (simp add: conj_commute)
qed

lemma target_do_delete_orphan:
  assumes "t \<in> target_id ` set (targets s)" "\<forall>r\<in>set (assocs s). te_target r \<noteq> t"
  shows "\<exists>s'. target_do_delete e t True s = (Inr (), s')
            \<and> targets s' = filter (\<lambda>r. target_id r \<noteq> t) (targets s)
            \<and> assocs s' = assocs s \<and> extents s' = extents s"
proof -
  from assms(1) obtain r rs where f: "filter (\<lambda>r. target_id r = t) (targets s) = r # rs"
    by (cases "filter (\<lambda>r. target_id r = t) (targets s)") (auto simp: filter_empty_conv)
  from assms(2) have n: "filter (\<lambda>r. te_target r = t) (assocs s) = []"
    by (auto simp: filter_empty_conv)
  show ?thesis using f n by (simp add: target_do_delete_def Let_def)
qed

lemma delete_targets_orphans:
  "distinct ts \<Longrightarrow>
   \<forall>t\<in>set ts. t \<in> target_id ` set (targets s) \<and> (\<forall>r\<in>set (assocs s). te_target r \<noteq> t) \<Longrightarrow>
   \<exists>s'. delete_targets e ts s = (Inr (), s')
        \<and> targets s' = filter (\<lambda>r. target_id r \<notin> set ts) (targets s)
        \<and> assocs s' = assocs s \<and> extents s' = extents s"
proof (induction ts arbitrary: s)
  case Nil
  then show ?case by simp
next
  case (Cons t ts)
  from Cons.prems(2) have "t \<in> target_id ` set (targets s)" "\<forall>r\<in>set (assocs s). te_target r \<noteq> t"
    by simp_all
  from target_do_delete_orphan[OF this, of e] obtain s1 where
    s1: "target_do_delete e t True s = (Inr (), s1)"
      "targets s1 = filter (\<lambda>r. target_id r \<noteq> t) (targets s)"
      "assocs s1 = assocs s" "extents s1 = extents s" by blast
  have d: "distinct ts" and nt: "t \<notin> set ts" using Cons.prems(1) by simp_all
  have "\<forall>t'\<in>set ts. t' \<in> target_id ` set (targets s1) \<and> (\<forall>r\<in>set (assocs s1). te_target r \<noteq> t')"
  proof
    fix t' assume m: "t' \<in> set ts"
    with Cons.prems(2) have "t' \<in> target_id ` set (targets s)"
      and a: "\<forall>r\<in>set (assocs s). te_target r \<noteq> t'" by simp_all
    moreover from m nt have "t' \<noteq> t" by auto
    ultimately have "t' \<in> target_id ` set (targets s1)" unfolding s1(2) by auto
    with a show "t' \<in> target_id ` set (targets s1) \<and> (\<forall>r\<in>set (assocs s1). te_target r \<noteq> t')"
      unfolding s1(3) by simp
  qed
  from Cons.IH[OF d this, of ] obtain s' where
    s': "delete_targets e ts s1 = (Inr (), s')"
      "targets s' = filter (\<lambda>r. target_id r \<notin> set ts) (targets s1)"
      "assocs s' = assocs s1" "extents s' = extents s1" by blast
  have "targets s' = filter (\<lambda>r. target_id r \<notin> set (t # ts)) (targets s)"
    unfolding s'(2) s1(2) by (auto intro: filter_cong)
  with s1 s' show ?case by simp
qed

lemma delegate_delete_orphan:
  assumes wf: "\<forall>r\<in>set (assocs s). te_target r \<in> target_id ` set (targets s)"
      and has: "\<exists>r\<in>set (assocs s). te_target r = t"
      and sole: "\<forall>r\<in>set (assocs s). te_target r = t \<longrightarrow> te_extent r = extent_id a"
  shows "\<exists>s2. delegate_delete e [a] s = (Inr (), s2)
            \<and> t \<notin> target_id ` set (targets s2)
            \<and> (\<forall>r\<in>set (assocs s2). te_extent r \<noteq> extent_id a \<and> te_target r \<noteq> t)
            \<and> extent_id a \<notin> extent_id ` set (extents s2)"
proof -
  define tes where "tes = filter (\<lambda>t. te_extent t = extent_id a) (assocs s)"
  define orph where "orph = fold (\<lambda>t. List.insert (te_target t)) tes []"
  define s1 where "s1 = delete_extent (extent_id a) (fold (\<lambda>t. delete_assoc (te_id t)) tes s)"
  define rest where "rest = filter (\<lambda>t. t \<notin> set (map te_target
      (filter (\<lambda>t. te_target t \<in> set orph) (assocs s1)))) orph"
  have det: "detach [a] [] s = (orph, s1)"
    by (simp add: tes_def orph_def s1_def Let_def)
  have a1: "assocs s1 = filter (\<lambda>r. te_id r \<notin> te_id ` set tes) (assocs s)"
    and t1: "targets s1 = targets s"
    and x1: "extents s1 = filter (\<lambda>r. extent_id r \<noteq> extent_id a) (extents s)"
    using fold_delete_assoc[of tes s] by (simp_all add: s1_def)
  have so: "set orph = te_target ` set tes" by (simp add: orph_def set_fold_insert)
  have dorph: "distinct orph" unfolding orph_def by (rule distinct_fold_insert) simp
  have sub1: "set (assocs s1) \<subseteq> set (assocs s)" unfolding a1 by auto
  have noext: "\<forall>r\<in>set (assocs s1). te_extent r \<noteq> extent_id a"
    unfolding a1 tes_def by auto
  have not: "\<forall>r\<in>set (assocs s1). te_target r \<noteq> t" using sole sub1 noext by blast
  have tin: "t \<in> set orph" unfolding so tes_def using has sole by force
  have trest: "t \<in> set rest" unfolding rest_def using tin not by auto
  have drest: "distinct rest" unfolding rest_def using dorph by simp
  have ok: "\<forall>t'\<in>set rest. t' \<in> target_id ` set (targets s1)
      \<and> (\<forall>r\<in>set (assocs s1). te_target r \<noteq> t')"
  proof
    fix t' assume m: "t' \<in> set rest"
    then have o: "t' \<in> set orph" and n: "\<forall>r\<in>set (assocs s1). te_target r \<noteq> t'"
      unfolding rest_def by auto
    from o obtain r where "r \<in> set (assocs s)" "te_target r = t'" unfolding so tes_def by auto
    with wf have "t' \<in> target_id ` set (targets s1)" unfolding t1 by blast
    with n show "t' \<in> target_id ` set (targets s1) \<and> (\<forall>r\<in>set (assocs s1). te_target r \<noteq> t')"
      by simp
  qed
  from delete_targets_orphans[OF drest ok, of e] obtain s' where
    s': "delete_targets e rest s1 = (Inr (), s')"
      "targets s' = filter (\<lambda>r. target_id r \<notin> set rest) (targets s1)"
      "assocs s' = assocs s1" "extents s' = extents s1" by blast
  let ?s2 = "service_change ''iscsitarget'' ''reload'' s'"
  have res: "delegate_delete e [a] s = (Inr (), ?s2)"
    unfolding delegate_delete_def det using s'(1) by (simp add: rest_def Let_def)
  have "t \<notin> target_id ` set (targets ?s2)" using s'(2) trest by auto
  moreover have "\<forall>r\<in>set (assocs ?s2). te_extent r \<noteq> extent_id a \<and> te_target r \<noteq> t"
    using s'(3) noext not by simp
  moreover have "extent_id a \<notin> extent_id ` set (extents ?s2)" using s'(4) x1 by auto
  ultimately show ?thesis using res by blast
qed

lemmas delete_eval = extent_do_delete_def delete_targetextents.simps targetextent_do_delete_def
    active_sessions_for_targets_def delete_assoc_def delete_extent_def service_change_def logged_def
    store_extent_def store_group_def store_portal_def store0_def env0_def extent0_def Let_def

text \<open>
  C3, as the code has it. An extent delete that succeeds removes the extent and every
  association that references it, and leaves the table of the targets as it was. The
  delete of the attachment delegate, called for one extent in a store where every
  association has its target, also deletes a target whose associations all referenced that
  extent.
\<close>

theorem extent_delete_cascade:
  "(extent_do_delete e pk remove force s = (Inr u, s')
    \<longrightarrow> targets s' = targets s
        \<and> (\<forall>r\<in>set (assocs s'). te_extent r \<noteq> pk)
        \<and> pk \<notin> extent_id ` set (extents s'))
   \<and> ((\<forall>r\<in>set (assocs s). te_target r \<in> target_id ` set (targets s))
        \<and> (\<exists>r\<in>set (assocs s). te_target r = t)
        \<and> (\<forall>r\<in>set (assocs s). te_target r = t \<longrightarrow> te_extent r = extent_id a)
    \<longrightarrow> (\<exists>s2. delegate_delete e [a] s = (Inr (), s2)
            \<and> t \<notin> target_id ` set (targets s2)
            \<and> (\<forall>r\<in>set (assocs s2). te_extent r \<noteq> extent_id a \<and> te_target r \<noteq> t)
            \<and> extent_id a \<notin> extent_id ` set (extents s2)))"
  using extent_do_delete_ok[of e pk remove force s u s'] delegate_delete_orphan[of s t a e]
  by blast

theorem extent_delete_cascade_witness:
  "extent_do_delete env0 1 False False store_extent
     = (Inr (), snd (extent_do_delete env0 1 False False store_extent))
   \<and> targets (snd (extent_do_delete env0 1 False False store_extent)) = targets store_extent
   \<and> map target_id (targets store_extent) = [1]
   \<and> map te_target (assocs store_extent) = [1]
   \<and> map te_extent (assocs store_extent) = [1]
   \<and> (\<exists>s2. delegate_delete env0 [hd (extents store_extent)] store_extent = (Inr (), s2)
          \<and> 1 \<notin> target_id ` set (targets s2))"
proof -
  have "fst (extent_do_delete env0 1 False False store_extent) = Inr ()"
    by (simp add: delete_eval)
  then have d: "extent_do_delete env0 1 False False store_extent
     = (Inr (), snd (extent_do_delete env0 1 False False store_extent))"
    by (metis prod.collapse)
  have h: "\<forall>r\<in>set (assocs store_extent). te_target r \<in> target_id ` set (targets store_extent)"
    "\<exists>r\<in>set (assocs store_extent). te_target r = 1"
    "\<forall>r\<in>set (assocs store_extent). te_target r = 1 \<longrightarrow> te_extent r = extent_id (hd (extents store_extent))"
    by (simp_all add: store_extent_def store_group_def store_portal_def store0_def)
  have m: "map target_id (targets store_extent) = [1]" "map te_target (assocs store_extent) = [1]"
    "map te_extent (assocs store_extent) = [1]"
    by (simp_all add: store_extent_def store_group_def store_portal_def store0_def)
  note c = extent_delete_cascade [of env0 1 False False store_extent "()"
      "snd (extent_do_delete env0 1 False False store_extent)" 1 "hd (extents store_extent)"]
  from c d have a: "targets (snd (extent_do_delete env0 1 False False store_extent)) = targets store_extent"
    by blast
  from c h have b: "\<exists>s2. delegate_delete env0 [hd (extents store_extent)] store_extent = (Inr (), s2)
          \<and> 1 \<notin> target_id ` set (targets s2)"
    by blast
  from d a m b show ?thesis by blast
qed

text \<open>
  C3, as the specification states it, fails: target 1 has one association, with extent 1; the extent
  delete of extent 1 succeeds, the association is gone, and target 1 is still there.
\<close>

theorem extent_delete_keeps_target_counterexample:
  "map (\<lambda>r. (te_target r, te_extent r)) (assocs store_extent) = [(1, 1)]
   \<and> fst (extent_do_delete env0 1 False False store_extent) = Inr ()
   \<and> assocs (snd (extent_do_delete env0 1 False False store_extent)) = []
   \<and> extents (snd (extent_do_delete env0 1 False False store_extent)) = []
   \<and> map target_id (targets (snd (extent_do_delete env0 1 False False store_extent))) = [1]"
  by (simp add: delete_eval)

end
